(* ===== verification/Go_Prelude.thy ===== *)
theory Go_Prelude imports
  Main
  "HOL-Library.Char_ord"
  "HOL-Library.List_Lexorder"
  "HOL-Library.Sublist"
  "HOL-Library.Multiset"
begin

text \<open>
  The part of Go's standard library the modelled packages call, on byte strings.

  A Go string is a sequence of bytes, so it is a \<open>string\<close> (a list of 8-bit characters).
  White space and letter case are Unicode notions in Go; the definitions below decide them
  exactly on UTF-8 byte sequences wherever the result is compared with an ASCII word, which
  is the only way the modelled code uses them: \<open>space_codes\<close> lists the encodings of every
  rune that \<open>unicode.IsSpace\<close> accepts, and the case maps treat the ASCII letters and the
  few other letters whose image is an ASCII letter, and keep every other byte. (Go changes
  some of those other bytes, into bytes that are not ASCII either, so no comparison with an
  ASCII word can tell.)
\<close>

named_theorems go_simps \<open>evaluation and unfolding rules shared by the component proofs\<close>

section \<open>White space\<close>

definition space_codes :: "string list" where
  "space_codes =
     [[CHR 0x09], [CHR 0x0A], [CHR 0x0B], [CHR 0x0C], [CHR 0x0D], [CHR 0x20],
      [CHR 0xC2, CHR 0x85], [CHR 0xC2, CHR 0xA0], [CHR 0xE1, CHR 0x9A, CHR 0x80],
      [CHR 0xE2, CHR 0x80, CHR 0x80], [CHR 0xE2, CHR 0x80, CHR 0x81],
      [CHR 0xE2, CHR 0x80, CHR 0x82], [CHR 0xE2, CHR 0x80, CHR 0x83],
      [CHR 0xE2, CHR 0x80, CHR 0x84], [CHR 0xE2, CHR 0x80, CHR 0x85],
      [CHR 0xE2, CHR 0x80, CHR 0x86], [CHR 0xE2, CHR 0x80, CHR 0x87],
      [CHR 0xE2, CHR 0x80, CHR 0x88], [CHR 0xE2, CHR 0x80, CHR 0x89],
      [CHR 0xE2, CHR 0x80, CHR 0x8A], [CHR 0xE2, CHR 0x80, CHR 0xA8],
      [CHR 0xE2, CHR 0x80, CHR 0xA9], [CHR 0xE2, CHR 0x80, CHR 0xAF],
      [CHR 0xE2, CHR 0x81, CHR 0x9F], [CHR 0xE3, CHR 0x80, CHR 0x80]]"

text \<open>Removing leading codes, as often as one of them is a prefix.\<close>

function strip_codes :: "string list \<Rightarrow> string \<Rightarrow> string" where
  "strip_codes es s =
     (case find (\<lambda>e. e \<noteq> [] \<and> prefix e s) es of
        None \<Rightarrow> s
      | Some e \<Rightarrow> strip_codes es (drop (length e) s))"
  by pat_completeness auto
termination
  by (relation "measure (\<lambda>(es, s). length s)")
    (auto simp: find_Some_iff prefix_def)

declare strip_codes.simps [simp del]

text \<open>\<open>strings.TrimSpace\<close>.\<close>

definition trim_left :: "string \<Rightarrow> string" where
  "trim_left s = strip_codes space_codes s"

definition trim_right :: "string \<Rightarrow> string" where
  "trim_right s = rev (strip_codes (map rev space_codes) (rev s))"

definition trim_space :: "string \<Rightarrow> string" where
  "trim_space s = trim_right (trim_left s)"

definition clear_of :: "string list \<Rightarrow> string \<Rightarrow> bool" where
  "clear_of es s \<longleftrightarrow> (\<forall>e\<in>set es. e = [] \<or> \<not> prefix e s)"

lemma strip_codes_clear: "clear_of es (strip_codes es s)"
proof (induction es s rule: strip_codes.induct)
  case (1 es s)
  then show ?case
    by (subst strip_codes.simps)
      (auto simp: clear_of_def find_None_iff split: option.split)
qed

lemma strip_codes_id: "clear_of es s \<Longrightarrow> strip_codes es s = s"
  by (subst strip_codes.simps) (auto simp: clear_of_def find_Some_iff split: option.split)

lemma strip_codes_suffix: "suffix (strip_codes es s) s"
proof (induction es s rule: strip_codes.induct)
  case (1 es s)
  then show ?case
    by (subst strip_codes.simps)
      (auto split: option.split intro: suffix_order.trans suffix_drop)
qed

lemma clear_of_prefix: "clear_of es s \<Longrightarrow> prefix t s \<Longrightarrow> clear_of es t"
  by (auto simp: clear_of_def dest: prefix_order.trans)

lemma trim_right_prefix: "prefix (trim_right s) s"
  using strip_codes_suffix [of "map rev space_codes" "rev s"]
  by (simp add: trim_right_def suffix_to_prefix)

text \<open>Trimming is idempotent: what is left neither starts nor ends with white space.\<close>

lemma trim_space_clear:
  "clear_of space_codes (trim_space s) \<and> clear_of (map rev space_codes) (rev (trim_space s))"
proof
  show "clear_of space_codes (trim_space s)"
    unfolding trim_space_def trim_left_def
    by (rule clear_of_prefix [OF strip_codes_clear trim_right_prefix])
  show "clear_of (map rev space_codes) (rev (trim_space s))"
    by (simp add: trim_space_def trim_right_def strip_codes_clear)
qed

lemma trim_space_id:
  "clear_of space_codes s \<Longrightarrow> clear_of (map rev space_codes) (rev s) \<Longrightarrow> trim_space s = s"
  by (simp add: trim_space_def trim_left_def trim_right_def strip_codes_id)

lemma trim_space_idem [simp]: "trim_space (trim_space s) = trim_space s"
  using trim_space_clear trim_space_id by blast

lemma trim_space_Nil [simp]: "trim_space [] = []"
  by (rule trim_space_id) (auto simp: clear_of_def)

section \<open>Letter case\<close>

definition lower_char :: "char \<Rightarrow> char" where
  "lower_char c = (if CHR ''A'' \<le> c \<and> c \<le> CHR ''Z'' then char_of (of_char c + 32 :: nat) else c)"

definition upper_char :: "char \<Rightarrow> char" where
  "upper_char c = (if CHR ''a'' \<le> c \<and> c \<le> CHR ''z'' then char_of (of_char c - 32 :: nat) else c)"

text \<open>
  Replacing multi-byte letters by an ASCII letter, and mapping the other bytes. The letters
  whose lower case is ASCII are U+0130 (to \<open>i\<close>) and U+212A (to \<open>k\<close>); those whose upper
  case is ASCII are U+0131 (to \<open>I\<close>) and U+017F (to \<open>S\<close>); under simple case folding U+017F
  is an \<open>s\<close> and U+212A a \<open>k\<close>.
\<close>

function map_letters :: "(string \<times> char) list \<Rightarrow> (char \<Rightarrow> char) \<Rightarrow> string \<Rightarrow> string" where
  "map_letters tab f [] = []"
| "map_letters tab f (c # cs) =
     (case find (\<lambda>(code, d). prefix code (c # cs)) tab of
        None \<Rightarrow> f c # map_letters tab f cs
      | Some (code, d) \<Rightarrow> d # map_letters tab f (drop (length code - 1) cs))"
  by pat_completeness auto
termination
  by (relation "measure (\<lambda>(tab, f, s). length s)") auto

definition to_lower :: "string \<Rightarrow> string" where
  "to_lower = map_letters
     [([CHR 0xC4, CHR 0xB0], CHR ''i''), ([CHR 0xE2, CHR 0x84, CHR 0xAA], CHR ''k'')] lower_char"

definition to_upper :: "string \<Rightarrow> string" where
  "to_upper = map_letters
     [([CHR 0xC4, CHR 0xB1], CHR ''I''), ([CHR 0xC5, CHR 0xBF], CHR ''S'')] upper_char"

definition case_fold :: "string \<Rightarrow> string" where
  "case_fold = map_letters
     [([CHR 0xC5, CHR 0xBF], CHR ''s''), ([CHR 0xE2, CHR 0x84, CHR 0xAA], CHR ''k'')] lower_char"

text \<open>\<open>strings.EqualFold\<close>, against an ASCII word.\<close>

definition equal_fold :: "string \<Rightarrow> string \<Rightarrow> bool" where
  "equal_fold s t \<longleftrightarrow> case_fold s = case_fold t"

lemma map_letters_Nil_iff [simp]: "map_letters tab f s = [] \<longleftrightarrow> s = []"
  by (cases s) (auto split: option.split)

lemmas case_defs = to_lower_def to_upper_def case_fold_def equal_fold_def
  lower_char_def upper_char_def

section \<open>Splitting and joining\<close>

text \<open>\<open>strings.Split\<close> with a one-byte separator; it never returns an empty slice.\<close>

fun split_on :: "char \<Rightarrow> string \<Rightarrow> string list" where
  "split_on d [] = [[]]"
| "split_on d (c # cs) =
     (if c = d then [] # split_on d cs
      else (case split_on d cs of [] \<Rightarrow> [[c]] | p # ps \<Rightarrow> (c # p) # ps))"

text \<open>\<open>strings.Join\<close>.\<close>

fun join :: "string \<Rightarrow> string list \<Rightarrow> string" where
  "join sep [] = []"
| "join sep [s] = s"
| "join sep (s # t # ts) = s @ sep @ join sep (t # ts)"

lemma split_on_not_Nil [simp]: "split_on d s \<noteq> []"
  by (induction s) (auto split: list.split)

lemma join_Cons: "join sep (s # ts) = (if ts = [] then s else s @ sep @ join sep ts)"
  by (cases ts) auto

lemma join_split_on: "join [d] (split_on d s) = s"
  by (induction s) (auto simp: join_Cons split: list.split if_splits)

lemma split_on_clean: "d \<notin> set s \<Longrightarrow> split_on d s = [s]"
  by (induction s) auto

lemma split_on_append: "d \<notin> set s \<Longrightarrow> split_on d (s @ d # t) = s # split_on d t"
  by (induction s) auto

lemma split_on_join:
  "ps \<noteq> [] \<Longrightarrow> \<forall>p\<in>set ps. d \<notin> set p \<Longrightarrow> split_on d (join [d] ps) = ps"
proof (induction ps)
  case Nil
  then show ?case by simp
next
  case (Cons p ps)
  then show ?case by (cases ps) (auto simp: split_on_clean split_on_append)
qed

lemma split_on_parts_clean: "p \<in> set (split_on d s) \<Longrightarrow> d \<notin> set p"
  by (induction s arbitrary: p) (auto split: list.splits if_splits)

text \<open>\<open>strings.Trim\<close> with a one-byte cutset, and \<open>strings.Cut\<close> at the first such byte.\<close>

definition trim_char :: "char \<Rightarrow> string \<Rightarrow> string" where
  "trim_char d s = rev (dropWhile (\<lambda>c. c = d) (rev (dropWhile (\<lambda>c. c = d) s)))"

definition cut_at :: "char \<Rightarrow> string \<Rightarrow> string \<times> string \<times> bool" where
  "cut_at d s =
     (let before = takeWhile (\<lambda>c. c \<noteq> d) s; rest = dropWhile (\<lambda>c. c \<noteq> d) s
      in (before, drop 1 rest, rest \<noteq> []))"

lemma cut_at_found: "d \<notin> set s \<Longrightarrow> cut_at d (s @ d # t) = (s, t, True)"
  by (induction s) (auto simp: cut_at_def Let_def)

section \<open>Decimal numbers\<close>

definition digit_char :: "nat \<Rightarrow> char" where
  "digit_char n = char_of (48 + n)"

definition is_digit :: "char \<Rightarrow> bool" where
  "is_digit c \<longleftrightarrow> CHR ''0'' \<le> c \<and> c \<le> CHR ''9''"

text \<open>\<open>%d\<close> of a number that is not negative.\<close>

fun show_nat :: "nat \<Rightarrow> string" where
  "show_nat n = (if n < 10 then [digit_char n] else show_nat (n div 10) @ [digit_char (n mod 10)])"

declare show_nat.simps [simp del]

definition show_int :: "int \<Rightarrow> string" where
  "show_int i = (if i < 0 then CHR ''-'' # show_nat (nat (- i)) else show_nat (nat i))"

fun parse_digits :: "nat \<Rightarrow> string \<Rightarrow> nat option" where
  "parse_digits acc [] = Some acc"
| "parse_digits acc (c # cs) =
     (if is_digit c then parse_digits (10 * acc + (of_char c - 48)) cs else None)"

definition parse_nat :: "string \<Rightarrow> nat option" where
  "parse_nat s = (if s = [] then None else parse_digits 0 s)"

text \<open>
  \<open>strconv.ParseInt(s, 10, 64)\<close>, and \<open>strconv.Atoi\<close> on a 64-bit platform: an optional sign,
  at least one digit, nothing else, and a value that fits a signed 64-bit integer.
\<close>

definition parse_int64 :: "string \<Rightarrow> int option" where
  "parse_int64 s =
     (let neg = (s \<noteq> [] \<and> hd s = CHR ''-'');
          digits = (if s \<noteq> [] \<and> (hd s = CHR ''-'' \<or> hd s = CHR ''+'') then tl s else s)
      in case parse_nat digits of
           None \<Rightarrow> None
         | Some n \<Rightarrow>
             (let v = (if neg then - int n else int n)
              in if - (2 ^ 63) \<le> v \<and> v < 2 ^ 63 then Some v else None))"

lemma is_digit_nat: "is_digit c \<longleftrightarrow> 48 \<le> (of_char c :: nat) \<and> (of_char c :: nat) \<le> 57"
  by (simp add: is_digit_def less_eq_char_def)

lemma of_char_digit_char [simp]: "n < 10 \<Longrightarrow> of_char (digit_char n) = 48 + n"
  by (simp add: digit_char_def)

lemma is_digit_digit_char [simp]: "n < 10 \<Longrightarrow> is_digit (digit_char n)"
  by (simp add: is_digit_nat)

lemma show_nat_not_Nil [simp]: "show_nat n \<noteq> []"
  by (subst show_nat.simps) simp

lemma show_nat_digits: "c \<in> set (show_nat n) \<Longrightarrow> is_digit c"
proof (induction n arbitrary: c rule: show_nat.induct)
  case (1 n)
  then show ?case by (auto simp: show_nat.simps [of n] split: if_splits)
qed

lemma parse_digits_append:
  "parse_digits acc (s @ t) = (case parse_digits acc s of None \<Rightarrow> None | Some a \<Rightarrow> parse_digits a t)"
  by (induction acc s rule: parse_digits.induct) auto

lemma parse_digits_show_nat: "parse_digits 0 (show_nat n) = Some n"
proof (induction n rule: show_nat.induct)
  case (1 n)
  show ?case
  proof (cases "n < 10")
    case True
    then show ?thesis by (simp add: show_nat.simps [of n])
  next
    case False
    with 1 have "parse_digits 0 (show_nat (n div 10)) = Some (n div 10)" by simp
    with False show ?thesis by (simp add: show_nat.simps [of n] parse_digits_append)
  qed
qed

lemma parse_nat_show_nat [simp]: "parse_nat (show_nat n) = Some n"
  by (simp add: parse_nat_def parse_digits_show_nat)

lemma show_nat_inject [simp]: "show_nat m = show_nat n \<longleftrightarrow> m = n"
  by (metis option.inject parse_nat_show_nat)

lemma hd_show_nat_digit: "is_digit (hd (show_nat n))"
  by (rule show_nat_digits) (rule hd_in_set, simp)

lemma parse_int64_show_nat:
  assumes "n < 2 ^ 63"
  shows "parse_int64 (show_nat n) = Some (int n)"
proof -
  have "hd (show_nat n) \<noteq> CHR ''-''" "hd (show_nat n) \<noteq> CHR ''+''"
    using hd_show_nat_digit [of n] by (auto simp: is_digit_nat)
  moreover have "int n < 2 ^ 63" using assms by (metis of_nat_less_numeral_power_cancel_iff)
  ultimately show ?thesis by (simp add: parse_int64_def)
qed

section \<open>Sorting\<close>

text \<open>
  \<open>sort.Strings\<close> on map keys and \<open>sort.Slice\<close> by a key are \<open>sort_key\<close>; strings are
  ordered byte by byte, as in Go. A map read in key order does not depend on the order of
  its association list.
\<close>

lemma sort_key_eq_Nil [simp]: "sort_key f xs = [] \<longleftrightarrow> xs = []"
  by (simp flip: length_0_conv)

lemma sort_key_mset_eq:
  assumes "mset xs = mset ys" "distinct (map f xs)"
  shows "sort_key f xs = sort_key f ys"
proof (rule sort_key_inj_key_eq)
  show "mset xs = mset (sort_key f ys)" using assms(1) by simp
  show "inj_on f (set xs)" using assms(2) by (simp add: distinct_map)
  show "sorted (map f (sort_key f ys))" by simp
qed

end
