(* ===== verification/Sql_Text.thy ===== *)
theory Sql_Text imports Go_Prelude begin

text \<open>
  SQL text with bind parameters. Three packages of the program (\<open>orm\<close>, \<open>migrate\<close> and
  \<open>jobs\<close>) build statements from literal text and placeholders made by a function of their
  own, \<open>ph\<close>, which writes \<open>$n\<close> for PostgreSQL and \<open>?\<close> for every other dialect. This
  theory says what it means that the placeholders of a text are numbered consecutively and
  agree with the argument list, and proves once, in the locale \<open>placeholder_style\<close>, how the
  ways the code glues texts together keep that.
\<close>

section \<open>Texts whose placeholders are numbered\<close>

text \<open>A text without any placeholder, and a text that cannot continue a number.\<close>

definition plain :: "string \<Rightarrow> bool" where
  "plain s \<longleftrightarrow> CHR ''$'' \<notin> set s \<and> CHR ''?'' \<notin> set s"

definition breaks :: "string \<Rightarrow> bool" where
  "breaks s \<longleftrightarrow> s = [] \<or> \<not> is_digit (hd s)"

text \<open>
  \<open>marked ph i j s\<close>: the placeholders of \<open>s\<close> are \<open>ph (i+1), ..., ph j\<close>, in this order,
  and everything between them is plain.
\<close>

inductive marked :: "(nat \<Rightarrow> string) \<Rightarrow> nat \<Rightarrow> nat \<Rightarrow> string \<Rightarrow> bool" for ph where
  marked_plain: "plain s \<Longrightarrow> marked ph i i s"
| marked_hole: "marked ph i j s \<Longrightarrow> plain t \<Longrightarrow> breaks t \<Longrightarrow> marked ph i (Suc j) (s @ ph (Suc j) @ t)"

text \<open>What a reader of the text sees: the numbers after each \<open>$\<close>, and the question marks.\<close>

fun dollar_numbers :: "string \<Rightarrow> nat option list" where
  "dollar_numbers [] = []"
| "dollar_numbers (c # cs) =
     (if c = CHR ''$'' then parse_nat (takeWhile is_digit cs) # dollar_numbers cs
      else dollar_numbers cs)"

definition bound_in_order :: "bool \<Rightarrow> string \<Rightarrow> nat \<Rightarrow> bool" where
  "bound_in_order numbered s n \<longleftrightarrow>
     (if numbered then dollar_numbers s = map Some [1..<Suc n] \<and> CHR ''?'' \<notin> set s
      else count_list s (CHR ''?'') = n \<and> CHR ''$'' \<notin> set s)"

lemma plain_append [simp]: "plain (s @ t) \<longleftrightarrow> plain s \<and> plain t"
  by (auto simp: plain_def)

lemma plain_Nil [simp]: "plain []"
  by (simp add: plain_def)

lemma plain_Cons [simp]: "plain (c # s) \<longleftrightarrow> c \<noteq> CHR ''$'' \<and> c \<noteq> CHR ''?'' \<and> plain s"
  by (auto simp: plain_def)

lemma breaks_Nil [simp]: "breaks []"
  by (simp add: breaks_def)

lemma breaks_Cons [simp]: "breaks (c # s) \<longleftrightarrow> \<not> is_digit c"
  by (simp add: breaks_def)

lemma breaks_append: "breaks (s @ t) \<longleftrightarrow> (if s = [] then breaks t else breaks s)"
  by (cases s) auto

lemma plain_join: "plain sep \<Longrightarrow> (\<And>p. p \<in> set ps \<Longrightarrow> plain p) \<Longrightarrow> plain (join sep ps)"
  by (induction ps) (auto simp: join_Cons)

lemma not_digit_punct [simp]:
  "\<not> is_digit (CHR '' '')" "\<not> is_digit (CHR '','')" "\<not> is_digit (CHR '')'')"
  "\<not> is_digit (CHR ''('')" "\<not> is_digit (CHR ''$'')" "\<not> is_digit (CHR ''?'')"
  by (simp_all add: is_digit_nat)

section \<open>Gluing texts\<close>

lemma marked_bounds: "marked ph i j s \<Longrightarrow> i \<le> j"
  by (induction rule: marked.induct) auto

lemma marked_prefix: "marked ph i j s \<Longrightarrow> plain p \<Longrightarrow> marked ph i j (p @ s)"
proof (induction rule: marked.induct)
  case (marked_plain s i)
  then show ?case by (auto intro: marked.marked_plain)
next
  case (marked_hole i j s t)
  then show ?case using marked.marked_hole [of ph i j "p @ s" t] by simp
qed

lemma marked_suffix:
  assumes "marked ph i j s" "plain t" "breaks t"
  shows "marked ph i j (s @ t)"
  using assms(1)
proof cases
  case marked_plain
  with assms show ?thesis by (auto intro: marked.marked_plain)
next
  case (marked_hole j' s' t')
  with assms show ?thesis
    using marked.marked_hole [of ph i j' s' "t' @ t"] by (auto simp: breaks_append)
qed

lemma marked_append:
  assumes "marked ph j k t" "marked ph i j s" "breaks t"
  shows "marked ph i k (s @ t)"
  using assms
proof (induction arbitrary: s rule: marked.induct)
  case (marked_plain t j)
  then show ?case by (auto intro: marked_suffix)
next
  case (marked_hole j k t u)
  then have "breaks t" by (auto simp: breaks_append split: if_splits)
  with marked_hole have "marked ph i k (s @ t)" by blast
  with marked_hole show ?case using marked.marked_hole [of ph i k "s @ t" u] by simp
qed

lemma marked_one: "plain s \<Longrightarrow> plain t \<Longrightarrow> breaks t \<Longrightarrow> marked ph i (Suc i) (s @ ph (Suc i) @ t)"
  by (rule marked_hole [OF marked_plain])

text \<open>A list of texts, numbered one after the other, and its join.\<close>

inductive marked_list :: "(nat \<Rightarrow> string) \<Rightarrow> nat \<Rightarrow> nat \<Rightarrow> string list \<Rightarrow> bool" for ph where
  marked_list_Nil: "marked_list ph i i []"
| marked_list_Cons: "marked ph i j s \<Longrightarrow> marked_list ph j k ss \<Longrightarrow> marked_list ph i k (s # ss)"

inductive_simps marked_list_simps [simp]:
  "marked_list ph i j []"
  "marked_list ph i j (s # ss)"

lemma marked_list_join:
  assumes "marked_list ph i j ss" "plain sep" "sep \<noteq> []" "breaks sep"
  shows "marked ph i j (join sep ss)"
  using assms
proof (induction rule: marked_list.induct)
  case (marked_list_Nil i)
  then show ?case by (simp add: marked_plain)
next
  case (marked_list_Cons i j s k ss)
  show ?case
  proof (cases "ss = []")
    case True
    with marked_list_Cons show ?thesis by simp
  next
    case False
    have "marked ph j k (sep @ join sep ss)"
      using marked_list_Cons by (auto intro: marked_prefix)
    with False marked_list_Cons show ?thesis
      by (auto simp: join_Cons breaks_append intro: marked_append)
  qed
qed

lemma marked_list_holes: "marked_list ph i (i + n) (map (\<lambda>k. ph (Suc k)) [i..<i + n])"
proof (induction n arbitrary: i)
  case 0
  then show ?case by simp
next
  case (Suc n)
  have "[i..<i + Suc n] = i # [Suc i..<Suc i + n]"
    by (simp add: upt_conv_Cons)
  moreover have "marked ph i (Suc i) (ph (Suc i))"
    using marked_one [of "[]" "[]" ph i] by simp
  ultimately show ?case using Suc [of "Suc i"] by (auto simp del: upt_Suc)
qed

section \<open>The two styles\<close>

locale placeholder_style =
  fixes ph :: "nat \<Rightarrow> string" and numbered :: bool
  assumes ph_numbered: "numbered \<Longrightarrow> ph n = CHR ''$'' # show_nat n"
    and ph_question: "\<not> numbered \<Longrightarrow> ph n = ''?''"
begin

lemma ph_not_Nil: "ph n \<noteq> []"
  by (cases numbered) (auto simp: ph_numbered ph_question)

lemma marked_question: "marked ph i j s \<Longrightarrow> \<not> numbered \<Longrightarrow>
  count_list s (CHR ''?'') = j - i \<and> CHR ''$'' \<notin> set s"
proof (induction rule: marked.induct)
  case (marked_plain s i)
  then show ?case by (simp add: plain_def)
next
  case (marked_hole i j s t)
  then have "i \<le> j" by (auto dest: marked_bounds)
  with marked_hole show ?case by (auto simp: plain_def ph_question)
qed

lemma dollar_numbers_append:
  "breaks t \<Longrightarrow> dollar_numbers (s @ t) = dollar_numbers s @ dollar_numbers t"
proof (induction s)
  case Nil
  then show ?case by simp
next
  case (Cons c s)
  have "takeWhile is_digit (s @ t) = takeWhile is_digit s"
    using Cons.prems by (cases t) (simp_all add: takeWhile_tail)
  with Cons show ?case by simp
qed

lemma dollar_numbers_plain: "CHR ''$'' \<notin> set s \<Longrightarrow> dollar_numbers s = []"
  by (induction s) auto

lemma dollar_numbers_hole:
  assumes "numbered" "plain t" "breaks t"
  shows "dollar_numbers (ph n @ t) = [Some n]"
proof -
  have "takeWhile is_digit (show_nat n @ t) = show_nat n"
    using assms(3) show_nat_digits by (cases t) (auto simp: takeWhile_append)
  moreover have "CHR ''$'' \<notin> set (show_nat n)"
    using show_nat_digits [of "CHR ''$''" n] by auto
  ultimately show ?thesis
    using assms by (auto simp: ph_numbered plain_def dollar_numbers_plain)
qed

lemma marked_dollar: "marked ph i j s \<Longrightarrow> numbered \<Longrightarrow>
  dollar_numbers s = map Some [Suc i..<Suc j] \<and> CHR ''?'' \<notin> set s"
proof (induction rule: marked.induct)
  case (marked_plain s i)
  then show ?case by (simp add: plain_def dollar_numbers_plain)
next
  case (marked_hole i j s t)
  have "dollar_numbers (s @ ph (Suc j) @ t) = dollar_numbers s @ dollar_numbers (ph (Suc j) @ t)"
    using marked_hole by (intro dollar_numbers_append) (simp add: ph_numbered)
  moreover have "dollar_numbers (ph (Suc j) @ t) = [Some (Suc j)]"
    using marked_hole by (intro dollar_numbers_hole) simp_all
  moreover have "CHR ''?'' \<notin> set (ph (Suc j))"
    using marked_hole.prems show_nat_digits [of "CHR ''?''" "Suc j"] by (auto simp: ph_numbered)
  ultimately show ?case
    using marked_hole marked_bounds [of ph i j s] by (auto simp: plain_def)
qed

lemma marked_bound_in_order: "marked ph 0 n s \<Longrightarrow> bound_in_order numbered s n"
  using marked_dollar [of 0 n s] marked_question [of 0 n s]
  by (auto simp: bound_in_order_def)

end

end
