(* ===== verification/Orm_Values.thy ===== *)
theory Orm_Values imports Sql_Text begin

text \<open>
  Package \<open>orm\<close>, the data: Go's dynamic values as the where maps and argument lists use them,
  the errors of the package with the text each one wraps, SQL identifiers and the placeholder
  styles. A Go map is an association list with distinct keys (\<open>go_map\<close>); its order stands for
  Go's iteration order, which is unspecified.
\<close>

section \<open>Dynamic values\<close>

text \<open>
  The cases \<open>any\<close> values are told apart by: nil, bool, string, byte slices, other slices and
  arrays, and the two map types \<open>asWhereMap\<close> accepts (\<open>Where\<close> and \<open>map[string]any\<close>, which
  it treats alike). \<open>VOpaque\<close> is any other value (floats, times, structs).
\<close>

datatype val =
    VNil
  | VBool bool
  | VInt int
  | VStr string
  | VBytes string
  | VOpaque nat
  | VList "val list"
  | VMap "(string \<times> val) list"

type_synonym go_map = "(string \<times> val) list"
type_synonym go_record = "string \<rightharpoonup> val"

text \<open>\<open>asWhereMap\<close>, \<open>toAnySlice\<close> and \<open>asConditionList\<close> of table.go.\<close>

fun as_where_map :: "val \<Rightarrow> go_map option" where
  "as_where_map (VMap m) = Some m"
| "as_where_map _ = None"

fun to_any_slice :: "val \<Rightarrow> val list option" where
  "to_any_slice VNil = None"
| "to_any_slice (VList xs) = Some xs"
| "to_any_slice (VBytes b) = Some (map (\<lambda>c. VInt (of_char c)) b)"
| "to_any_slice _ = None"

fun normalize_db_value :: "val \<Rightarrow> val" where
  "normalize_db_value (VBytes b) = VStr b"
| "normalize_db_value v = v"

section \<open>Errors\<close>

text \<open>The sentinel errors, and what \<open>fmt.Errorf\<close> adds to \<open>ErrInvalidInput\<close> at each place.\<close>

datatype invalid_input =
    InvalidIdentifier string string
  | MustNotBeEmpty string
  | WhereRequired string
  | LogicalClauseNotObject
  | LogicalOperatorNotList
  | UnknownOperator string
  | InRequiresList
  | ExpectsString string
  | ExpectsBool string
  | InvalidSchema string

datatype orm_error =
    ErrNotFound
  | ErrInvalidInput invalid_input
  | ErrNonUnique
  | ErrUnsupportedOperator string
  | RowsWithoutColumns
  | DbError string

definition as_condition_list :: "val \<Rightarrow> orm_error + val list" where
  "as_condition_list v =
     (if v = VNil then Inr []
      else case as_where_map v of
        Some m \<Rightarrow> Inr [VMap m]
      | None \<Rightarrow>
          (case to_any_slice v of
             None \<Rightarrow> Inl (ErrInvalidInput LogicalOperatorNotList)
           | Some items \<Rightarrow> Inr items))"

section \<open>Identifiers\<close>

definition ident_start :: "char \<Rightarrow> bool" where
  "ident_start c \<longleftrightarrow>
     (CHR ''A'' \<le> c \<and> c \<le> CHR ''Z'') \<or> (CHR ''a'' \<le> c \<and> c \<le> CHR ''z'') \<or> c = CHR ''_''"

definition ident_char :: "char \<Rightarrow> bool" where
  "ident_char c \<longleftrightarrow> ident_start c \<or> is_digit c"

text \<open>The regular expression \<open>^[A-Za-z_][A-Za-z0-9_]*$\<close>.\<close>

definition ident_match :: "string \<Rightarrow> bool" where
  "ident_match s \<longleftrightarrow> (case s of [] \<Rightarrow> False | c # cs \<Rightarrow> ident_start c \<and> list_all ident_char cs)"

definition valid_identifier :: "string \<Rightarrow> string \<Rightarrow> orm_error + string" where
  "valid_identifier name label =
     (let name = trim_space name
      in if \<not> ident_match name then Inl (ErrInvalidInput (InvalidIdentifier label name)) else Inr name)"

lemma ident_start_nat: "ident_start c \<longleftrightarrow>
  (65 \<le> (of_char c :: nat) \<and> (of_char c :: nat) \<le> 90) \<or>
  (97 \<le> (of_char c :: nat) \<and> (of_char c :: nat) \<le> 122) \<or> (of_char c :: nat) = 95"
proof -
  have "c = CHR ''_'' \<longleftrightarrow> (of_char c :: nat) = of_char (CHR ''_'')" by (simp only: of_char_eq_iff)
  then show ?thesis by (simp add: ident_start_def less_eq_char_def)
qed

lemma ident_char_nat: "ident_char c \<longleftrightarrow> ident_start c \<or> (48 \<le> (of_char c :: nat) \<and> (of_char c :: nat) \<le> 57)"
  by (simp add: ident_char_def is_digit_nat)

lemma ident_match_chars: "ident_match s \<Longrightarrow> c \<in> set s \<Longrightarrow> ident_char c"
  by (auto simp: ident_match_def list_all_iff ident_char_def split: list.splits)

lemma not_ident_char [simp]: "\<not> ident_char (CHR ''$'')" "\<not> ident_char (CHR ''?'')"
  by (simp_all add: ident_char_nat ident_start_nat)

lemma ident_match_plain: "ident_match s \<Longrightarrow> plain s"
  by (auto simp: plain_def dest: ident_match_chars)

lemma ident_match_breaks: "ident_match s \<Longrightarrow> breaks s"
  by (auto simp: ident_match_def ident_start_nat is_digit_nat breaks_def split: list.splits)

lemma ident_match_not_Nil: "ident_match s \<Longrightarrow> s \<noteq> []"
  by (auto simp: ident_match_def)

lemma valid_identifierD:
  "valid_identifier name label = Inr n \<Longrightarrow> ident_match n \<and> n = trim_space name"
  by (auto simp: valid_identifier_def Let_def split: if_splits)

lemma valid_identifier_label:
  "valid_identifier name label = Inr n \<longleftrightarrow> ident_match n \<and> n = trim_space name"
  by (auto simp: valid_identifier_def Let_def)

text \<open>White space is never part of an identifier, so trimming leaves one alone.\<close>

lemma space_codes_ends: "e \<in> set space_codes \<Longrightarrow>
  e \<noteq> [] \<and> \<not> ident_char (hd e) \<and> \<not> ident_char (last e)"
  by (auto simp: space_codes_def ident_char_nat ident_start_nat)

lemma ident_match_trim: "ident_match s \<Longrightarrow> trim_space s = s"
proof (rule trim_space_id)
  assume s: "ident_match s"
  have *: "\<not> prefix e t" if "\<not> ident_char (hd e)" "e \<noteq> []" "set t = set s" for e t
    using that ident_match_chars [OF s] by (cases e; cases t) auto
  show "clear_of space_codes s"
    using * space_codes_ends by (auto simp: clear_of_def)
  show "clear_of (map rev space_codes) (rev s)"
    using * [of "rev _" "rev s"] space_codes_ends by (auto simp: clear_of_def hd_rev)
qed

lemma valid_identifier_id: "ident_match s \<Longrightarrow> valid_identifier s label = Inr s"
  by (simp add: valid_identifier_def ident_match_trim)

section \<open>Tables and placeholders\<close>

text \<open>\<open>Table\<close> without its connection, which the operations take as an argument.\<close>

record table =
  tbl_dialect :: string
  tbl_name :: string

definition numbered_dialect :: "string \<Rightarrow> bool" where
  "numbered_dialect dialect \<longleftrightarrow> equal_fold dialect ''postgres'' \<or> equal_fold dialect ''pg''"

definition ph :: "table \<Rightarrow> nat \<Rightarrow> string" where
  "ph t n = (if equal_fold (tbl_dialect t) ''postgres'' \<or> equal_fold (tbl_dialect t) ''pg''
             then ''$'' @ show_nat n else ''?'')"

definition supports_returning :: "table \<Rightarrow> bool" where
  "supports_returning t =
     (let dialect = to_lower (trim_space (tbl_dialect t))
      in dialect = ''postgres'' \<or> dialect = ''pg'' \<or> dialect = ''sqlite'' \<or> dialect = ''sqlite3'')"

interpretation orm_ph: placeholder_style "ph t" "numbered_dialect (tbl_dialect t)" for t
  by unfold_locales (auto simp: ph_def numbered_dialect_def)

end
