(* ===== verification/Orm_Where.thy ===== *)
theory Orm_Where imports Orm_Values begin

text \<open>
  Package \<open>orm\<close>, table.go: the translation of where maps to SQL conditions
  (\<open>buildWhereMap\<close> and the functions below it). Each builder takes the number of
  placeholders used so far and returns the text, its arguments and the new number, or an
  error. The loops \<open>for _, key := range keys\<close> of the code all have one shape, \<open>collect_parts\<close>.
\<close>

section \<open>Loops over clauses\<close>

type_synonym built = "string \<times> val list \<times> nat"

text \<open>
  One pass over the clauses: stop at the first error, thread the placeholder number, and
  (\<open>skip\<close>) leave out the clauses whose text is empty, with their arguments.
\<close>

fun collect_parts ::
  "bool \<Rightarrow> ('x \<Rightarrow> nat \<Rightarrow> orm_error + built) \<Rightarrow> 'x list \<Rightarrow> nat \<Rightarrow> orm_error + (string list \<times> val list \<times> nat)" where
  "collect_parts skip f [] start = Inr ([], [], start)"
| "collect_parts skip f (x # xs) start =
     (case f x start of
        Inl e \<Rightarrow> Inl e
      | Inr (part, out, n) \<Rightarrow>
          (case collect_parts skip f xs n of
             Inl e \<Rightarrow> Inl e
           | Inr (parts, args, n') \<Rightarrow>
               if skip \<and> part = [] then Inr (parts, args, n')
               else Inr (part # parts, out @ args, n')))"

lemma collect_parts_cong [fundef_cong]:
  assumes "skip = skip'" "xs = ys" "start = start'" "\<And>x n. x \<in> set ys \<Longrightarrow> f x n = g x n"
  shows "collect_parts skip f xs start = collect_parts skip' g ys start'"
proof -
  have "(\<And>x n. x \<in> set ys \<Longrightarrow> f x n = g x n) \<Longrightarrow>
    collect_parts skip' f ys start' = collect_parts skip' g ys start'"
    by (induction ys arbitrary: start') (auto split: sum.split)
  with assms show ?thesis by simp
qed

text \<open>The nesting of maps and lists below a value; the scalars a byte slice turns into have none.\<close>

fun nesting :: "val \<Rightarrow> nat" where
  "nesting (VMap m) = Suc (sum_list (map (\<lambda>(k, v). nesting v) m))"
| "nesting (VList xs) = Suc (sum_list (map nesting xs))"
| "nesting (VBytes b) = 1"
| "nesting _ = 0"

definition map_nesting :: "go_map \<Rightarrow> nat" where
  "map_nesting m = sum_list (map (\<lambda>(k, v). nesting v) m)"

lemma nesting_elem: "x \<in> set xs \<Longrightarrow> nesting x \<le> sum_list (map nesting xs)"
  by (induction xs) auto

lemma nesting_entry: "(k, v) \<in> set m \<Longrightarrow> nesting v \<le> map_nesting m"
  by (induction m) (auto simp: map_nesting_def)

lemma condition_nesting:
  "as_condition_list v = Inr cs \<Longrightarrow> c \<in> set cs \<Longrightarrow> nesting c \<le> nesting v"
  by (cases v) (auto simp: as_condition_list_def dest: nesting_elem)

section \<open>Operator clauses on one column\<close>

definition operator_keys :: "string list" where
  "operator_keys =
     [''equals'', ''is'', ''not'', ''isnot'', ''in'', ''notin'', ''lt'', ''lte'', ''gt'', ''gte'',
      ''contains'', ''startswith'', ''endswith'', ''isset'', ''isempty'',
      ''some'', ''every'', ''none'', ''has'', ''hasevery'', ''hassome'']"

definition contains_any_operator_key :: "go_map \<Rightarrow> bool" where
  "contains_any_operator_key ops \<longleftrightarrow>
     (\<exists>(key, v)\<in>set ops. to_lower (trim_space key) \<in> set operator_keys)"

definition build_equals_expr :: "table \<Rightarrow> string \<Rightarrow> val \<Rightarrow> nat \<Rightarrow> orm_error + built" where
  "build_equals_expr t column v start =
     (if v = VNil then Inr (column @ '' IS NULL'', [], start)
      else Inr (column @ '' = '' @ ph t (start + 1), [v], start + 1))"

definition build_in_expr :: "table \<Rightarrow> string \<Rightarrow> val \<Rightarrow> bool \<Rightarrow> nat \<Rightarrow> orm_error + built" where
  "build_in_expr t column v negate start =
     (case to_any_slice v of
        None \<Rightarrow> Inl (ErrInvalidInput InRequiresList)
      | Some items \<Rightarrow>
          if items = [] then Inl (ErrInvalidInput InRequiresList)
          else
            (let holders = map (\<lambda>k. ph t (Suc k)) [start..<start + length items];
                 op = (if negate then ''NOT IN'' else ''IN'')
             in Inr (column @ '' '' @ op @ '' ('' @ join '', '' holders @ '')'',
                     items, start + length items)))"

definition compare_symbol :: "string \<Rightarrow> string" where
  "compare_symbol op =
     (if op = ''lt'' then ''<'' else if op = ''lte'' then ''<=''
      else if op = ''gt'' then ''>'' else if op = ''gte'' then ''>='' else [])"

definition build_compare_expr :: "table \<Rightarrow> string \<Rightarrow> string \<Rightarrow> val \<Rightarrow> nat \<Rightarrow> orm_error + built" where
  "build_compare_expr t column op v start =
     Inr (column @ '' '' @ compare_symbol op @ '' '' @ ph t (start + 1), [v], start + 1)"

definition build_string_expr :: "table \<Rightarrow> string \<Rightarrow> string \<Rightarrow> val \<Rightarrow> nat \<Rightarrow> orm_error + built" where
  "build_string_expr t column op v start =
     (case v of
        VStr s \<Rightarrow>
          (let s' = (if op = ''contains'' then ''%'' @ s @ ''%''
                     else if op = ''startswith'' then s @ ''%''
                     else if op = ''endswith'' then ''%'' @ s else s)
           in Inr (column @ '' LIKE '' @ ph t (start + 1), [VStr s'], start + 1))
      | _ \<Rightarrow> Inl (ErrInvalidInput (ExpectsString op)))"

definition build_is_set_expr :: "string \<Rightarrow> val \<Rightarrow> orm_error + string" where
  "build_is_set_expr column v =
     (case v of
        VBool b \<Rightarrow> Inr (if b then column @ '' IS NOT NULL'' else column @ '' IS NULL'')
      | _ \<Rightarrow> Inl (ErrInvalidInput (ExpectsBool ''isSet'')))"

definition build_is_empty_expr :: "string \<Rightarrow> val \<Rightarrow> orm_error + string" where
  "build_is_empty_expr column v =
     (case v of
        VBool b \<Rightarrow> Inr (if b then column @ '' = '' @ [CHR 0x27, CHR 0x27] else column @ '' <> '' @ [CHR 0x27, CHR 0x27])
      | _ \<Rightarrow> Inl (ErrInvalidInput (ExpectsBool ''isEmpty'')))"

text \<open>
  \<open>buildOperatorExpr\<close> (the loop, and the joined text), the body of its \<open>switch\<close> and
  \<open>buildNotFieldExpr\<close>, which calls it back on a nested map.
\<close>

function build_operator_expr :: "table \<Rightarrow> string \<Rightarrow> go_map \<Rightarrow> nat \<Rightarrow> orm_error + built"
  and operator_clause :: "table \<Rightarrow> string \<Rightarrow> string \<Rightarrow> val \<Rightarrow> nat \<Rightarrow> orm_error + built"
  and build_not_field_expr :: "table \<Rightarrow> string \<Rightarrow> val \<Rightarrow> nat \<Rightarrow> orm_error + built" where
  "build_operator_expr t column ops start =
     (case collect_parts False (\<lambda>(key, v) next. operator_clause t column key v next)
             (sort_key fst ops) start of
        Inl e \<Rightarrow> Inl e
      | Inr (parts, args, next) \<Rightarrow>
          if parts = [] then Inr ([], args, next)
          else Inr (join '' AND '' parts, args, next))"
| "operator_clause t column key v next =
     (let op = to_lower (trim_space key) in
      if op = ''equals'' \<or> op = ''is'' then build_equals_expr t column v next
      else if op = ''not'' \<or> op = ''isnot'' then build_not_field_expr t column v next
      else if op = ''in'' then build_in_expr t column v False next
      else if op = ''notin'' then build_in_expr t column v True next
      else if op = ''lt'' \<or> op = ''lte'' \<or> op = ''gt'' \<or> op = ''gte'' then build_compare_expr t column op v next
      else if op = ''contains'' \<or> op = ''startswith'' \<or> op = ''endswith'' then build_string_expr t column op v next
      else if op = ''isset'' then
        (case build_is_set_expr column v of Inl e \<Rightarrow> Inl e | Inr part \<Rightarrow> Inr (part, [], next))
      else if op = ''isempty'' then
        (case build_is_empty_expr column v of Inl e \<Rightarrow> Inl e | Inr part \<Rightarrow> Inr (part, [], next))
      else if op = ''some'' \<or> op = ''every'' \<or> op = ''none'' \<or> op = ''has'' \<or> op = ''hasevery'' \<or> op = ''hassome''
      then Inl (ErrUnsupportedOperator key)
      else Inl (ErrInvalidInput (UnknownOperator key)))"
| "build_not_field_expr t column v start =
     (case as_where_map v of
        Some nested \<Rightarrow>
          if nested \<noteq> [] then
            (case build_operator_expr t column nested start of
               Inl e \<Rightarrow> Inl e
             | Inr (part, args, next) \<Rightarrow> Inr (''NOT ('' @ part @ '')'', args, next))
          else Inr (column @ '' <> '' @ ph t (start + 1), [v], start + 1)
      | None \<Rightarrow>
          if v = VNil then Inr (column @ '' IS NOT NULL'', [], start)
          else Inr (column @ '' <> '' @ ph t (start + 1), [v], start + 1))"
  by pat_completeness auto
termination
  by (relation "measures
      [case_sum (\<lambda>(t, c, ops, n). map_nesting ops)
         (case_sum (\<lambda>(t, c, k, v, n). nesting v) (\<lambda>(t, c, v, n). nesting v)),
       case_sum (\<lambda>_. 2) (case_sum (\<lambda>_. 1) (\<lambda>_. 0))]")
    (auto dest: nesting_entry simp: le_less map_nesting_def elim!: as_where_map.elims)

declare build_operator_expr.simps [simp del] operator_clause.simps [simp del]
  build_not_field_expr.simps [simp del]

section \<open>Conditions\<close>

definition build_field_expr :: "table \<Rightarrow> string \<Rightarrow> val \<Rightarrow> nat \<Rightarrow> orm_error + built" where
  "build_field_expr t column v start =
     (case valid_identifier column ''where column'' of
        Inl e \<Rightarrow> Inl e
      | Inr col \<Rightarrow>
          (case as_where_map v of
             Some ops \<Rightarrow>
               if ops \<noteq> [] \<and> contains_any_operator_key ops then build_operator_expr t col ops start
               else Inr (col @ '' = '' @ ph t (start + 1), [v], start + 1)
           | None \<Rightarrow>
               if v = VNil then Inr (col @ '' IS NULL'', [], start)
               else Inr (col @ '' = '' @ ph t (start + 1), [v], start + 1)))"

text \<open>
  \<open>buildWhereMap\<close> (\<open>build_map_expr\<close>) with the loop over its sorted keys, the \<open>switch\<close> on one key
  (\<open>clause_expr\<close>), \<open>buildLogicalListExpr\<close>, \<open>buildNotExpr\<close> and \<open>buildConditionValue\<close>.
\<close>

function build_map_expr :: "table \<Rightarrow> go_map \<Rightarrow> nat \<Rightarrow> orm_error + built"
  and clause_expr :: "table \<Rightarrow> string \<Rightarrow> val \<Rightarrow> nat \<Rightarrow> orm_error + built"
  and build_logical_list_expr :: "table \<Rightarrow> string \<Rightarrow> val \<Rightarrow> nat \<Rightarrow> orm_error + built"
  and build_condition_value :: "table \<Rightarrow> val \<Rightarrow> nat \<Rightarrow> orm_error + built"
  and build_not_expr :: "table \<Rightarrow> val \<Rightarrow> nat \<Rightarrow> orm_error + built" where
  "build_map_expr t m start =
     (case collect_parts True (\<lambda>(key, raw) next. clause_expr t key raw next)
             (sort_key fst m) start of
        Inl e \<Rightarrow> Inl e
      | Inr (parts, args, next) \<Rightarrow>
          if parts = [] then Inr ([], args, next)
          else Inr (join '' AND '' parts, args, next))"
| "clause_expr t key raw next =
     (let up = to_upper (trim_space key) in
      if up = ''AND'' then build_logical_list_expr t ''AND'' raw next
      else if up = ''OR'' then build_logical_list_expr t ''OR'' raw next
      else if up = ''NOT'' then build_not_expr t raw next
      else build_field_expr t key raw next)"
| "build_logical_list_expr t op v start =
     (case as_condition_list v of
        Inl e \<Rightarrow> Inl e
      | Inr conditions \<Rightarrow>
          if conditions = [] then Inr ([], [], start)
          else
            (case collect_parts True (\<lambda>cond next. build_condition_value t cond next) conditions start of
               Inl e \<Rightarrow> Inl e
             | Inr (parts, args, next) \<Rightarrow>
                 if parts = [] then Inr ([], args, next)
                 else Inr (''('' @ join ('' '' @ op @ '' '') parts @ '')'', args, next)))"
| "build_condition_value t v start =
     (case as_where_map v of
        None \<Rightarrow> Inl (ErrInvalidInput LogicalClauseNotObject)
      | Some m \<Rightarrow> build_map_expr t m start)"
| "build_not_expr t v start =
     (case build_condition_value t v start of
        Inl e \<Rightarrow> Inl e
      | Inr (part, args, next) \<Rightarrow>
          if part = [] then Inr ([], args, next)
          else Inr (''NOT ('' @ part @ '')'', args, next))"
  by pat_completeness auto
termination
  by (relation "measures
      [case_sum (case_sum (\<lambda>(t, m, n). map_nesting m) (\<lambda>(t, k, v, n). nesting v))
         (case_sum (\<lambda>(t, op, v, n). nesting v)
            (case_sum (\<lambda>(t, v, n). nesting v) (\<lambda>(t, v, n). nesting v))),
       case_sum (case_sum (\<lambda>_. 4) (\<lambda>_. 3)) (case_sum (\<lambda>_. 2) (case_sum (\<lambda>_. 0) (\<lambda>_. 1)))]")
    (auto dest: nesting_entry condition_nesting simp: le_less map_nesting_def elim!: as_where_map.elims)

declare build_map_expr.simps [simp del] clause_expr.simps [simp del]
  build_logical_list_expr.simps [simp del] build_condition_value.simps [simp del]
  build_not_expr.simps [simp del]

text \<open>\<open>whereClause\<close>: the condition behind its keyword, nothing for a map that says nothing.\<close>

definition where_clause :: "table \<Rightarrow> go_map \<Rightarrow> nat \<Rightarrow> orm_error + (string \<times> val list)" where
  "where_clause t m start =
     (if m = [] then Inr ([], [])
      else
        (case build_map_expr t m start of
           Inl e \<Rightarrow> Inl e
         | Inr (expr, args, next) \<Rightarrow>
             if expr = [] then Inr ([], args) else Inr ('' WHERE '' @ expr, args)))"

section \<open>Numbering of the placeholders\<close>

text \<open>What every builder promises about its text, arguments and new number.\<close>

definition built_ok :: "(nat \<Rightarrow> string) \<Rightarrow> nat \<Rightarrow> orm_error + built \<Rightarrow> bool" where
  "built_ok hole start r \<longleftrightarrow>
     (case r of
        Inl e \<Rightarrow> True
      | Inr (s, args, n) \<Rightarrow> n = start + length args \<and> marked hole start n s \<and> (s = [] \<longrightarrow> args = []))"

definition built_nonempty :: "orm_error + built \<Rightarrow> bool" where
  "built_nonempty r \<longleftrightarrow> (case r of Inl e \<Rightarrow> True | Inr (s, args, n) \<Rightarrow> s \<noteq> [])"

lemma built_ok_Inl [simp]: "built_ok hole start (Inl e)"
  by (simp add: built_ok_def)

lemma built_nonempty_Inl [simp]: "built_nonempty (Inl e)"
  by (simp add: built_nonempty_def)

lemma built_nonempty_Inr [simp]: "built_nonempty (Inr (s, args, n)) \<longleftrightarrow> s \<noteq> []"
  by (simp add: built_nonempty_def)

lemma built_ok_plain: "plain s \<Longrightarrow> built_ok hole start (Inr (s, [], start))"
  by (simp add: built_ok_def marked_plain)

lemma built_ok_hole:
  "plain c \<Longrightarrow> plain d \<Longrightarrow> c \<noteq> [] \<Longrightarrow> built_ok hole start (Inr (c @ d @ hole (start + 1), [v], start + 1))"
  using marked_one [of "c @ d" "[]" hole start] by (simp add: built_ok_def)

lemma built_ok_wrap:
  assumes "built_ok hole start (Inr (s, args, n))" "plain p" "plain q" "breaks q" "p \<noteq> []"
  shows "built_ok hole start (Inr (p @ s @ q, args, n))"
  using assms by (auto simp: built_ok_def intro: marked_prefix marked_suffix)

lemma collect_parts_ok:
  assumes "collect_parts skip f xs start = Inr (parts, args, n)"
    and "\<And>x k. x \<in> set xs \<Longrightarrow> built_ok hole k (f x k)"
    and "skip \<or> (\<forall>x\<in>set xs. \<forall>k. built_nonempty (f x k))"
  shows "n = start + length args \<and> marked_list hole start n parts \<and> (parts = [] \<longrightarrow> args = []) \<and> [] \<notin> set parts"
  using assms
proof (induction xs arbitrary: start parts args n)
  case Nil
  then show ?case by simp
next
  case (Cons x xs)
  then obtain s out k parts' args' where
    x: "f x start = Inr (s, out, k)" and
    rest: "collect_parts skip f xs k = Inr (parts', args', n)" and
    result: "(parts, args) = (if skip \<and> s = [] then (parts', args') else (s # parts', out @ args'))"
    by (auto split: sum.splits prod.splits if_splits)
  have ok: "built_ok hole start (f x start)" and ne: "skip \<or> built_nonempty (f x start)"
    using Cons.prems by auto
  have IH: "n = k + length args' \<and> marked_list hole k n parts' \<and> (parts' = [] \<longrightarrow> args' = []) \<and> [] \<notin> set parts'"
    using Cons.IH [OF rest] Cons.prems by auto
  show ?case
    using IH ok ne x result by (auto simp: built_ok_def split: if_splits)
qed

lemma collect_parts_joined:
  assumes "collect_parts skip f xs start = Inr (parts, args, n)"
    and "\<And>x k. x \<in> set xs \<Longrightarrow> built_ok hole k (f x k)"
    and "skip \<or> (\<forall>x\<in>set xs. \<forall>k. built_nonempty (f x k))"
    and "plain sep" "sep \<noteq> []" "breaks sep"
  shows "built_ok hole start (Inr (join sep parts, args, n))"
proof -
  from collect_parts_ok [OF assms(1-3)]
  have *: "n = start + length args" "marked_list hole start n parts" "parts = [] \<longrightarrow> args = []" "[] \<notin> set parts"
    by auto
  have "join sep parts = [] \<longrightarrow> parts = []"
    using *(4) by (cases parts) (auto simp: join_Cons)
  with * assms(4-6) show ?thesis
    by (auto simp: built_ok_def intro: marked_list_join)
qed

lemma flag_clause_ok:
  "(\<And>s. e = Inr s \<Longrightarrow> plain s \<and> s \<noteq> []) \<Longrightarrow>
   built_ok (ph t) next (case e of Inl err \<Rightarrow> Inl err | Inr part \<Rightarrow> Inr (part, [], next)) \<and>
   built_nonempty (case e of Inl err \<Rightarrow> Inl err | Inr part \<Rightarrow> Inr (part, [], next))"
  by (cases e) (auto simp: built_ok_plain)

lemma if_cases: "(b \<Longrightarrow> P x) \<Longrightarrow> (\<not> b \<Longrightarrow> P y) \<Longrightarrow> P (if b then x else y)"
  by simp

lemma build_equals_expr_ok:
  "plain c \<Longrightarrow> c \<noteq> [] \<Longrightarrow>
   built_ok (ph t) start (build_equals_expr t c v start) \<and> built_nonempty (build_equals_expr t c v start)"
  using built_ok_hole [of c "'' = ''" "ph t" start v] built_ok_plain [of "c @ '' IS NULL''" "ph t" start]
  by (simp add: build_equals_expr_def)

lemma build_compare_expr_ok:
  "plain c \<Longrightarrow> c \<noteq> [] \<Longrightarrow>
   built_ok (ph t) start (build_compare_expr t c op v start) \<and> built_nonempty (build_compare_expr t c op v start)"
  using built_ok_hole [of c "'' '' @ compare_symbol op @ '' ''" "ph t" start v]
  by (simp add: build_compare_expr_def compare_symbol_def)

lemma build_string_expr_ok:
  "plain c \<Longrightarrow> c \<noteq> [] \<Longrightarrow>
   built_ok (ph t) start (build_string_expr t c op v start) \<and> built_nonempty (build_string_expr t c op v start)"
  using built_ok_hole [of c "'' LIKE ''" "ph t" start] by (simp add: build_string_expr_def split: val.split)

lemma build_in_expr_ok:
  assumes "plain c" "c \<noteq> []"
  shows "built_ok (ph t) start (build_in_expr t c v negate start) \<and> built_nonempty (build_in_expr t c v negate start)"
proof (cases "to_any_slice v")
  case None
  then show ?thesis by (simp add: build_in_expr_def)
next
  case (Some items)
  let ?op = "if negate then ''NOT IN'' else ''IN''"
  let ?holders = "map (\<lambda>k. ph t (Suc k)) [start..<start + length items]"
  have "marked (ph t) start (start + length items) (join '', '' ?holders)"
    by (rule marked_list_join [OF marked_list_holes]) auto
  then have "marked (ph t) start (start + length items)
      ((c @ '' '' @ ?op @ '' ('') @ join '', '' ?holders @ '')'')"
    using assms by (intro marked_prefix marked_suffix) auto
  then show ?thesis
    using assms Some by (simp add: build_in_expr_def built_ok_def)
qed

lemma flag_exprs_plain:
  "plain c \<Longrightarrow> build_is_set_expr c v = Inr s \<Longrightarrow> plain s \<and> s \<noteq> []"
  "plain c \<Longrightarrow> build_is_empty_expr c v = Inr s \<Longrightarrow> plain s \<and> s \<noteq> []"
  by (auto simp: build_is_set_expr_def build_is_empty_expr_def split: val.splits if_splits)

lemma operator_exprs_ok:
  "plain c \<Longrightarrow> c \<noteq> [] \<Longrightarrow> built_ok (ph t) start (build_operator_expr t c ops start) \<and>
     (ops \<noteq> [] \<longrightarrow> built_nonempty (build_operator_expr t c ops start))"
  "plain c \<Longrightarrow> c \<noteq> [] \<Longrightarrow> built_ok (ph t) next (operator_clause t c key v next) \<and>
     built_nonempty (operator_clause t c key v next)"
  "plain c \<Longrightarrow> c \<noteq> [] \<Longrightarrow> built_ok (ph t) start (build_not_field_expr t c v start) \<and>
     built_nonempty (build_not_field_expr t c v start)"
proof (induction t c ops start and t c key v "next" and t c v start
    rule: build_operator_expr_operator_clause_build_not_field_expr.induct)
  case (1 t column ops start)
  let ?f = "\<lambda>(key, v) next. operator_clause t column key v next"
  have f: "built_ok (ph t) k (?f x k) \<and> built_nonempty (?f x k)"
    if "x \<in> set (sort_key fst ops)" for x k
  proof (cases x)
    case (Pair key w)
    with 1 that show ?thesis by simp
  qed
  show ?case
  proof (cases "collect_parts False ?f (sort_key fst ops) start")
    case (Inl e)
    then show ?thesis by (simp add: build_operator_expr.simps)
  next
    case (Inr r)
    then obtain parts args n where r: "collect_parts False ?f (sort_key fst ops) start = Inr (parts, args, n)"
      by (cases r) auto
    have joined: "built_ok (ph t) start (Inr (join '' AND '' parts, args, n))"
      by (rule collect_parts_joined [OF r]) (use f in auto)
    have parts: "[] \<notin> set parts"
      using collect_parts_ok [OF r] f by blast
    have "parts \<noteq> []" if "ops \<noteq> []"
      using that r by (cases "sort_key fst ops") (auto split: sum.splits prod.splits)
    with joined parts r show ?thesis
      by (cases parts) (auto simp: build_operator_expr.simps join_Cons)
  qed
next
  case (2 t column key v "next")
  show ?case
    unfolding operator_clause.simps Let_def
    by (intro if_cases [where P = "\<lambda>r. built_ok (ph t) next r \<and> built_nonempty r"] build_equals_expr_ok
        build_compare_expr_ok build_string_expr_ok build_in_expr_ok "2.IH" "2.prems" refl
        flag_clause_ok flag_exprs_plain(1) [OF "2.prems"(1)] flag_exprs_plain(2) [OF "2.prems"(1)])
      simp_all
next
  case (3 t column v start)
  have hole: "built_ok (ph t) start (Inr (column @ '' <> '' @ ph t (start + 1), [v], start + 1))"
    using 3 by (intro built_ok_hole) auto
  have null: "built_ok (ph t) start (Inr (column @ '' IS NOT NULL'', [], start))"
    using 3 by (intro built_ok_plain) auto
  have wrap: "built_ok (ph t) start (Inr (''NOT ('' @ part @ '')'', args, n))"
    if "as_where_map v = Some nested" "nested \<noteq> []"
      "build_operator_expr t column nested start = Inr (part, args, n)" for nested part args n
    using that 3 by (intro built_ok_wrap) auto
  show ?case
    using hole null wrap 3(2,3)
    by (auto simp: build_not_field_expr.simps split: option.splits sum.splits)
qed

lemma build_field_expr_ok:
  "built_ok (ph t) start (build_field_expr t c v start) \<and> built_nonempty (build_field_expr t c v start)"
proof (cases "valid_identifier c ''where column''")
  case (Inl e)
  then show ?thesis by (simp add: build_field_expr_def)
next
  case (Inr col)
  then have col: "plain col" "col \<noteq> []"
    by (auto dest: valid_identifierD ident_match_plain ident_match_not_Nil)
  have "built_ok (ph t) start (Inr (col @ '' = '' @ ph t (start + 1), [v], start + 1))"
    by (rule built_ok_hole) (use col in auto)
  moreover have "built_ok (ph t) start (Inr (col @ '' IS NULL'', [], start))"
    by (rule built_ok_plain) (use col in auto)
  ultimately show ?thesis using Inr col operator_exprs_ok(1) [OF col]
    by (auto simp: build_field_expr_def split: option.split)
qed

lemma where_builders_ok:
  "built_ok (ph t) start (build_map_expr t m start)"
  "built_ok (ph t) next (clause_expr t key raw next)"
  "plain op \<Longrightarrow> built_ok (ph t) start (build_logical_list_expr t op v start)"
  "built_ok (ph t) start (build_condition_value t v start)"
  "built_ok (ph t) start (build_not_expr t v start)"
proof (induction t m start and t key raw "next" and t op v start and t v start and t v start
    rule: build_map_expr_clause_expr_build_logical_list_expr_build_condition_value_build_not_expr.induct)
  case (1 t m start)
  let ?f = "\<lambda>(key, raw) next. clause_expr t key raw next"
  have f: "built_ok (ph t) k (?f x k)" if "x \<in> set (sort_key fst m)" for x k
  proof (cases x)
    case (Pair key w)
    with 1 that show ?thesis by simp
  qed
  show ?case
    using collect_parts_joined [where skip = True and f = ?f and hole = "ph t" and sep = "'' AND ''"
        and xs = "sort_key fst m" and start = start] f
    by (auto simp: build_map_expr.simps built_ok_plain split: sum.split)
next
  case (2 t key raw "next")
  then show ?case by (auto simp: clause_expr.simps Let_def build_field_expr_ok)
next
  case (3 t op v start)
  show ?case
  proof (cases "as_condition_list v")
    case (Inl e)
    then show ?thesis by (simp add: build_logical_list_expr.simps)
  next
    case (Inr conds)
    have cond: "built_ok (ph t) k (build_condition_value t c k)" if "c \<in> set conds" for c k
      using that 3 Inr by (cases conds) auto
    have joined: "built_ok (ph t) start (Inr (join ('' '' @ op @ '' '') parts, args, n))"
      if "collect_parts True (\<lambda>cond next. build_condition_value t cond next) conds start = Inr (parts, args, n)"
      for parts args n
      by (rule collect_parts_joined [OF that]) (use 3 cond in auto)
    have "built_ok (ph t) start (Inr (''('' @ join ('' '' @ op @ '' '') parts @ '')'', args, n))"
      if "collect_parts True (\<lambda>cond next. build_condition_value t cond next) conds start = Inr (parts, args, n)"
      for parts args n
      using joined [OF that] by (intro built_ok_wrap) auto
    with joined Inr show ?thesis
      by (fastforce simp: build_logical_list_expr.simps built_ok_plain split: sum.split)
  qed
next
  case (4 t v start)
  then show ?case by (auto simp: build_condition_value.simps split: option.split)
next
  case (5 t v start)
  have "built_ok (ph t) start (Inr (''NOT ('' @ part @ '')'', args, n))"
    if "build_condition_value t v start = Inr (part, args, n)" for part args n
    using that 5 by (intro built_ok_wrap) auto
  with 5 show ?case by (auto simp: build_not_expr.simps split: sum.split)
qed

end
