(* ===== verification/Orm_Mask.thy ===== *)
theory Orm_Mask imports Orm_Where begin

text \<open>
  Package \<open>orm\<close>: the values of a where map never reach the text of the statement.
  \<open>mask_val\<close> forgets every value of a map but its shape (nil or not, booleans, the number of
  elements of lists, the keys); masking a map changes nothing in what the builders return
  but the arguments.
\<close>

section \<open>Masking\<close>

fun mask_val :: "val \<Rightarrow> val" where
  "mask_val VNil = VNil"
| "mask_val (VBool b) = VBool b"
| "mask_val (VInt i) = VInt 0"
| "mask_val (VStr s) = VStr []"
| "mask_val (VBytes b) = VBytes (map (\<lambda>_. CHR 0x00) b)"
| "mask_val (VOpaque n) = VOpaque 0"
| "mask_val (VList xs) = VList (map mask_val xs)"
| "mask_val (VMap m) = VMap (map (\<lambda>(k, v). (k, mask_val v)) m)"

definition mask_map :: "go_map \<Rightarrow> go_map" where
  "mask_map m = map (\<lambda>(k, v). (k, mask_val v)) m"

definition mask_built :: "orm_error + built \<Rightarrow> orm_error + built" where
  "mask_built r = map_sum id (\<lambda>(s, args, n). (s, map mask_val args, n)) r"

definition mask_parts ::
  "orm_error + (string list \<times> val list \<times> nat) \<Rightarrow> orm_error + (string list \<times> val list \<times> nat)" where
  "mask_parts r = map_sum id (\<lambda>(ss, args, n). (ss, map mask_val args, n)) r"

lemma mask_built_simps [simp]:
  "mask_built (Inl e) = Inl e"
  "mask_built (Inr (s, args, n)) = Inr (s, map mask_val args, n)"
  by (simp_all add: mask_built_def)

lemma mask_parts_simps [simp]:
  "mask_parts (Inl e) = Inl e"
  "mask_parts (Inr (ss, args, n)) = Inr (ss, map mask_val args, n)"
  by (simp_all add: mask_parts_def)

lemma mask_built_Inl_iff [simp]: "mask_built r = Inl e \<longleftrightarrow> r = Inl e"
  by (cases r) auto

lemma mask_map_simps [simp]:
  "mask_map [] = []"
  "mask_map (kv # m) = (fst kv, mask_val (snd kv)) # mask_map m"
  by (simp_all add: mask_map_def split: prod.split)

lemma mask_map_eq_Nil [simp]: "mask_map m = [] \<longleftrightarrow> m = []"
  by (simp add: mask_map_def)

lemma mask_eq_VNil [simp]: "mask_val v = VNil \<longleftrightarrow> v = VNil"
  by (cases v) auto

lemma as_where_map_mask: "as_where_map (mask_val v) = map_option mask_map (as_where_map v)"
  by (cases v) (simp_all add: mask_map_def)

lemma to_any_slice_mask:
  "map_option (map mask_val) (to_any_slice (mask_val v)) = map_option (map mask_val \<circ> map mask_val) (to_any_slice v)"
  by (cases v) (simp_all)

lemma mask_idem [simp]: "mask_val (mask_val v) = mask_val v"
  by (induction v rule: mask_val.induct) auto

lemma insort_key_mask:
  "insort_key fst (k, mask_val v) (mask_map m) = mask_map (insort_key fst (k, v) m)"
  by (induction m) auto

lemma sort_key_mask: "sort_key fst (mask_map m) = mask_map (sort_key fst m)"
  by (induction m) (auto simp: insort_key_mask)

lemma contains_any_operator_key_mask [simp]:
  "contains_any_operator_key (mask_map m) = contains_any_operator_key m"
proof -
  have keys: "fst ` set (mask_map m) = fst ` set m"
    by (force simp: mask_map_def)
  have "contains_any_operator_key ops \<longleftrightarrow> (\<exists>key\<in>fst ` set ops. to_lower (trim_space key) \<in> set operator_keys)"
    for ops
    by (force simp: contains_any_operator_key_def)
  then show ?thesis by (simp only: keys)
qed

text \<open>The loop: if each clause behaves alike on masked input, so does the pass over all.\<close>

lemma collect_parts_mask:
  assumes "\<And>x n. x \<in> set xs \<Longrightarrow> mask_built (g (h x) n) = mask_built (f x n)"
  shows "mask_parts (collect_parts skip g (map h xs) start) = mask_parts (collect_parts skip f xs start)"
  using assms
proof (induction xs arbitrary: start)
  case Nil
  then show ?case by simp
next
  case (Cons x xs)
  have x: "mask_built (g (h x) start) = mask_built (f x start)"
    using Cons.prems by simp
  show ?case
  proof (cases "f x start")
    case (Inl e)
    with x have "g (h x) start = Inl e" by simp
    with Inl show ?thesis by simp
  next
    case (Inr r)
    then obtain s args n where f: "f x start = Inr (s, args, n)" by (cases r) auto
    with x obtain args' where g: "g (h x) start = Inr (s, args', n)" "map mask_val args' = map mask_val args"
      by (cases "g (h x) start") auto
    have IH: "mask_parts (collect_parts skip g (map h xs) n) = mask_parts (collect_parts skip f xs n)"
      using Cons by simp
    show ?thesis
      using IH f g
      by (cases "collect_parts skip g (map h xs) n"; cases "collect_parts skip f xs n")
        (auto split: prod.splits)
  qed
qed

text \<open>What follows a loop: the same function of the texts, with the arguments kept.\<close>

lemma mask_parts_continue:
  assumes "mask_parts r = mask_parts r'"
  shows "mask_built (case r of Inl e \<Rightarrow> Inl e | Inr (parts, args, n) \<Rightarrow>
            if parts = [] then Inr ([], args, n) else Inr (F parts, args, n)) =
         mask_built (case r' of Inl e \<Rightarrow> Inl e | Inr (parts, args, n) \<Rightarrow>
            if parts = [] then Inr ([], args, n) else Inr (F parts, args, n))"
  using assms by (cases r; cases r') (auto split: prod.splits)

lemma mask_built_continue:
  assumes "mask_built r = mask_built r'"
  shows "mask_built (case r of Inl e \<Rightarrow> Inl e | Inr (part, args, n) \<Rightarrow> Inr (F part, args, n)) =
         mask_built (case r' of Inl e \<Rightarrow> Inl e | Inr (part, args, n) \<Rightarrow> Inr (F part, args, n))"
  using assms by (cases r; cases r') (auto split: prod.splits)

lemma mask_built_continue_skip:
  assumes "mask_built r = mask_built r'"
  shows "mask_built (case r of Inl e \<Rightarrow> Inl e | Inr (part, args, n) \<Rightarrow>
            if part = [] then Inr ([], args, n) else Inr (F part, args, n)) =
         mask_built (case r' of Inl e \<Rightarrow> Inl e | Inr (part, args, n) \<Rightarrow>
            if part = [] then Inr ([], args, n) else Inr (F part, args, n))"
  using assms by (cases r; cases r') (auto split: prod.splits)

section \<open>The builders\<close>

lemma build_equals_expr_mask:
  "mask_built (build_equals_expr t c (mask_val v) n) = mask_built (build_equals_expr t c v n)"
  by (simp add: build_equals_expr_def)

lemma build_in_expr_mask:
  "mask_built (build_in_expr t c (mask_val v) neg n) = mask_built (build_in_expr t c v neg n)"
  by (cases v) (simp_all add: build_in_expr_def Let_def)

lemma build_compare_expr_mask:
  "mask_built (build_compare_expr t c op (mask_val v) n) = mask_built (build_compare_expr t c op v n)"
  by (simp add: build_compare_expr_def)

lemma build_string_expr_mask:
  "mask_built (build_string_expr t c op (mask_val v) n) = mask_built (build_string_expr t c op v n)"
  by (cases v) (simp_all add: build_string_expr_def Let_def)

lemma flag_exprs_mask:
  "build_is_set_expr c (mask_val v) = build_is_set_expr c v"
  "build_is_empty_expr c (mask_val v) = build_is_empty_expr c v"
  by (cases v; simp add: build_is_set_expr_def build_is_empty_expr_def)+

lemma operator_exprs_mask:
  "mask_built (build_operator_expr t c (mask_map ops) start) = mask_built (build_operator_expr t c ops start)"
  "mask_built (operator_clause t c key (mask_val v) next) = mask_built (operator_clause t c key v next)"
  "mask_built (build_not_field_expr t c (mask_val v) start) = mask_built (build_not_field_expr t c v start)"
proof (induction t c ops start and t c key v "next" and t c v start
    rule: build_operator_expr_operator_clause_build_not_field_expr.induct)
  case (1 t column ops start)
  let ?f = "\<lambda>(key, v) next. operator_clause t column key v next"
  have "mask_parts (collect_parts False ?f (map (\<lambda>(k, v). (k, mask_val v)) (sort_key fst ops)) start) =
      mask_parts (collect_parts False ?f (sort_key fst ops) start)"
  proof (rule collect_parts_mask)
    fix x n assume "x \<in> set (sort_key fst ops)"
    with 1 show "mask_built (?f (case x of (k, v) \<Rightarrow> (k, mask_val v)) n) = mask_built (?f x n)"
      by (cases x) simp
  qed
  then show ?case
    unfolding build_operator_expr.simps sort_key_mask
    by (intro mask_parts_continue) (simp add: mask_map_def)
next
  case (2 t column key v "next")
  then show ?case
    unfolding operator_clause.simps [of t column key "mask_val v"] operator_clause.simps [of t column key v] Let_def
    by (simp add: flag_exprs_mask build_equals_expr_mask build_in_expr_mask build_compare_expr_mask
        build_string_expr_mask)
next
  case (3 t column v start)
  then show ?case
    unfolding build_not_field_expr.simps [of t column "mask_val v"] build_not_field_expr.simps [of t column v]
    by (auto simp: as_where_map_mask intro: mask_built_continue split: option.split)
qed

lemma build_field_expr_mask:
  "mask_built (build_field_expr t c (mask_val v) n) = mask_built (build_field_expr t c v n)"
  by (auto simp: build_field_expr_def as_where_map_mask operator_exprs_mask(1) split: sum.split option.split)

lemma where_builders_mask:
  "mask_built (build_map_expr t (mask_map m) start) = mask_built (build_map_expr t m start)"
  "mask_built (clause_expr t key (mask_val raw) next) = mask_built (clause_expr t key raw next)"
  "mask_built (build_logical_list_expr t op (mask_val v) start) = mask_built (build_logical_list_expr t op v start)"
  "mask_built (build_condition_value t (mask_val v) start) = mask_built (build_condition_value t v start)"
  "mask_built (build_not_expr t (mask_val v) start) = mask_built (build_not_expr t v start)"
proof (induction t m start and t key raw "next" and t op v start and t v start and t v start
    rule: build_map_expr_clause_expr_build_logical_list_expr_build_condition_value_build_not_expr.induct)
  case (1 t m start)
  let ?f = "\<lambda>(key, raw) next. clause_expr t key raw next"
  have "mask_parts (collect_parts True ?f (map (\<lambda>(k, v). (k, mask_val v)) (sort_key fst m)) start) =
      mask_parts (collect_parts True ?f (sort_key fst m) start)"
  proof (rule collect_parts_mask)
    fix x n assume "x \<in> set (sort_key fst m)"
    with 1 show "mask_built (?f (case x of (k, v) \<Rightarrow> (k, mask_val v)) n) = mask_built (?f x n)"
      by (cases x) simp
  qed
  then show ?case
    unfolding build_map_expr.simps sort_key_mask
    by (intro mask_parts_continue) (simp add: mask_map_def)
next
  case (2 t key raw "next")
  show ?case
    unfolding clause_expr.simps [of t key "mask_val raw"] clause_expr.simps [of t key raw] Let_def
    using "2.IH" [OF refl] by (simp add: build_field_expr_mask)
next
  case (3 t op v start)
  let ?f = "\<lambda>cond next. build_condition_value t cond next"
  have list: "as_condition_list (mask_val v) = map_sum id (map mask_val) (as_condition_list v)"
    by (cases v) (simp_all add: as_condition_list_def)
  show ?case
  proof (cases "as_condition_list v")
    case (Inl e)
    with list show ?thesis by (simp add: build_logical_list_expr.simps)
  next
    case (Inr cs)
    have "mask_parts (collect_parts True ?f (map mask_val cs) start) = mask_parts (collect_parts True ?f cs start)"
    proof (rule collect_parts_mask)
      fix x n assume x: "x \<in> set cs"
      then have "cs \<noteq> []" by auto
      from "3.IH" [OF Inr this x] show "mask_built (?f (mask_val x) n) = mask_built (?f x n)" .
    qed
    from mask_parts_continue [OF this, where F = "\<lambda>parts. ''('' @ join ('' '' @ op @ '' '') parts @ '')''"]
    show ?thesis
      using Inr list by (simp add: build_logical_list_expr.simps)
  qed
next
  case (4 t v start)
  then show ?case
    unfolding build_condition_value.simps [of t "mask_val v"] build_condition_value.simps [of t v]
    by (simp add: as_where_map_mask split: option.split)
next
  case (5 t v start)
  then show ?case
    unfolding build_not_expr.simps [of t "mask_val v"] build_not_expr.simps [of t v]
    by (intro mask_built_continue_skip) simp
qed

lemma where_clause_mask:
  "map_sum id (apsnd (map mask_val)) (where_clause t (mask_map m) start) =
   map_sum id (apsnd (map mask_val)) (where_clause t m start)"
  using where_builders_mask(1) [of t m start]
  by (cases "build_map_expr t (mask_map m) start"; cases "build_map_expr t m start")
    (auto simp: where_clause_def split: prod.splits)

end
