(* ===== verification/Orm_Query.thy ===== *)
theory Orm_Query imports Orm_Mask begin

text \<open>
  Package \<open>orm\<close>, table.go: the statements. \<open>selectColumns\<close>, \<open>normalizedValues\<close>,
  \<open>buildReturningClause\<close>, \<open>insertQuery\<close>, \<open>updateQuery\<close>, \<open>selectQuery\<close>, and the statement
  \<open>Delete\<close> builds.
\<close>

section \<open>Column lists\<close>

text \<open>\<open>None\<close> is the star, which ends the loop at once.\<close>

fun select_columns_loop :: "string list \<Rightarrow> orm_error + string list option" where
  "select_columns_loop [] = Inr (Some [])"
| "select_columns_loop (c # cs) =
     (let col = trim_space c in
      if col = ''*'' then Inr None
      else
        (case valid_identifier col ''column'' of
           Inl e \<Rightarrow> Inl e
         | Inr v \<Rightarrow>
             (case select_columns_loop cs of
                Inl e \<Rightarrow> Inl e
              | Inr None \<Rightarrow> Inr None
              | Inr (Some vs) \<Rightarrow> Inr (Some (v # vs)))))"

definition select_columns :: "string list \<Rightarrow> orm_error + string" where
  "select_columns columns =
     (if columns = [] then Inr ''*''
      else
        (case select_columns_loop columns of
           Inl e \<Rightarrow> Inl e
         | Inr None \<Rightarrow> Inr ''*''
         | Inr (Some vs) \<Rightarrow> Inr (join '', '' vs)))"

definition build_returning_clause :: "string list \<Rightarrow> orm_error + string" where
  "build_returning_clause columns =
     (case select_columns columns of
        Inl e \<Rightarrow> Inl e
      | Inr cols \<Rightarrow> Inr ('' RETURNING '' @ cols))"

definition has_star :: "string list \<Rightarrow> bool" where
  "has_star columns \<longleftrightarrow> (\<exists>col\<in>set columns. trim_space col = ''*'')"

fun normalized_values_loop :: "go_map \<Rightarrow> orm_error + (string list \<times> val list)" where
  "normalized_values_loop [] = Inr ([], [])"
| "normalized_values_loop ((col, v) # rest) =
     (case valid_identifier col ''column'' of
        Inl e \<Rightarrow> Inl e
      | Inr c \<Rightarrow>
          (case normalized_values_loop rest of
             Inl e \<Rightarrow> Inl e
           | Inr (cs, args) \<Rightarrow> Inr (c # cs, v # args)))"

definition normalized_values :: "go_map \<Rightarrow> string \<Rightarrow> orm_error + (string list \<times> val list)" where
  "normalized_values values label =
     (if values = [] then Inl (ErrInvalidInput (MustNotBeEmpty label))
      else normalized_values_loop (sort_key fst values))"

section \<open>Statements\<close>

definition with_returning ::
  "bool \<Rightarrow> string list \<Rightarrow> string \<Rightarrow> val list \<Rightarrow> orm_error + (string \<times> val list)" where
  "with_returning want returning query args =
     (if want then
        (case build_returning_clause returning of
           Inl e \<Rightarrow> Inl e
         | Inr clause \<Rightarrow> Inr (query @ clause, args))
      else Inr (query, args))"

definition insert_text :: "table \<Rightarrow> string \<Rightarrow> string list \<Rightarrow> string" where
  "insert_text t tbl cols =
     (let holders = map (\<lambda>i. ph t (i + 1)) [0..<length cols]
      in ''INSERT INTO '' @ tbl @ '' ('' @ join '', '' cols @ '') VALUES ('' @ join '', '' holders @ '')'')"

definition insert_query ::
  "table \<Rightarrow> go_map \<Rightarrow> string list \<Rightarrow> bool \<Rightarrow> orm_error + (string \<times> val list)" where
  "insert_query t values returning want =
     (case valid_identifier (tbl_name t) ''table'' of
        Inl e \<Rightarrow> Inl e
      | Inr tbl \<Rightarrow>
          (case normalized_values values ''values'' of
             Inl e \<Rightarrow> Inl e
           | Inr (cols, args) \<Rightarrow> with_returning want returning (insert_text t tbl cols) args))"

definition set_parts :: "table \<Rightarrow> string list \<Rightarrow> string list" where
  "set_parts t cols = map (\<lambda>(i, col). col @ '' = '' @ ph t (i + 1)) (enumerate 0 cols)"

definition update_text :: "table \<Rightarrow> string \<Rightarrow> string list \<Rightarrow> string \<Rightarrow> string" where
  "update_text t tbl cols where_sql =
     ''UPDATE '' @ tbl @ '' SET '' @ join '', '' (set_parts t cols) @ where_sql"

definition update_query ::
  "table \<Rightarrow> go_map \<Rightarrow> go_map \<Rightarrow> string list \<Rightarrow> bool \<Rightarrow> orm_error + (string \<times> val list)" where
  "update_query t m patch returning want =
     (case valid_identifier (tbl_name t) ''table'' of
        Inl e \<Rightarrow> Inl e
      | Inr tbl \<Rightarrow>
          if m = [] then Inl (ErrInvalidInput (WhereRequired ''update''))
          else
            (case normalized_values patch ''patch'' of
               Inl e \<Rightarrow> Inl e
             | Inr (set_cols, set_args) \<Rightarrow>
                 (case where_clause t m (length set_args) of
                    Inl e \<Rightarrow> Inl e
                  | Inr (where_sql, where_args) \<Rightarrow>
                      with_returning want returning
                        (update_text t tbl set_cols where_sql) (set_args @ where_args))))"

record find_options =
  fo_columns :: "string list"
  fo_where :: go_map
  fo_order_by :: "(string \<times> bool) list"
  fo_limit :: int
  fo_offset :: int

fun order_parts :: "(string \<times> bool) list \<Rightarrow> orm_error + string list" where
  "order_parts [] = Inr []"
| "order_parts ((column, desc) # rest) =
     (case valid_identifier column ''order column'' of
        Inl e \<Rightarrow> Inl e
      | Inr col \<Rightarrow>
          (case order_parts rest of
             Inl e \<Rightarrow> Inl e
           | Inr parts \<Rightarrow> Inr ((if desc then col @ '' DESC'' else col @ '' ASC'') # parts)))"

definition select_text :: "string \<Rightarrow> string \<Rightarrow> string \<Rightarrow> string list \<Rightarrow> string" where
  "select_text columns tbl where_sql order =
     (let query = ''SELECT '' @ columns @ '' FROM '' @ tbl @ where_sql
      in if order \<noteq> [] then query @ '' ORDER BY '' @ join '', '' order else query)"

text \<open>The \<open>LIMIT\<close> and \<open>OFFSET\<close> clauses: a keyword, a placeholder and an argument each.\<close>

definition add_bound :: "table \<Rightarrow> string \<Rightarrow> int \<Rightarrow> string \<times> val list \<Rightarrow> string \<times> val list" where
  "add_bound t keyword n qa =
     (case qa of (query, args) \<Rightarrow>
        if n > 0 then (query @ keyword @ ph t (length args + 1), args @ [VInt n]) else (query, args))"

definition select_query :: "table \<Rightarrow> find_options \<Rightarrow> orm_error + (string \<times> val list)" where
  "select_query t opts =
     (case valid_identifier (tbl_name t) ''table'' of
        Inl e \<Rightarrow> Inl e
      | Inr tbl \<Rightarrow>
     (case select_columns (fo_columns opts) of
        Inl e \<Rightarrow> Inl e
      | Inr columns \<Rightarrow>
     (case where_clause t (fo_where opts) 0 of
        Inl e \<Rightarrow> Inl e
      | Inr (where_sql, args) \<Rightarrow>
     (case order_parts (fo_order_by opts) of
        Inl e \<Rightarrow> Inl e
      | Inr parts \<Rightarrow>
          Inr (add_bound t '' OFFSET '' (fo_offset opts)
                (add_bound t '' LIMIT '' (fo_limit opts)
                  (select_text columns tbl where_sql parts, args)))))))"

text \<open>The checks of \<open>Delete\<close> and its statement, up to the call of the database.\<close>

definition delete_query :: "table \<Rightarrow> go_map \<Rightarrow> orm_error + (string \<times> val list)" where
  "delete_query t m =
     (if m = [] then Inl (ErrInvalidInput (WhereRequired ''delete''))
      else
        (case valid_identifier (tbl_name t) ''table'' of
           Inl e \<Rightarrow> Inl e
         | Inr tbl \<Rightarrow>
             (case where_clause t m 0 of
                Inl e \<Rightarrow> Inl e
              | Inr (where_sql, where_args) \<Rightarrow> Inr (''DELETE FROM '' @ tbl @ where_sql, where_args))))"

section \<open>Placeholders and arguments of the statements\<close>

lemma where_clause_ok:
  assumes "where_clause t m start = Inr (s, args)"
  shows "marked (ph t) start (start + length args) s" "breaks s" "s = [] \<longrightarrow> args = []"
proof -
  have "built_ok (ph t) start (build_map_expr t m start)"
    by (rule where_builders_ok)
  with assms show "marked (ph t) start (start + length args) s" "breaks s" "s = [] \<longrightarrow> args = []"
    using marked_prefix [of "ph t" start _ _ "'' WHERE ''"]
    by (auto simp: where_clause_def built_ok_def marked_plain split: if_splits sum.splits prod.splits)
qed

lemma select_columns_loop_idents:
  "select_columns_loop cs = Inr (Some vs) \<Longrightarrow> v \<in> set vs \<Longrightarrow> ident_match v"
  by (induction cs arbitrary: vs)
    (auto simp: Let_def dest: valid_identifierD split: if_splits sum.splits option.splits)

lemma select_columns_plain: "select_columns cs = Inr s \<Longrightarrow> plain s"
  by (auto simp: select_columns_def split: if_splits sum.splits option.splits
      intro!: plain_join dest: ident_match_plain select_columns_loop_idents)

lemma with_returning_ok:
  assumes "with_returning want ret q args = Inr (q', args')" "marked (ph t) 0 (length args) q"
  shows "marked (ph t) 0 (length args') q'"
  using assms
  by (auto simp: with_returning_def build_returning_clause_def
      intro!: marked_suffix dest: select_columns_plain split: if_splits sum.splits)

lemma normalized_values_loop_ok:
  "normalized_values_loop m = Inr (cs, args) \<Longrightarrow>
   list_all ident_match cs \<and> length cs = length args \<and> args = map snd m"
  by (induction m arbitrary: cs args rule: normalized_values_loop.induct)
    (auto dest: valid_identifierD split: sum.splits prod.splits)

lemma normalized_values_ok:
  "normalized_values m label = Inr (cs, args) \<Longrightarrow>
   list_all ident_match cs \<and> length cs = length args \<and> args = map snd (sort_key fst m) \<and> m \<noteq> []"
  by (auto simp: normalized_values_def dest: normalized_values_loop_ok split: if_splits)

lemma marked_list_assignments:
  "list_all ident_match cols \<Longrightarrow>
   marked_list hole k (k + length cols) (map (\<lambda>(i, col). col @ '' = '' @ hole (i + 1)) (enumerate k cols))"
proof (induction cols arbitrary: k)
  case Nil
  then show ?case by simp
next
  case (Cons c cols)
  have "marked hole k (Suc k) ((c @ '' = '') @ hole (Suc k) @ [])"
    using Cons.prems by (intro marked_one) (auto dest: ident_match_plain)
  with Cons show ?case by (auto simp: Cons.IH [of "Suc k", simplified])
qed

lemma insert_text_marked:
  assumes "ident_match tbl" "list_all ident_match cols"
  shows "marked (ph t) 0 (length cols) (insert_text t tbl cols)"
proof -
  have "marked (ph t) 0 (length cols) (join '', '' (map (\<lambda>i. ph t (i + 1)) [0..<length cols]))"
    using marked_list_holes [of "ph t" 0 "length cols"] by (intro marked_list_join) auto
  moreover have "plain (join '', '' cols)"
    using assms by (intro plain_join) (auto simp: list_all_iff dest: ident_match_plain)
  ultimately have "marked (ph t) 0 (length cols)
      ((''INSERT INTO '' @ tbl @ '' ('' @ join '', '' cols @ '') VALUES ('')
        @ join '', '' (map (\<lambda>i. ph t (i + 1)) [0..<length cols]) @ '')'')"
    using assms by (intro marked_prefix marked_suffix) (auto dest: ident_match_plain)
  then show ?thesis by (simp add: insert_text_def Let_def)
qed

lemma update_text_marked:
  assumes "ident_match tbl" "list_all ident_match cols"
    and "marked (ph t) (length cols) n ws" "breaks ws"
  shows "marked (ph t) 0 n (update_text t tbl cols ws)"
proof -
  have "marked (ph t) 0 (length cols) (join '', '' (set_parts t cols))"
    using marked_list_assignments [of cols "ph t" 0] assms
    by (intro marked_list_join) (auto simp: set_parts_def)
  then have "marked (ph t) 0 n ((''UPDATE '' @ tbl @ '' SET '') @ join '', '' (set_parts t cols) @ ws)"
    using assms by (intro marked_prefix marked_append) (auto dest: ident_match_plain)
  then show ?thesis by (simp add: update_text_def)
qed

lemma order_parts_plain: "order_parts os = Inr ps \<Longrightarrow> p \<in> set ps \<Longrightarrow> plain p"
  by (induction os arbitrary: ps rule: order_parts.induct)
    (auto simp: ident_match_plain dest!: valid_identifierD split: sum.splits if_splits)

lemma select_text_marked:
  assumes "plain columns" "ident_match tbl" "marked (ph t) 0 n ws" "\<forall>p\<in>set parts. plain p"
  shows "marked (ph t) 0 n (select_text columns tbl ws parts)"
proof -
  have "marked (ph t) 0 n ((''SELECT '' @ columns @ '' FROM '' @ tbl) @ ws)"
    using assms by (intro marked_prefix) (auto dest: ident_match_plain)
  moreover from this have "marked (ph t) 0 n (((''SELECT '' @ columns @ '' FROM '' @ tbl) @ ws)
      @ '' ORDER BY '' @ join '', '' parts)"
    by (rule marked_suffix) (use assms in \<open>auto intro!: plain_join\<close>)
  ultimately show ?thesis by (simp add: select_text_def Let_def)
qed

lemma add_bound_marked:
  assumes "marked (ph t) 0 (length args) q" "plain keyword" "breaks keyword"
    and "add_bound t keyword n (q, args) = (q', args')"
  shows "marked (ph t) 0 (length args') q'"
proof -
  have "marked (ph t) 0 (Suc (length args)) ((q @ keyword) @ ph t (Suc (length args)) @ [])"
    using assms by (intro marked_hole marked_suffix) auto
  with assms show ?thesis by (auto simp: add_bound_def split: if_splits)
qed

text \<open>The statements, each from its parts.\<close>

lemma insert_queryE:
  assumes "insert_query t values ret want = Inr (q, args)"
  obtains tbl cols vals where "valid_identifier (tbl_name t) ''table'' = Inr tbl"
    "normalized_values values ''values'' = Inr (cols, vals)"
    "with_returning want ret (insert_text t tbl cols) vals = Inr (q, args)"
  using assms by (auto simp: insert_query_def split: sum.splits)

lemma update_queryE:
  assumes "update_query t m patch ret want = Inr (q, args)"
  obtains tbl cols vals ws wargs where "valid_identifier (tbl_name t) ''table'' = Inr tbl" "m \<noteq> []"
    "normalized_values patch ''patch'' = Inr (cols, vals)" "where_clause t m (length vals) = Inr (ws, wargs)"
    "with_returning want ret (update_text t tbl cols ws) (vals @ wargs) = Inr (q, args)"
  using assms by (auto simp: update_query_def split: sum.splits if_splits)

lemma select_queryE:
  assumes "select_query t opts = Inr (q, args)"
  obtains tbl columns ws wargs parts where "valid_identifier (tbl_name t) ''table'' = Inr tbl"
    "select_columns (fo_columns opts) = Inr columns" "where_clause t (fo_where opts) 0 = Inr (ws, wargs)"
    "order_parts (fo_order_by opts) = Inr parts"
    "add_bound t '' OFFSET '' (fo_offset opts)
       (add_bound t '' LIMIT '' (fo_limit opts) (select_text columns tbl ws parts, wargs)) = (q, args)"
  using assms by (auto simp: select_query_def split: sum.splits)

lemma delete_queryE:
  assumes "delete_query t m = Inr (q, args)"
  obtains tbl ws where "valid_identifier (tbl_name t) ''table'' = Inr tbl" "m \<noteq> []"
    "where_clause t m 0 = Inr (ws, args)" "q = ''DELETE FROM '' @ tbl @ ws"
  using assms by (auto simp: delete_query_def split: sum.splits if_splits)

lemma insert_query_marked:
  "insert_query t values ret want = Inr (q, args) \<Longrightarrow> marked (ph t) 0 (length args) q"
  by (elim insert_queryE)
    (metis insert_text_marked normalized_values_ok valid_identifierD with_returning_ok)

lemma update_query_marked:
  assumes "update_query t m patch ret want = Inr (q, args)"
  shows "marked (ph t) 0 (length args) q"
  using assms
proof (rule update_queryE)
  fix tbl cols vals ws wargs
  assume "valid_identifier (tbl_name t) ''table'' = Inr tbl" "normalized_values patch ''patch'' = Inr (cols, vals)"
    and w: "where_clause t m (length vals) = Inr (ws, wargs)"
    and ret: "with_returning want ret (update_text t tbl cols ws) (vals @ wargs) = Inr (q, args)"
  then have "marked (ph t) 0 (length vals + length wargs) (update_text t tbl cols ws)"
    using where_clause_ok [OF w]
    by (intro update_text_marked) (auto dest!: valid_identifierD normalized_values_ok)
  with ret show ?thesis by (auto intro: with_returning_ok)
qed

lemma select_query_marked:
  assumes "select_query t opts = Inr (q, args)"
  shows "marked (ph t) 0 (length args) q"
  using assms
proof (rule select_queryE)
  fix tbl columns ws wargs parts
  assume parts: "valid_identifier (tbl_name t) ''table'' = Inr tbl"
      "select_columns (fo_columns opts) = Inr columns" "order_parts (fo_order_by opts) = Inr parts"
    and w: "where_clause t (fo_where opts) 0 = Inr (ws, wargs)"
    and q: "add_bound t '' OFFSET '' (fo_offset opts)
       (add_bound t '' LIMIT '' (fo_limit opts) (select_text columns tbl ws parts, wargs)) = (q, args)"
  obtain q2 args2 where q2: "add_bound t '' LIMIT '' (fo_limit opts) (select_text columns tbl ws parts, wargs) = (q2, args2)"
    by fastforce
  have "marked (ph t) 0 (length wargs) (select_text columns tbl ws parts)"
    using parts where_clause_ok [OF w]
    by (intro select_text_marked) (auto dest: valid_identifierD select_columns_plain order_parts_plain)
  then have "marked (ph t) 0 (length args2) q2"
    by (rule add_bound_marked [OF _ _ _ q2]) auto
  then show ?thesis
    by (rule add_bound_marked) (use q q2 in auto)
qed

lemma delete_query_marked:
  assumes "delete_query t m = Inr (q, args)"
  shows "marked (ph t) 0 (length args) q"
  using assms
proof (rule delete_queryE)
  fix tbl ws
  assume "valid_identifier (tbl_name t) ''table'' = Inr tbl" and w: "where_clause t m 0 = Inr (ws, args)"
    and q: "q = ''DELETE FROM '' @ tbl @ ws"
  then have "marked (ph t) 0 (length args) ((''DELETE FROM '' @ tbl) @ ws)"
    using where_clause_ok [OF w] by (intro marked_prefix) (auto dest: valid_identifierD ident_match_plain)
  with q show ?thesis by simp
qed

end
