(* ===== verification/Orm_Safe.thy ===== *)
theory Orm_Safe imports Orm_Query begin

text \<open>
  Package \<open>orm\<close>: the alphabet of the statements. Whatever the keys of the maps, the columns
  and the table name are, a statement consists of identifier characters, blanks, parentheses,
  commas, comparison signs, placeholders, the star and empty string literals: no semicolon,
  no comment, no quoted text.
\<close>

section \<open>Safe text\<close>

definition sql_char :: "char \<Rightarrow> bool" where
  "sql_char c \<longleftrightarrow> ident_char c \<or> c \<in> set '' (),=<>$?*''"

fun sql_safe :: "string \<Rightarrow> bool" where
  "sql_safe [] \<longleftrightarrow> True"
| "sql_safe [c] \<longleftrightarrow> sql_char c"
| "sql_safe (c # d # s) \<longleftrightarrow> (c = CHR 0x27 \<and> d = CHR 0x27 \<and> sql_safe s) \<or> (sql_char c \<and> sql_safe (d # s))"

definition built_safe :: "orm_error + built \<Rightarrow> bool" where
  "built_safe r \<longleftrightarrow> (case r of Inl e \<Rightarrow> True | Inr (s, args, n) \<Rightarrow> sql_safe s)"

lemma built_safe_simps [simp]:
  "built_safe (Inl e)"
  "built_safe (Inr (s, args, n)) \<longleftrightarrow> sql_safe s"
  by (simp_all add: built_safe_def)

lemma built_safe_iff: "built_safe r \<longleftrightarrow> (\<forall>s args n. r = Inr (s, args, n) \<longrightarrow> sql_safe s)"
  by (cases r) auto

lemma sql_char_simps [simp]:
  "sql_char (CHR '' '')" "sql_char (CHR ''('')" "sql_char (CHR '')'')" "sql_char (CHR '','')"
  "sql_char (CHR ''='')" "sql_char (CHR ''<'')" "sql_char (CHR ''>'')" "sql_char (CHR ''$'')"
  "sql_char (CHR ''?'')" "sql_char (CHR ''*'')" "sql_char (CHR ''_'')" "is_digit c \<Longrightarrow> sql_char c"
  by (simp_all add: sql_char_def ident_char_def ident_start_def)

lemma sql_char_letter: "65 \<le> (of_char c :: nat) \<Longrightarrow> (of_char c :: nat) \<le> 90 \<Longrightarrow> sql_char c"
  by (simp add: sql_char_def ident_char_nat ident_start_nat)

lemma sql_char_upper [simp]:
  "sql_char (CHR ''A'')" "sql_char (CHR ''B'')" "sql_char (CHR ''C'')" "sql_char (CHR ''D'')"
  "sql_char (CHR ''E'')" "sql_char (CHR ''F'')" "sql_char (CHR ''G'')" "sql_char (CHR ''H'')"
  "sql_char (CHR ''I'')" "sql_char (CHR ''K'')" "sql_char (CHR ''L'')" "sql_char (CHR ''M'')"
  "sql_char (CHR ''N'')" "sql_char (CHR ''O'')" "sql_char (CHR ''P'')" "sql_char (CHR ''R'')"
  "sql_char (CHR ''S'')" "sql_char (CHR ''T'')" "sql_char (CHR ''U'')" "sql_char (CHR ''V'')"
  "sql_char (CHR ''W'')" "sql_char (CHR ''Y'')" "sql_char (CHR ''X'')" "sql_char (CHR ''Q'')"
  by (rule sql_char_letter; simp)+

lemma sql_safe_Cons [simp]: "sql_char c \<Longrightarrow> sql_safe s \<Longrightarrow> sql_safe (c # s)"
  by (cases s) auto

lemma sql_safe_append [simp]: "sql_safe s \<Longrightarrow> sql_safe t \<Longrightarrow> sql_safe (s @ t)"
  by (induction s rule: sql_safe.induct) auto

lemma sql_safe_chars: "(\<And>c. c \<in> set s \<Longrightarrow> sql_char c) \<Longrightarrow> sql_safe s"
  by (induction s) auto

lemma sql_safe_ident: "ident_match s \<Longrightarrow> sql_safe s"
  by (rule sql_safe_chars) (simp add: sql_char_def ident_match_chars)

lemma sql_safe_show_nat [simp]: "sql_safe (show_nat n)"
  by (rule sql_safe_chars) (auto dest: show_nat_digits)

lemma sql_safe_ph [simp]: "sql_safe (ph t n)"
  by (simp add: ph_def)

lemma sql_safe_join: "sql_safe sep \<Longrightarrow> (\<And>p. p \<in> set ps \<Longrightarrow> sql_safe p) \<Longrightarrow> sql_safe (join sep ps)"
  by (induction ps) (auto simp: join_Cons)

lemma sql_safe_compare [simp]: "sql_safe (compare_symbol op)"
  by (simp add: compare_symbol_def)

text \<open>What such a text cannot contain.\<close>

lemma sql_safe_set: "sql_safe s \<Longrightarrow> c \<in> set s \<Longrightarrow> sql_char c \<or> c = CHR 0x27"
  by (induction s rule: sql_safe.induct) auto

lemma sql_safe_free: "sql_safe s \<Longrightarrow> c \<in> set '';-/#@[]{}:&|!+%~^'' \<Longrightarrow> c \<notin> set s"
  using sql_safe_set [of s c] by (auto simp: sql_char_def ident_char_nat ident_start_nat)

lemma sql_safe_quotes [simp]: "sql_safe s \<Longrightarrow> sql_safe (CHR 0x27 # CHR 0x27 # s)"
  by simp

declare sql_safe.simps(3) [simp del]

section \<open>The builders\<close>

lemma collect_parts_safe:
  "collect_parts skip f xs start = Inr (parts, args, n) \<Longrightarrow>
   (\<And>x k. x \<in> set xs \<Longrightarrow> built_safe (f x k)) \<Longrightarrow> p \<in> set parts \<Longrightarrow> sql_safe p"
proof (induction xs arbitrary: start parts args n)
  case Nil
  then show ?case by simp
next
  case (Cons x xs)
  then obtain s out k parts' args' where
    x: "f x start = Inr (s, out, k)" and
    rest: "collect_parts skip f xs k = Inr (parts', args', n)" and
    parts: "parts = (if skip \<and> s = [] then parts' else s # parts')"
    by (auto split: sum.splits prod.splits if_splits)
  have "sql_safe s" using Cons.prems(2) [of x start] x by simp
  with Cons.IH [OF rest] Cons.prems parts show ?case by (auto split: if_splits)
qed

lemma operator_leaves_safe:
  assumes "sql_safe c"
  shows "built_safe (build_equals_expr t c v n)" "built_safe (build_in_expr t c v negate n)"
    "built_safe (build_compare_expr t c op v n)" "built_safe (build_string_expr t c op v n)"
    "build_is_set_expr c v = Inr s \<Longrightarrow> sql_safe s" "build_is_empty_expr c v = Inr s \<Longrightarrow> sql_safe s"
proof -
  have holders: "sql_safe (join '', '' (map (\<lambda>k. ph t (Suc k)) ks))" for ks
    by (rule sql_safe_join) auto
  show "built_safe (build_in_expr t c v negate n)"
    using assms holders by (simp add: build_in_expr_def split: option.split)
qed (use assms in \<open>auto simp: build_equals_expr_def build_compare_expr_def build_string_expr_def
      build_is_set_expr_def build_is_empty_expr_def Let_def split: val.splits if_splits\<close>)

lemma flag_clause_safe:
  "(\<And>s. e = Inr s \<Longrightarrow> sql_safe s) \<Longrightarrow>
   built_safe (case e of Inl err \<Rightarrow> Inl err | Inr part \<Rightarrow> Inr (part, [], n))"
  by (cases e) auto

lemma operator_exprs_safe:
  "sql_safe c \<Longrightarrow> built_safe (build_operator_expr t c ops start)"
  "sql_safe c \<Longrightarrow> built_safe (operator_clause t c key v next)"
  "sql_safe c \<Longrightarrow> built_safe (build_not_field_expr t c v start)"
proof (induction t c ops start and t c key v "next" and t c v start
    rule: build_operator_expr_operator_clause_build_not_field_expr.induct)
  case (1 t c ops start)
  let ?f = "\<lambda>(key, v) next. operator_clause t c key v next"
  have "built_safe (?f x k)" if "x \<in> set (sort_key fst ops)" for x k
  proof (cases x)
    case (Pair key w)
    with 1 that show ?thesis by simp
  qed
  then have "sql_safe (join '' AND '' parts)"
    if "collect_parts False ?f (sort_key fst ops) start = Inr (parts, args, n)" for parts args n
    using collect_parts_safe [OF that] by (intro sql_safe_join) auto
  then show ?case
    by (auto simp: build_operator_expr.simps split: sum.split)
next
  case (2 t c key v "next")
  show ?case
    unfolding operator_clause.simps Let_def
    by (intro if_cases [where P = built_safe] operator_leaves_safe [OF "2.prems"] "2.IH" "2.prems" refl
        flag_clause_safe built_safe_simps(1))
      simp_all
next
  case (3 t c v start)
  have "sql_safe (''NOT ('' @ part @ '')'')"
    if "as_where_map v = Some nested" "nested \<noteq> []"
      "build_operator_expr t c nested start = Inr (part, args, n)" for nested part args n
    using 3 that by simp
  with 3 show ?case
    by (auto simp: build_not_field_expr.simps split: option.splits sum.splits)
qed

lemma build_field_expr_safe: "built_safe (build_field_expr t c v start)"
  using operator_exprs_safe(1)
  by (auto simp: build_field_expr_def valid_identifier_label sql_safe_ident split: sum.split option.split)

lemma where_builders_safe:
  "built_safe (build_map_expr t m start)"
  "built_safe (clause_expr t key raw next)"
  "sql_safe op \<Longrightarrow> built_safe (build_logical_list_expr t op v start)"
  "built_safe (build_condition_value t v start)"
  "built_safe (build_not_expr t v start)"
proof (induction t m start and t key raw "next" and t op v start and t v start and t v start
    rule: build_map_expr_clause_expr_build_logical_list_expr_build_condition_value_build_not_expr.induct)
  case (1 t m start)
  let ?f = "\<lambda>(key, raw) next. clause_expr t key raw next"
  have "built_safe (?f x k)" if "x \<in> set (sort_key fst m)" for x k
  proof (cases x)
    case (Pair key w)
    with 1 that show ?thesis by simp
  qed
  then have "sql_safe (join '' AND '' parts)"
    if "collect_parts True ?f (sort_key fst m) start = Inr (parts, args, n)" for parts args n
    using collect_parts_safe [OF that] by (intro sql_safe_join) auto
  then show ?case by (auto simp: build_map_expr.simps split: sum.split)
next
  case (2 t key raw "next")
  then show ?case by (auto simp: clause_expr.simps Let_def build_field_expr_safe)
next
  case (3 t op v start)
  have "sql_safe (join ('' '' @ op @ '' '') parts)"
    if "as_condition_list v = Inr conds" "conds \<noteq> []"
      "collect_parts True (\<lambda>cond next. build_condition_value t cond next) conds start = Inr (parts, args, n)"
    for conds parts args n
    using collect_parts_safe [OF that(3)] 3 that by (intro sql_safe_join) auto
  then show ?case
    by (auto simp: build_logical_list_expr.simps split: sum.split)
next
  case (4 t v start)
  then show ?case by (auto simp: build_condition_value.simps split: option.split)
next
  case (5 t v start)
  then show ?case by (auto simp: build_not_expr.simps split: sum.split)
qed

section \<open>The statements\<close>

lemma where_clause_safe: "where_clause t m start = Inr (s, args) \<Longrightarrow> sql_safe s"
  using where_builders_safe(1) [of t m start]
  by (auto simp: where_clause_def split: if_splits sum.splits prod.splits)

lemma select_columns_safe: "select_columns cs = Inr s \<Longrightarrow> sql_safe s"
  by (auto simp: select_columns_def split: if_splits sum.splits option.splits
      intro!: sql_safe_join dest: sql_safe_ident select_columns_loop_idents)

lemma with_returning_safe:
  "with_returning want ret q args = Inr (q', args') \<Longrightarrow> sql_safe q \<Longrightarrow> sql_safe q'"
  by (auto simp: with_returning_def build_returning_clause_def dest!: select_columns_safe split: if_splits sum.splits)

lemma join_idents_safe: "list_all ident_match cols \<Longrightarrow> sql_safe (join '', '' cols)"
  by (rule sql_safe_join) (auto simp: list_all_iff sql_safe_ident)

lemma insert_text_safe: "ident_match tbl \<Longrightarrow> list_all ident_match cols \<Longrightarrow> sql_safe (insert_text t tbl cols)"
proof -
  assume "ident_match tbl" "list_all ident_match cols"
  moreover have "sql_safe (join '', '' (map (\<lambda>i. ph t (i + 1)) [0..<length cols]))"
    by (rule sql_safe_join) auto
  ultimately show ?thesis by (simp add: insert_text_def Let_def join_idents_safe sql_safe_ident)
qed

lemma set_parts_safe:
  assumes "list_all ident_match cols"
  shows "sql_safe (join '', '' (set_parts t cols))"
proof (rule sql_safe_join)
  fix p
  assume "p \<in> set (set_parts t cols)"
  then obtain i c where "p = c @ '' = '' @ ph t (i + 1)" "c \<in> set cols"
    by (auto simp: set_parts_def in_set_enumerate_eq)
  with assms show "sql_safe p" by (simp add: list_all_iff sql_safe_ident)
qed simp

lemma update_text_safe:
  "ident_match tbl \<Longrightarrow> list_all ident_match cols \<Longrightarrow> sql_safe ws \<Longrightarrow> sql_safe (update_text t tbl cols ws)"
  by (simp add: update_text_def set_parts_safe sql_safe_ident)

lemma order_parts_safe: "order_parts os = Inr ps \<Longrightarrow> p \<in> set ps \<Longrightarrow> sql_safe p"
  by (induction os arbitrary: ps rule: order_parts.induct)
    (auto simp: sql_safe_ident dest!: valid_identifierD split: sum.splits if_splits)

lemma select_text_safe:
  assumes "sql_safe columns" "ident_match tbl" "sql_safe ws" "order_parts os = Inr parts"
  shows "sql_safe (select_text columns tbl ws parts)"
proof -
  have "sql_safe (join '', '' parts)"
    using order_parts_safe [OF assms(4)] by (intro sql_safe_join) auto
  with assms show ?thesis by (simp add: select_text_def Let_def sql_safe_ident)
qed

lemma add_bound_safe:
  "add_bound t keyword n (q, args) = (q', args') \<Longrightarrow> sql_safe q \<Longrightarrow> sql_safe keyword \<Longrightarrow> sql_safe q'"
  by (auto simp: add_bound_def split: if_splits)

lemma insert_query_safe: "insert_query t values ret want = Inr (q, args) \<Longrightarrow> sql_safe q"
  by (elim insert_queryE)
    (metis insert_text_safe normalized_values_ok valid_identifierD with_returning_safe)

lemma update_query_safe: "update_query t m patch ret want = Inr (q, args) \<Longrightarrow> sql_safe q"
  by (elim update_queryE)
    (metis update_text_safe normalized_values_ok valid_identifierD where_clause_safe with_returning_safe)

lemma select_query_safe:
  assumes "select_query t opts = Inr (q, args)"
  shows "sql_safe q"
  using assms
proof (rule select_queryE)
  fix tbl columns ws wargs parts
  assume parts: "valid_identifier (tbl_name t) ''table'' = Inr tbl" "select_columns (fo_columns opts) = Inr columns"
      "where_clause t (fo_where opts) 0 = Inr (ws, wargs)" "order_parts (fo_order_by opts) = Inr parts"
    and q: "add_bound t '' OFFSET '' (fo_offset opts)
       (add_bound t '' LIMIT '' (fo_limit opts) (select_text columns tbl ws parts, wargs)) = (q, args)"
  obtain q2 args2 where q2: "add_bound t '' LIMIT '' (fo_limit opts) (select_text columns tbl ws parts, wargs) = (q2, args2)"
    by fastforce
  have "sql_safe q2"
    using parts by (intro add_bound_safe [OF q2] select_text_safe)
      (auto dest: select_columns_safe valid_identifierD where_clause_safe)
  with q q2 show ?thesis by (auto intro: add_bound_safe)
qed

lemma delete_query_safe: "delete_query t m = Inr (q, args) \<Longrightarrow> sql_safe q"
  by (elim delete_queryE) (auto simp: sql_safe_ident valid_identifier_label dest: where_clause_safe)

end
