(* ===== verification/Orm_Guard.thy ===== *)
theory Orm_Guard imports Orm_Query begin

text \<open>
  Package \<open>orm\<close>: which where maps say nothing. \<open>Update\<close>, \<open>Delete\<close>, \<open>Upsert\<close> and
  \<open>FindUnique\<close> refuse a map without entries; a map whose entries are all empty logical
  clauses passes that test and still adds no condition to the statement. \<open>says_nothing\<close>
  characterises those maps.
\<close>

lemma nesting_entry_less: "(k, v) \<in> set m \<Longrightarrow> nesting v < nesting (VMap m)"
  using nesting_entry [of k v m] by (simp add: map_nesting_def)

function says_nothing :: "val \<Rightarrow> bool" and says_nothing_list :: "val \<Rightarrow> bool" where
  "says_nothing v =
     (case as_where_map v of
        None \<Rightarrow> False
      | Some m \<Rightarrow>
          list_all (\<lambda>(key, w).
            let up = to_upper (trim_space key)
            in if up = ''AND'' \<or> up = ''OR'' then says_nothing_list w
               else if up = ''NOT'' then says_nothing w else False) m)"
| "says_nothing_list w =
     (case as_condition_list w of
        Inl e \<Rightarrow> False
      | Inr cs \<Rightarrow> list_all says_nothing cs)"
  by pat_completeness auto
termination
  by (relation "measures [case_sum nesting nesting, case_sum (\<lambda>_. 0) (\<lambda>_. 1)]")
    (auto dest: nesting_entry_less condition_nesting simp: le_less simp del: nesting.simps elim!: as_where_map.elims)

declare says_nothing.simps [simp del] says_nothing_list.simps [simp del]

definition empty_built :: "orm_error + built \<Rightarrow> bool" where
  "empty_built r \<longleftrightarrow> (case r of Inl e \<Rightarrow> False | Inr (s, args, n) \<Rightarrow> s = [])"

lemma empty_built_simps [simp]: "\<not> empty_built (Inl e)" "empty_built (Inr (s, args, n)) \<longleftrightarrow> s = []"
  by (simp_all add: empty_built_def)

lemma built_nonempty_not_empty: "built_nonempty r \<Longrightarrow> \<not> empty_built r"
  by (auto simp: built_nonempty_def empty_built_def split: sum.splits prod.splits)

lemma collect_parts_empty:
  assumes "\<And>x k. x \<in> set xs \<Longrightarrow> empty_built (f x k) \<longleftrightarrow> Q x"
  shows "(\<exists>args n. collect_parts True f xs start = Inr ([], args, n)) \<longleftrightarrow> list_all Q xs"
  using assms
proof (induction xs arbitrary: start)
  case Nil
  then show ?case by simp
next
  case (Cons x xs)
  have x: "empty_built (f x start) \<longleftrightarrow> Q x" using Cons.prems by simp
  have IH: "(\<exists>args n. collect_parts True f xs k = Inr ([], args, n)) \<longleftrightarrow> list_all Q xs" for k
    using Cons by simp
  show ?case
  proof (cases "f x start")
    case (Inl e)
    with x show ?thesis by simp
  next
    case (Inr r)
    then obtain s out k where r: "f x start = Inr (s, out, k)" by (cases r) auto
    show ?thesis
      using r x IH [of k]
      by (cases "collect_parts True f xs k") (auto split: prod.splits)
  qed
qed

lemma where_builders_empty:
  "empty_built (build_map_expr t m start) \<longleftrightarrow> says_nothing (VMap m)"
  "empty_built (clause_expr t key raw next) \<longleftrightarrow>
     (let up = to_upper (trim_space key)
      in if up = ''AND'' \<or> up = ''OR'' then says_nothing_list raw
         else if up = ''NOT'' then says_nothing raw else False)"
  "empty_built (build_logical_list_expr t op v start) \<longleftrightarrow> says_nothing_list v"
  "empty_built (build_condition_value t v start) \<longleftrightarrow> says_nothing v"
  "empty_built (build_not_expr t v start) \<longleftrightarrow> says_nothing v"
proof (induction t m start and t key raw "next" and t op v start and t v start and t v start
    rule: build_map_expr_clause_expr_build_logical_list_expr_build_condition_value_build_not_expr.induct)
  case (1 t m start)
  let ?f = "\<lambda>(key, raw) next. clause_expr t key raw next"
  let ?Q = "\<lambda>(key, w). let up = to_upper (trim_space key)
      in if up = ''AND'' \<or> up = ''OR'' then says_nothing_list w
         else if up = ''NOT'' then says_nothing w else False"
  let ?r = "collect_parts True ?f (sort_key fst m) start"
  have "empty_built (?f x k) \<longleftrightarrow> ?Q x" if "x \<in> set (sort_key fst m)" for x k
  proof (cases x)
    case (Pair key w)
    with 1 that show ?thesis by simp
  qed
  then have "(\<exists>args n. ?r = Inr ([], args, n)) \<longleftrightarrow> list_all ?Q (sort_key fst m)"
    by (rule collect_parts_empty)
  then have empty: "(\<exists>args n. ?r = Inr ([], args, n)) \<longleftrightarrow> says_nothing (VMap m)"
    by (simp add: says_nothing.simps [of "VMap m"] list_all_iff)
  have "join '' AND '' parts \<noteq> []" if "?r = Inr (parts, args, n)" "parts \<noteq> []" for parts args n
  proof -
    have "built_ok (ph t) k (?f x k)" for x k
      by (cases x) (simp add: where_builders_ok)
    with collect_parts_ok [OF that(1)] that(2) show ?thesis
      by (cases parts) (auto simp: join_Cons)
  qed
  then show ?case
    unfolding empty [symmetric] build_map_expr.simps [of t m start]
    by (cases ?r) (auto split: if_splits)
next
  case (2 t key raw "next")
  show ?case
    unfolding clause_expr.simps [of t key raw] Let_def
    using "2.IH" [OF refl] built_nonempty_not_empty [OF conjunct2 [OF build_field_expr_ok [of t "next" key raw]]]
    by simp
next
  case (3 t op v start)
  let ?f = "\<lambda>cond next. build_condition_value t cond next"
  show ?case
  proof (cases "as_condition_list v")
    case (Inl e)
    then show ?thesis by (simp add: build_logical_list_expr.simps says_nothing_list.simps)
  next
    case (Inr cs)
    have "empty_built (?f x k) \<longleftrightarrow> says_nothing x" if x: "x \<in> set cs" for x k
    proof -
      from x have "cs \<noteq> []" by auto
      from "3.IH" [OF Inr this x] show ?thesis .
    qed
    then have "(\<exists>args n. collect_parts True ?f cs start = Inr ([], args, n)) \<longleftrightarrow> list_all says_nothing cs"
      by (rule collect_parts_empty)
    with Inr show ?thesis
      by (cases "collect_parts True ?f cs start")
        (auto simp: build_logical_list_expr.simps says_nothing_list.simps)
  qed
next
  case (4 t v start)
  then show ?case
    by (cases v) (simp_all add: build_condition_value.simps says_nothing.simps)
next
  case (5 t v start)
  then show ?case
    by (cases "build_condition_value t v start") (auto simp: build_not_expr.simps)
qed

text \<open>The where clause of a statement is empty exactly for those maps (and the empty map).\<close>

lemma where_clause_empty:
  "(\<exists>args. where_clause t m start = Inr ([], args)) \<longleftrightarrow> says_nothing (VMap m)"
proof -
  have "says_nothing (VMap [])" by (simp add: says_nothing.simps)
  then show ?thesis
    using where_builders_empty(1) [of t m start]
    by (cases "build_map_expr t m start") (auto simp: where_clause_def)
qed

end
