(* ===== verification/Db.thy ===== *)
theory Db imports Orm_Values begin

text \<open>
  Package \<open>db\<close>: the interfaces the rest of the program talks to the database through
  (db.go). The databases behind them are not part of the program, so an adapter is a record
  of functions on an arbitrary state \<open>'d\<close> and every operation that uses one takes it as an
  argument. \<open>Adapter\<close> and \<open>Tx\<close> share \<open>ExecContext\<close> and \<open>QueryContext\<close>, the interface
  \<open>execQuerier\<close> of table.go.
\<close>

text \<open>Database errors are opaque texts; \<open>Rows\<close> is what a reader gets out of it.\<close>

record db_result =
  rows_affected :: "string + int"
  last_insert_id :: "string + int"

record db_rows =
  rows_columns :: "(string + string list) option"
  rows_data :: "(string + val list) list"
  rows_err :: "string option"

record 'd exec_querier =
  eq_exec :: "string \<Rightarrow> val list \<Rightarrow> 'd \<Rightarrow> (string + db_result) \<times> 'd"
  eq_query :: "string \<Rightarrow> val list \<Rightarrow> 'd \<Rightarrow> (string + db_rows) \<times> 'd"

text \<open>\<open>ad_begin\<close> answers an error, a transaction (\<open>Inr True\<close>) or a nil one (\<open>Inr False\<close>).\<close>

record 'd adapter =
  ad_db :: "'d exec_querier"
  ad_tx :: "'d exec_querier"
  ad_begin :: "'d \<Rightarrow> (string + bool) \<times> 'd"
  ad_commit :: "'d \<Rightarrow> string option \<times> 'd"
  ad_rollback :: "'d \<Rightarrow> string option \<times> 'd"

text \<open>
  The documented behaviour of transactions the all-or-nothing results rest on: what is
  committed (\<open>view\<close>) is not changed by beginning a transaction, by the statements inside
  it, by rolling back, or by a commit that fails.
\<close>

definition tx_isolated :: "'d adapter \<Rightarrow> ('d \<Rightarrow> 'v) \<Rightarrow> bool" where
  "tx_isolated a view \<longleftrightarrow>
     (\<forall>d. view (snd (ad_begin a d)) = view d) \<and>
     (\<forall>q args d. view (snd (eq_exec (ad_tx a) q args d)) = view d) \<and>
     (\<forall>q args d. view (snd (eq_query (ad_tx a) q args d)) = view d) \<and>
     (\<forall>d. view (snd (ad_rollback a d)) = view d) \<and>
     (\<forall>d e d'. ad_commit a d = (Some e, d') \<longrightarrow> view d' = view d)"

lemma tx_isolatedD:
  assumes "tx_isolated a view"
  shows "ad_begin a d = (r1, d1) \<Longrightarrow> view d1 = view d"
    "eq_exec (ad_tx a) q args d = (r2, d2) \<Longrightarrow> view d2 = view d"
    "eq_query (ad_tx a) q args d = (r3, d3) \<Longrightarrow> view d3 = view d"
    "ad_rollback a d = (r4, d4) \<Longrightarrow> view d4 = view d"
    "ad_commit a d = (Some e, d5) \<Longrightarrow> view d5 = view d"
  using assms by (metis tx_isolated_def snd_conv)+

section \<open>A database that logs its statements\<close>

text \<open>
  A concrete adapter for the examples: it keeps the committed statements and those of the
  open transaction, and fails on the statements \<open>bad\<close> accepts.
\<close>

type_synonym log_db = "(string \<times> val list) list \<times> (string \<times> val list) list"

definition log_adapter :: "(string \<Rightarrow> val list \<Rightarrow> bool) \<Rightarrow> (string \<Rightarrow> val list \<Rightarrow> db_rows) \<Rightarrow> log_db adapter" where
  "log_adapter bad answer = \<lparr>
     ad_db = \<lparr>
       eq_exec = (\<lambda>q args (committed, pending). if bad q args then (Inl ''failed'', (committed, pending))
                    else (Inr \<lparr>rows_affected = Inr 1, last_insert_id = Inr 0\<rparr>, (committed @ [(q, args)], pending))),
       eq_query = (\<lambda>q args (committed, pending). if bad q args then (Inl ''failed'', (committed, pending))
                    else (Inr (answer q args), (committed @ [(q, args)], pending)))\<rparr>,
     ad_tx = \<lparr>
       eq_exec = (\<lambda>q args (committed, pending). if bad q args then (Inl ''failed'', (committed, pending))
                    else (Inr \<lparr>rows_affected = Inr 1, last_insert_id = Inr 0\<rparr>, (committed, pending @ [(q, args)]))),
       eq_query = (\<lambda>q args (committed, pending). if bad q args then (Inl ''failed'', (committed, pending))
                    else (Inr (answer q args), (committed, pending @ [(q, args)])))\<rparr>,
     ad_begin = (\<lambda>(committed, pending). (Inr True, (committed, []))),
     ad_commit = (\<lambda>(committed, pending). (None, (committed @ pending, []))),
     ad_rollback = (\<lambda>(committed, pending). (None, (committed, [])))\<rparr>"

lemma log_adapter_isolated: "tx_isolated (log_adapter bad answer) fst"
  by (auto simp: tx_isolated_def log_adapter_def)

end
