(* ===== verification/Orm_Table.thy ===== *)
theory Orm_Table imports Orm_Guard Db begin

text \<open>
  Package \<open>orm\<close>, table.go: the operations of \<open>Table\<close>. Each takes the adapter and the state
  of the database and returns its result with the new state, one equation per operation,
  with the calls in the order of the code. (\<open>Context\<close> arguments carry no data here and the
  deferred \<open>rows.Close()\<close> has no result, so neither is modelled.)
\<close>

section \<open>Records\<close>

text \<open>
  \<open>scanRecords\<close>: the column names come from the rows when they provide them, else from the
  hint; one record per row, a later column of the same name overwriting an earlier one.
\<close>

definition scan_row :: "string list \<Rightarrow> val list \<Rightarrow> go_record" where
  "scan_row cols vs = map_of (rev (zip cols (map normalize_db_value vs)))"

fun scan_loop :: "string list \<Rightarrow> (string + val list) list \<Rightarrow> orm_error + go_record list" where
  "scan_loop cols [] = Inr []"
| "scan_loop cols (Inl e # rest) = Inl (DbError e)"
| "scan_loop cols (Inr vs # rest) =
     (case scan_loop cols rest of Inl e \<Rightarrow> Inl e | Inr rs \<Rightarrow> Inr (scan_row cols vs # rs))"

definition scan_records :: "db_rows \<Rightarrow> string list \<Rightarrow> orm_error + go_record list" where
  "scan_records rows hint =
     (case (case rows_columns rows of
              Some (Inl e) \<Rightarrow> Inl (DbError e)
            | Some (Inr cols) \<Rightarrow> Inr cols
            | None \<Rightarrow> if hint = [] \<or> has_star hint then Inl RowsWithoutColumns else Inr hint) of
        Inl e \<Rightarrow> Inl e
      | Inr cols \<Rightarrow>
          (case scan_loop cols (rows_data rows) of
             Inl e \<Rightarrow> Inl e
           | Inr rs \<Rightarrow> (case rows_err rows of Some e \<Rightarrow> Inl (DbError e) | None \<Rightarrow> Inr rs)))"

text \<open>\<open>projectRecords\<close>, \<open>recordsFromValues\<close>, \<open>applyPatch\<close>, \<open>mergeCreateAndWhere\<close>, \<open>columnHints\<close>.\<close>

fun project_row :: "string list \<Rightarrow> go_record \<Rightarrow> go_record \<Rightarrow> orm_error + go_record" where
  "project_row [] row acc = Inr acc"
| "project_row (c # cs) row acc =
     (case valid_identifier c ''column'' of
        Inl e \<Rightarrow> Inl e
      | Inr col \<Rightarrow> project_row cs row (case row col of Some v \<Rightarrow> acc(col \<mapsto> v) | None \<Rightarrow> acc))"

fun project_rows :: "string list \<Rightarrow> go_record list \<Rightarrow> orm_error + go_record list" where
  "project_rows columns [] = Inr []"
| "project_rows columns (row # rows) =
     (case project_row columns row Map.empty of
        Inl e \<Rightarrow> Inl e
      | Inr r \<Rightarrow>
          (case project_rows columns rows of Inl e \<Rightarrow> Inl e | Inr rs \<Rightarrow> Inr (r # rs)))"

definition project_records :: "go_record list \<Rightarrow> string list \<Rightarrow> orm_error + go_record list" where
  "project_records rows columns =
     (if columns = [] \<or> has_star columns then Inr rows else project_rows columns rows)"

definition records_from_values :: "go_map list \<Rightarrow> string list \<Rightarrow> orm_error + go_record list" where
  "records_from_values rows columns = project_records (map map_of rows) columns"

definition apply_patch :: "go_record list \<Rightarrow> go_map \<Rightarrow> go_record list" where
  "apply_patch rows patch = map (\<lambda>row. row ++ map_of patch) rows"

definition merge_create_and_where :: "go_map \<Rightarrow> go_map \<Rightarrow> go_map" where
  "merge_create_and_where create m = create @ filter (\<lambda>(k, v). k \<notin> fst ` set create) m"

definition column_hints :: "go_map \<Rightarrow> go_map \<Rightarrow> string list" where
  "column_hints m patch = sort (map fst m @ filter (\<lambda>k. k \<notin> fst ` set m) (map fst patch))"

section \<open>Statements on the database\<close>

text \<open>A call of \<open>ExecContext\<close> or \<open>QueryContext\<close>, its error as an error of the package.\<close>

definition db_call :: "('d \<Rightarrow> (string + 'r) \<times> 'd) \<Rightarrow> 'd \<Rightarrow> (orm_error + 'r) \<times> 'd" where
  "db_call f d = (case f d of (Inl e, d') \<Rightarrow> (Inl (DbError e), d') | (Inr r, d') \<Rightarrow> (Inr r, d'))"

definition affected :: "db_result \<Rightarrow> orm_error + int" where
  "affected r = map_sum DbError id (rows_affected r)"

definition create_with :: "table \<Rightarrow> 'd exec_querier \<Rightarrow> go_map \<Rightarrow> 'd \<Rightarrow> (orm_error + db_result) \<times> 'd" where
  "create_with t eq values d =
     (case insert_query t values [] False of
        Inl e \<Rightarrow> (Inl e, d)
      | Inr (query, args) \<Rightarrow> db_call (eq_exec eq query args) d)"

definition create :: "table \<Rightarrow> 'd adapter \<Rightarrow> go_map \<Rightarrow> 'd \<Rightarrow> (orm_error + db_result) \<times> 'd" where
  "create t a values d = create_with t (ad_db a) values d"

text \<open>The loop of \<open>CreateMany\<close> and of \<open>createManyWithoutTx\<close>: count, and error if any.\<close>

fun create_loop ::
  "table \<Rightarrow> 'd exec_querier \<Rightarrow> go_map list \<Rightarrow> nat \<Rightarrow> 'd \<Rightarrow> (nat \<times> orm_error option) \<times> 'd" where
  "create_loop t eq [] n d = ((n, None), d)"
| "create_loop t eq (row # rows) n d =
     (case create_with t eq row d of
        (Inl e, d') \<Rightarrow> ((n, Some e), d')
      | (Inr r, d') \<Rightarrow> create_loop t eq rows (n + 1) d')"

definition create_many_without_tx ::
  "table \<Rightarrow> 'd adapter \<Rightarrow> go_map list \<Rightarrow> 'd \<Rightarrow> (nat \<times> orm_error option) \<times> 'd" where
  "create_many_without_tx t a rows d = create_loop t (ad_db a) rows 0 d"

definition create_many ::
  "table \<Rightarrow> 'd adapter \<Rightarrow> go_map list \<Rightarrow> 'd \<Rightarrow> (nat \<times> orm_error option) \<times> 'd" where
  "create_many t a rows d =
     (if rows = [] then ((0, None), d)
      else
        (case ad_begin a d of
           (Inl e, d1) \<Rightarrow> create_many_without_tx t a rows d1
         | (Inr False, d1) \<Rightarrow> create_many_without_tx t a rows d1
         | (Inr True, d1) \<Rightarrow>
             (case create_loop t (ad_tx a) rows 0 d1 of
                ((n, Some e), d2) \<Rightarrow> ((n, Some e), snd (ad_rollback a d2))
              | ((n, None), d2) \<Rightarrow>
                  (case ad_commit a d2 of
                     (Some e, d3) \<Rightarrow> ((n, Some (DbError e)), d3)
                   | (None, d3) \<Rightarrow> ((n, None), d3)))))"

definition create_and_return_with ::
  "table \<Rightarrow> 'd exec_querier \<Rightarrow> go_map \<Rightarrow> string list \<Rightarrow> 'd \<Rightarrow> (orm_error + go_record) \<times> 'd" where
  "create_and_return_with t eq values columns d =
     (case insert_query t values columns True of
        Inl e \<Rightarrow> (Inl e, d)
      | Inr (query, args) \<Rightarrow>
          (case db_call (eq_query eq query args) d of
             (Inl e, d') \<Rightarrow> (Inl e, d')
           | (Inr rows, d') \<Rightarrow>
               (case scan_records rows columns of
                  Inl e \<Rightarrow> (Inl e, d')
                | Inr [] \<Rightarrow> (Inl ErrNotFound, d')
                | Inr (r # rs) \<Rightarrow> (Inr r, d'))))"

fun create_many_and_return_with ::
  "table \<Rightarrow> 'd exec_querier \<Rightarrow> go_map list \<Rightarrow> string list \<Rightarrow> 'd \<Rightarrow> (orm_error + go_record list) \<times> 'd" where
  "create_many_and_return_with t eq [] columns d = (Inr [], d)"
| "create_many_and_return_with t eq (row # rows) columns d =
     (case create_and_return_with t eq row columns d of
        (Inl e, d') \<Rightarrow> (Inl e, d')
      | (Inr r, d') \<Rightarrow>
          (case create_many_and_return_with t eq rows columns d' of
             (Inl e, d'') \<Rightarrow> (Inl e, d'')
           | (Inr rs, d'') \<Rightarrow> (Inr (r # rs), d'')))"

definition create_many_and_return ::
  "table \<Rightarrow> 'd adapter \<Rightarrow> go_map list \<Rightarrow> string list \<Rightarrow> 'd \<Rightarrow> (orm_error + go_record list) \<times> 'd" where
  "create_many_and_return t a rows columns d =
     (if rows = [] then (Inr [], d)
      else if \<not> supports_returning t then
        (case create_many t a rows d of
           ((n, Some e), d') \<Rightarrow> (Inl e, d')
         | ((n, None), d') \<Rightarrow> (records_from_values rows columns, d'))
      else
        (case ad_begin a d of
           (Inl e, d1) \<Rightarrow> create_many_and_return_with t (ad_db a) rows columns d1
         | (Inr False, d1) \<Rightarrow> create_many_and_return_with t (ad_db a) rows columns d1
         | (Inr True, d1) \<Rightarrow>
             (case create_many_and_return_with t (ad_tx a) rows columns d1 of
                (Inl e, d2) \<Rightarrow> (Inl e, snd (ad_rollback a d2))
              | (Inr created, d2) \<Rightarrow>
                  (case ad_commit a d2 of
                     (Some e, d3) \<Rightarrow> (Inl (DbError e), d3)
                   | (None, d3) \<Rightarrow> (Inr created, d3)))))"


section \<open>Reading\<close>

definition find_many :: "table \<Rightarrow> 'd adapter \<Rightarrow> find_options \<Rightarrow> 'd \<Rightarrow> (orm_error + go_record list) \<times> 'd" where
  "find_many t a opts d =
     (case select_query t opts of
        Inl e \<Rightarrow> (Inl e, d)
      | Inr (query, args) \<Rightarrow>
          (case db_call (eq_query (ad_db a) query args) d of
             (Inl e, d') \<Rightarrow> (Inl e, d')
           | (Inr rows, d') \<Rightarrow> (scan_records rows (fo_columns opts), d')))"

text \<open>A nil record is \<open>None\<close>.\<close>

definition find_first ::
  "table \<Rightarrow> 'd adapter \<Rightarrow> find_options \<Rightarrow> 'd \<Rightarrow> (orm_error + go_record option) \<times> 'd" where
  "find_first t a opts d =
     (case find_many t a (opts\<lparr>fo_limit := 1\<rparr>) d of
        (Inl e, d') \<Rightarrow> (Inl e, d')
      | (Inr [], d') \<Rightarrow> (Inr None, d')
      | (Inr (r # rs), d') \<Rightarrow> (Inr (Some r), d'))"

definition or_throw :: "(orm_error + go_record option) \<times> 'd \<Rightarrow> (orm_error + go_record) \<times> 'd" where
  "or_throw r =
     (case r of
        (Inl e, d) \<Rightarrow> (Inl e, d)
      | (Inr None, d) \<Rightarrow> (Inl ErrNotFound, d)
      | (Inr (Some rec), d) \<Rightarrow> (Inr rec, d))"

definition find_first_or_throw ::
  "table \<Rightarrow> 'd adapter \<Rightarrow> find_options \<Rightarrow> 'd \<Rightarrow> (orm_error + go_record) \<times> 'd" where
  "find_first_or_throw t a opts d = or_throw (find_first t a opts d)"

definition find_unique ::
  "table \<Rightarrow> 'd adapter \<Rightarrow> go_map \<Rightarrow> string list \<Rightarrow> 'd \<Rightarrow> (orm_error + go_record option) \<times> 'd" where
  "find_unique t a m columns d =
     (if m = [] then (Inl (ErrInvalidInput (WhereRequired ''unique lookup'')), d)
      else
        (case find_many t a
                \<lparr>fo_columns = columns, fo_where = m, fo_order_by = [], fo_limit = 2, fo_offset = 0\<rparr> d of
           (Inl e, d') \<Rightarrow> (Inl e, d')
         | (Inr [], d') \<Rightarrow> (Inr None, d')
         | (Inr [r], d') \<Rightarrow> (Inr (Some r), d')
         | (Inr (r # r' # rs), d') \<Rightarrow> (Inl ErrNonUnique, d')))"

definition find_unique_or_throw ::
  "table \<Rightarrow> 'd adapter \<Rightarrow> go_map \<Rightarrow> string list \<Rightarrow> 'd \<Rightarrow> (orm_error + go_record) \<times> 'd" where
  "find_unique_or_throw t a m columns d = or_throw (find_unique t a m columns d)"

section \<open>Writing\<close>

definition exec_affected ::
  "'d exec_querier \<Rightarrow> string \<Rightarrow> val list \<Rightarrow> 'd \<Rightarrow> (orm_error + int) \<times> 'd" where
  "exec_affected eq query args d =
     (case db_call (eq_exec eq query args) d of
        (Inl e, d') \<Rightarrow> (Inl e, d')
      | (Inr res, d') \<Rightarrow> (affected res, d'))"

definition update_many_with ::
  "table \<Rightarrow> 'd exec_querier \<Rightarrow> go_map \<Rightarrow> go_map \<Rightarrow> 'd \<Rightarrow> (orm_error + int) \<times> 'd" where
  "update_many_with t eq m patch d =
     (case update_query t m patch [] False of
        Inl e \<Rightarrow> (Inl e, d)
      | Inr (query, args) \<Rightarrow> exec_affected eq query args d)"

definition update :: "table \<Rightarrow> 'd adapter \<Rightarrow> go_map \<Rightarrow> go_map \<Rightarrow> 'd \<Rightarrow> (orm_error + int) \<times> 'd" where
  "update t a m patch d = update_many_with t (ad_db a) m patch d"

definition update_many :: "table \<Rightarrow> 'd adapter \<Rightarrow> go_map \<Rightarrow> go_map \<Rightarrow> 'd \<Rightarrow> (orm_error + int) \<times> 'd" where
  "update_many t a m patch d = update t a m patch d"

definition update_many_and_return ::
  "table \<Rightarrow> 'd adapter \<Rightarrow> go_map \<Rightarrow> go_map \<Rightarrow> string list \<Rightarrow> 'd \<Rightarrow> (orm_error + go_record list) \<times> 'd" where
  "update_many_and_return t a m patch columns d =
     (if m = [] then (Inl (ErrInvalidInput (WhereRequired ''update'')), d)
      else if \<not> supports_returning t then
        (let load = (if columns = [] \<or> has_star columns then column_hints m patch else columns) in
         case find_many t a
                \<lparr>fo_columns = load, fo_where = m, fo_order_by = [], fo_limit = 0, fo_offset = 0\<rparr> d of
           (Inl e, d1) \<Rightarrow> (Inl e, d1)
         | (Inr before, d1) \<Rightarrow>
             (case update_many t a m patch d1 of
                (Inl e, d2) \<Rightarrow> (Inl e, d2)
              | (Inr n, d2) \<Rightarrow> (project_records (apply_patch before patch) columns, d2)))
      else
        (case update_query t m patch columns True of
           Inl e \<Rightarrow> (Inl e, d)
         | Inr (query, args) \<Rightarrow>
             (case db_call (eq_query (ad_db a) query args) d of
                (Inl e, d') \<Rightarrow> (Inl e, d')
              | (Inr rows, d') \<Rightarrow> (scan_records rows columns, d'))))"

definition delete :: "table \<Rightarrow> 'd adapter \<Rightarrow> go_map \<Rightarrow> 'd \<Rightarrow> (orm_error + int) \<times> 'd" where
  "delete t a m d =
     (case delete_query t m of
        Inl e \<Rightarrow> (Inl e, d)
      | Inr (query, args) \<Rightarrow> exec_affected (ad_db a) query args d)"

definition delete_many :: "table \<Rightarrow> 'd adapter \<Rightarrow> go_map \<Rightarrow> 'd \<Rightarrow> (orm_error + int) \<times> 'd" where
  "delete_many t a m d = delete t a m d"

definition upsert ::
  "table \<Rightarrow> 'd adapter \<Rightarrow> go_map \<Rightarrow> go_map \<Rightarrow> go_map \<Rightarrow> 'd \<Rightarrow> (orm_error + go_record) \<times> 'd" where
  "upsert t a m create_vals update_vals d =
     (if m = [] then (Inl (ErrInvalidInput (WhereRequired ''upsert'')), d)
      else
        (case find_unique t a m [] d of
           (Inl e, d1) \<Rightarrow> (Inl e, d1)
         | (Inr None, d1) \<Rightarrow>
             (case create t a (merge_create_and_where create_vals m) d1 of
                (Inl e, d2) \<Rightarrow> (Inl e, d2)
              | (Inr r, d2) \<Rightarrow> find_unique_or_throw t a m [] d2)
         | (Inr (Some r), d1) \<Rightarrow>
             if update_vals \<noteq> [] then
               (case update_many t a m update_vals d1 of
                  (Inl e, d2) \<Rightarrow> (Inl e, d2)
                | (Inr n, d2) \<Rightarrow> find_unique_or_throw t a m [] d2)
             else find_unique_or_throw t a m [] d1))"

end
