(* ===== verification/Orm_Theorems.thy ===== *)
theory Orm_Theorems imports Orm_Safe Orm_Table begin

text \<open>
  Package \<open>orm\<close>: what the statements and the table operations guarantee. The examples use
  one table in two dialects.
\<close>

definition users :: "string \<Rightarrow> table" where
  "users dialect = \<lparr>tbl_dialect = dialect, tbl_name = ''users''\<rparr>"

lemmas statement_eval = update_query_def select_query_def insert_query_def delete_query_def
  update_text_def insert_text_def select_text_def set_parts_def with_returning_def add_bound_def
  build_returning_clause_def select_columns_def has_star_def
  normalized_values_def where_clause_def build_map_expr.simps clause_expr.simps
  build_logical_list_expr.simps build_condition_value.simps build_not_expr.simps
  build_field_expr_def build_operator_expr.simps operator_clause.simps build_not_field_expr.simps

section \<open>Helper lemmas\<close>

lemma with_returning_args: "with_returning want ret q args = Inr (q', args') \<Longrightarrow> args' = args"
  by (auto simp: with_returning_def split: if_splits sum.splits)

lemma where_clause_perm:
  "mset m = mset m' \<Longrightarrow> distinct (map fst m) \<Longrightarrow> where_clause t m start = where_clause t m' start"
  by (auto simp: where_clause_def build_map_expr.simps sort_key_mset_eq [of m m' fst] dest: mset_eq_length)

lemma normalized_values_perm:
  "mset m = mset m' \<Longrightarrow> distinct (map fst m) \<Longrightarrow> normalized_values m label = normalized_values m' label"
  by (auto simp: normalized_values_def sort_key_mset_eq [of m m' fst])

lemma normalized_values_mask:
  "map_sum id fst (normalized_values (mask_map m) label) = map_sum id fst (normalized_values m label)"
proof -
  have "map_sum id fst (normalized_values_loop (mask_map xs)) = map_sum id fst (normalized_values_loop xs)" for xs
  proof (induction xs)
    case Nil
    then show ?case by simp
  next
    case (Cons x xs)
    then show ?case
      by (cases "normalized_values_loop (mask_map xs)"; cases "normalized_values_loop xs"; cases x)
        (auto split: sum.split prod.splits)
  qed
  then show ?thesis by (simp add: normalized_values_def sort_key_mask)
qed

lemma db_call_snd: "db_call f d = (r, d') \<Longrightarrow> \<exists>r'. f d = (r', d')"
  by (auto simp: db_call_def split: prod.splits sum.splits)


section \<open>Statements\<close>

text \<open>
  C1. An \<open>UPDATE\<close> the package builds has one placeholder per argument, in argument order
  (numbered from \<open>$1\<close> for PostgreSQL), although the assignments and the condition are built
  separately; the patch comes first, in column order, so no argument meets another's column.
\<close>

theorem update_binds_arguments:
  assumes "update_query t m patch returning want = Inr (query, args)"
  shows "bound_in_order (numbered_dialect (tbl_dialect t)) query (length args) \<and>
    (\<exists>where_sql where_args. where_clause t m (length patch) = Inr (where_sql, where_args) \<and>
       args = map snd (sort_key fst patch) @ where_args)"
proof
  show "bound_in_order (numbered_dialect (tbl_dialect t)) query (length args)"
    by (rule orm_ph.marked_bound_in_order [OF update_query_marked [OF assms]])
  from assms show "\<exists>where_sql where_args. where_clause t m (length patch) = Inr (where_sql, where_args) \<and>
       args = map snd (sort_key fst patch) @ where_args"
    by (rule update_queryE) (auto dest!: normalized_values_ok with_returning_args)
qed

theorem update_binds_arguments_example:
  "bound_in_order True ''UPDATE users SET name = $1 WHERE (age > $2) AND id = $3 RETURNING *'' 3"
proof -
  have "update_query (users ''pg'')
      [(''id'', VInt 7), (''OR'', VList [VMap [(''age'', VMap [(''gt'', VInt 18)])]])]
      [(''name'', VStr ''x'')] [] True
    = Inr (''UPDATE users SET name = $1 WHERE (age > $2) AND id = $3 RETURNING *'',
        [VStr ''x'', VInt 18, VInt 7])"
    by code_simp
  from update_binds_arguments [OF this] have "bound_in_order (numbered_dialect (tbl_dialect (users ''pg'')))
      ''UPDATE users SET name = $1 WHERE (age > $2) AND id = $3 RETURNING *'' 3"
    by (simp add: numeral_3_eq_3)
  moreover have "numbered_dialect (tbl_dialect (users ''pg''))" by code_simp
  ultimately show ?thesis by simp
qed

text \<open>
  C2. A \<open>SELECT\<close> has one placeholder per argument, in argument order, with the limit and
  the offset behind the arguments of the condition.
\<close>

theorem select_binds_arguments:
  assumes "select_query t opts = Inr (query, args)"
  shows "bound_in_order (numbered_dialect (tbl_dialect t)) query (length args) \<and>
    (\<exists>where_sql where_args. where_clause t (fo_where opts) 0 = Inr (where_sql, where_args) \<and>
       args = where_args @ (if fo_limit opts > 0 then [VInt (fo_limit opts)] else [])
                @ (if fo_offset opts > 0 then [VInt (fo_offset opts)] else []))"
proof
  show "bound_in_order (numbered_dialect (tbl_dialect t)) query (length args)"
    by (rule orm_ph.marked_bound_in_order [OF select_query_marked [OF assms]])
  from assms show "\<exists>where_sql where_args. where_clause t (fo_where opts) 0 = Inr (where_sql, where_args) \<and>
       args = where_args @ (if fo_limit opts > 0 then [VInt (fo_limit opts)] else [])
                @ (if fo_offset opts > 0 then [VInt (fo_offset opts)] else [])"
    by (rule select_queryE) (auto simp: add_bound_def split: if_splits)
qed

theorem select_binds_arguments_example:
  "bound_in_order False ''SELECT id, name FROM users WHERE age > ? ORDER BY id DESC LIMIT ? OFFSET ?'' 3"
proof -
  have "select_query (users ''sqlite'')
      \<lparr>fo_columns = [''id'', ''name''], fo_where = [(''age'', VMap [(''gt'', VInt 18)])],
       fo_order_by = [(''id'', True)], fo_limit = 10, fo_offset = 20\<rparr>
    = Inr (''SELECT id, name FROM users WHERE age > ? ORDER BY id DESC LIMIT ? OFFSET ?'',
        [VInt 18, VInt 10, VInt 20])"
    by code_simp
  from select_binds_arguments [OF this] have "bound_in_order (numbered_dialect (tbl_dialect (users ''sqlite'')))
      ''SELECT id, name FROM users WHERE age > ? ORDER BY id DESC LIMIT ? OFFSET ?'' 3"
    by (simp add: numeral_3_eq_3)
  moreover have "\<not> numbered_dialect (tbl_dialect (users ''sqlite''))" by code_simp
  ultimately show ?thesis by simp
qed

text \<open>
  \<open>INSERT\<close> and \<open>DELETE\<close> bind their arguments the same way; an insert lists its columns
  and its values in the same order, the order of the keys of the map.
\<close>

theorem insert_delete_bind_arguments:
  "(case insert_query t values returning want of
      Inl e \<Rightarrow> True
    | Inr (query, args) \<Rightarrow>
        bound_in_order (numbered_dialect (tbl_dialect t)) query (length args) \<and>
        args = map snd (sort_key fst values)) \<and>
   (case delete_query t m of
      Inl e \<Rightarrow> True
    | Inr (query, args) \<Rightarrow> bound_in_order (numbered_dialect (tbl_dialect t)) query (length args))"
proof -
  have "bound_in_order (numbered_dialect (tbl_dialect t)) query (length args) \<and> args = map snd (sort_key fst values)"
    if i: "insert_query t values returning want = Inr (query, args)" for query args
    using orm_ph.marked_bound_in_order [OF insert_query_marked [OF i]] i
    by (auto elim!: insert_queryE dest!: normalized_values_ok with_returning_args)
  moreover have "bound_in_order (numbered_dialect (tbl_dialect t)) query (length args)"
    if "delete_query t m = Inr (query, args)" for query args
    by (rule orm_ph.marked_bound_in_order [OF delete_query_marked [OF that]])
  ultimately show ?thesis by (auto split: sum.split)
qed


text \<open>
  C3. The text of every statement stays in the safe alphabet, whatever keys, column names and
  table name it is built from: no semicolon, no comment, no quoted name, and no string
  literal but the empty one.
\<close>

theorem statement_text_is_safe:
  assumes "insert_query t values returning want = Inr (query, args) \<or>
   update_query t m patch returning want = Inr (query, args) \<or>
   select_query t opts = Inr (query, args) \<or>
   delete_query t m = Inr (query, args)"
  shows "sql_safe query \<and> (\<forall>c\<in>set '';-/#@[]{}:&|!+%~^''. c \<notin> set query)"
proof -
  have "sql_safe query"
    using assms
    by (elim disjE) (erule insert_query_safe update_query_safe select_query_safe delete_query_safe)+
  then show ?thesis using sql_safe_free by blast
qed

theorem statement_text_is_safe_example:
  "sql_safe ''DELETE FROM users WHERE id = ?'' \<and> CHR '';'' \<notin> set ''DELETE FROM users WHERE id = ?''"
proof -
  have "delete_query (users ''sqlite'') [(''id'', VStr ''1; DROP TABLE users'')]
    = Inr (''DELETE FROM users WHERE id = ?'', [VStr ''1; DROP TABLE users''])"
    by code_simp
  then have "sql_safe ''DELETE FROM users WHERE id = ?'' \<and>
      (\<forall>c\<in>set '';-/#@[]{}:&|!+%~^''. c \<notin> set ''DELETE FROM users WHERE id = ?'')"
    by (intro statement_text_is_safe disjI2)
  then show ?thesis by simp
qed





section \<open>Operations\<close>

text \<open>Inside an isolated transaction the loops leave what is committed alone.\<close>

lemma create_with_view:
  "tx_isolated a view \<Longrightarrow> create_with t (ad_tx a) row d = (r, d') \<Longrightarrow> view d' = view d"
  by (auto simp: create_with_def db_call_def dest: tx_isolatedD(2) split: sum.splits prod.splits)

lemma create_loop_view:
  "tx_isolated a view \<Longrightarrow> create_loop t (ad_tx a) rows n d = (r, d') \<Longrightarrow> view d' = view d"
proof (induction rows arbitrary: n d)
  case Nil
  then show ?case by simp
next
  case (Cons row rows)
  then show ?case
    by (cases "create_with t (ad_tx a) row d") (auto dest: create_with_view split: sum.splits)
qed

lemma create_loop_count:
  "create_loop t eq rows n d = ((k, e), d') \<Longrightarrow> n \<le> k \<and> k \<le> n + length rows \<and> (e = None \<longrightarrow> k = n + length rows)"
proof (induction rows arbitrary: n d)
  case Nil
  then show ?case by simp
next
  case (Cons row rows)
  then show ?case
    by (cases "create_with t eq row d") (fastforce split: sum.splits)
qed

lemma create_and_return_view:
  "tx_isolated a view \<Longrightarrow> create_and_return_with t (ad_tx a) row cols d = (r, d') \<Longrightarrow> view d' = view d"
  by (auto simp: create_and_return_with_def db_call_def dest: tx_isolatedD(3)
      split: sum.splits prod.splits list.splits)

lemma create_many_and_return_view:
  "tx_isolated a view \<Longrightarrow> create_many_and_return_with t (ad_tx a) rows cols d = (r, d') \<Longrightarrow> view d' = view d"
proof (induction rows arbitrary: d r d')
  case Nil
  then show ?case by simp
next
  case (Cons row rows)
  show ?case
  proof (cases "create_and_return_with t (ad_tx a) row cols d")
    case (Pair r1 d1)
    with Cons show ?thesis
      by (cases "create_many_and_return_with t (ad_tx a) rows cols d1")
        (auto dest: create_and_return_view split: sum.splits)
  qed
qed

lemma create_many_and_return_with_length:
  "create_many_and_return_with t eq rows cols d = (Inr rs, d') \<Longrightarrow> length rs = length rows"
proof (induction rows arbitrary: d rs d')
  case Nil
  then show ?case by simp
next
  case (Cons row rows)
  then show ?case by (auto split: sum.splits prod.splits)
qed


definition fails_on :: "val \<Rightarrow> string \<Rightarrow> val list \<Rightarrow> bool" where
  "fails_on v query args \<longleftrightarrow> v \<in> set args"

definition no_rows :: "string \<Rightarrow> val list \<Rightarrow> db_rows" where
  "no_rows query args = \<lparr>rows_columns = Some (Inr []), rows_data = [], rows_err = None\<rparr>"


lemma project_rows_length: "project_rows cols rows = Inr rs \<Longrightarrow> length rs = length rows"
  by (induction rows arbitrary: rs) (auto split: sum.splits)

lemma records_from_values_length: "records_from_values rows cols = Inr rs \<Longrightarrow> length rs = length rows"
  by (auto simp: records_from_values_def project_records_def dest: project_rows_length split: if_splits)

text \<open>
  \<open>CreateManyAndReturn\<close> is all or nothing too on a database with \<open>RETURNING\<close>: an
  error leaves nothing committed, and success returns one record per row.
\<close>

theorem create_many_and_return_all_or_nothing:
  assumes "tx_isolated a view" "ad_begin a d = (Inr True, d1)" "supports_returning t"
    and "create_many_and_return t a rows cols d = (result, d')"
  shows "case result of Inl e \<Rightarrow> view d' = view d | Inr rs \<Rightarrow> length rs = length rows"
proof (cases "rows = []")
  case True
  with assms(4) show ?thesis by (auto simp: create_many_and_return_def)
next
  case False
  obtain r d2 where loop: "create_many_and_return_with t (ad_tx a) rows cols d1 = (r, d2)"
    by (metis prod.exhaust)
  have "view d1 = view d" by (rule tx_isolatedD(1) [OF assms(1,2)])
  moreover have "view d2 = view d1" by (rule create_many_and_return_view [OF assms(1) loop])
  moreover have "view (snd (ad_rollback a d2)) = view d2"
    using tx_isolatedD(4) [OF assms(1)] by (metis prod.collapse)
  moreover note tx_isolatedD(5) [OF assms(1), of d2]
  ultimately show ?thesis
    using False assms(2-4) loop create_many_and_return_with_length
    by (auto simp: create_many_and_return_def split: sum.splits option.splits prod.splits)
qed

definition one_id :: "string \<Rightarrow> val list \<Rightarrow> db_rows" where
  "one_id query args = \<lparr>rows_columns = Some (Inr [''id'']), rows_data = [Inr [VInt 1]], rows_err = None\<rparr>"

theorem create_many_and_return_all_or_nothing_example:
  "fst (snd (create_many_and_return (users ''pg'') (log_adapter (fails_on (VInt 2)) one_id)
      [[(''id'', VInt 1)], [(''id'', VInt 2)]] [] ([], []))) = []"
proof -
  let ?a = "log_adapter (fails_on (VInt 2)) one_id"
  let ?r = "create_many_and_return (users ''pg'') ?a [[(''id'', VInt 1)], [(''id'', VInt 2)]] [] ([], [])"
  have b: "ad_begin ?a ([], []) = (Inr True, ([], []))" by (simp add: log_adapter_def)
  have s: "supports_returning (users ''pg'')" by code_simp
  have r: "case fst ?r of Inl e \<Rightarrow> True | Inr rs \<Rightarrow> False" by code_simp
  from create_many_and_return_all_or_nothing [OF log_adapter_isolated b s prod.collapse [of ?r, symmetric]] r
  show ?thesis by (auto split: sum.splits)
qed

text \<open>
  On the path without \<open>RETURNING\<close> it is not: the requested columns are checked only
  after the rows are committed, so a bad column name returns an error and leaves the rows.
\<close>

theorem create_many_and_return_late_check:
  "case create_many_and_return (users ''mysql'') (log_adapter (fails_on (VInt 2)) one_id)
      [[(''id'', VInt 1)]] [''first name''] ([], []) of
     (result, committed, pending) \<Rightarrow>
       (case result of Inl e \<Rightarrow> e = ErrInvalidInput (InvalidIdentifier ''column'' ''first name'') | Inr rs \<Rightarrow> False) \<and>
       committed = [(''INSERT INTO users (id) VALUES (?)'', [VInt 1])]"
  by code_simp

lemma scan_loop_length: "scan_loop cols rows = Inr rs \<Longrightarrow> length rs = length rows"
  by (induction cols rows arbitrary: rs rule: scan_loop.induct) (auto split: sum.splits)

lemma scan_records_length: "scan_records rows hint = Inr rs \<Longrightarrow> length rs = length (rows_data rows)"
  by (auto simp: scan_records_def dest: scan_loop_length split: sum.splits option.splits)

lemma find_manyE:
  assumes "find_many t a opts d = (Inr records, d')"
  obtains query args rows where "select_query t opts = Inr (query, args)"
    "eq_query (ad_db a) query args d = (Inr rows, d')" "length records = length (rows_data rows)"
  using assms by (auto simp: find_many_def db_call_def dest: scan_records_length split: sum.splits prod.splits)

text \<open>
  A record \<open>FindUnique\<close> answers is the only match: its query, with one placeholder per
  argument, asks for two rows and got exactly one.
\<close>

theorem find_unique_exact:
  assumes "find_unique t a m columns d = (Inr (Some record), d')"
  shows "\<exists>query args rows. eq_query (ad_db a) query (args @ [VInt 2]) d = (Inr rows, d') \<and>
    length (rows_data rows) = 1 \<and> bound_in_order (numbered_dialect (tbl_dialect t)) query (length args + 1) \<and>
    (\<exists>where_sql. where_clause t m 0 = Inr (where_sql, args))"
proof -
  let ?opts = "\<lparr>fo_columns = columns, fo_where = m, fo_order_by = [], fo_limit = 2, fo_offset = 0\<rparr>"
  from assms have "find_many t a ?opts d = (Inr [record], d')"
    by (auto simp: find_unique_def split: if_splits sum.splits prod.splits list.splits)
  then obtain query args rows where q: "select_query t ?opts = Inr (query, args)"
    and rows: "eq_query (ad_db a) query args d = (Inr rows, d')" "length (rows_data rows) = 1"
    by (auto elim: find_manyE)
  from q obtain ws wargs where "where_clause t m 0 = Inr (ws, wargs)" "args = wargs @ [VInt 2]"
    by (rule select_queryE) (auto simp: add_bound_def split: if_splits)
  with rows orm_ph.marked_bound_in_order [OF select_query_marked [OF q]] show ?thesis by auto
qed

theorem find_unique_exact_example:
  "\<exists>query args rows. eq_query (ad_db (log_adapter (fails_on (VInt 3)) one_id)) query (args @ [VInt 2]) ([], [])
     = (Inr rows, snd (find_unique (users ''pg'') (log_adapter (fails_on (VInt 3)) one_id) [(''id'', VInt 1)] [] ([], [])))"
proof -
  let ?r = "find_unique (users ''pg'') (log_adapter (fails_on (VInt 3)) one_id) [(''id'', VInt 1)] [] ([], [])"
  have "case fst ?r of Inl e \<Rightarrow> False | Inr r \<Rightarrow> (case r of None \<Rightarrow> False | Some x \<Rightarrow> True)" by code_simp
  then obtain x where "?r = (Inr (Some x), snd ?r)"
    by (cases ?r) (auto split: sum.splits option.splits)
  from find_unique_exact [OF this] show ?thesis by blast
qed

text \<open>
  \<open>Upsert\<close> copies the clauses of the where map into the row it inserts, operator maps
  included: the condition itself is bound as the value of the column.
\<close>

theorem upsert_inserts_operator_map:
  "fst (snd (upsert (users ''pg'') (log_adapter (fails_on (VInt 3)) no_rows)
      [(''age'', VMap [(''gt'', VInt 18)])] [(''name'', VStr ''x'')] [] ([], []))) =
   [(''SELECT * FROM users WHERE age > $1 LIMIT $2'', [VInt 18, VInt 2]),
    (''INSERT INTO users (age, name) VALUES ($1, $2)'', [VMap [(''gt'', VInt 18)], VStr ''x'']),
    (''SELECT * FROM users WHERE age > $1 LIMIT $2'', [VInt 18, VInt 2])]"
  by code_simp

end
