(* ===== verification/Go_Types.thy ===== *)
theory Go_Types imports Go_Prelude begin

text \<open>
  What \<open>reflect\<close> tells of a type, for the packages that walk user structs (orm/schema.go,
  migrate/generate.go, openapi/schema.go). A declared type is its package and name; a
  declaration environment gives its underlying type literal, so declared types may refer to
  each other. A declared type over a pointer type is outside the model, and names are ASCII.
\<close>

datatype basic_kind =
    KBool | KInt | KInt8 | KInt16 | KInt32 | KInt64
  | KUint | KUint8 | KUint16 | KUint32 | KUint64
  | KFloat32 | KFloat64 | KString

record field_decl =
  fd_name :: string
  fd_pkg_path :: string
  fd_anonymous :: bool
  fd_tag :: "(string \<times> string) list"

datatype gtype =
    Basic basic_kind
  | Declared string string
  | Pointer gtype
  | SliceOf gtype
  | ArrayOf gtype
  | MapOf gtype gtype
  | StructOf "(field_decl \<times> gtype) list"
  | OtherType

text \<open>\<open>StructTag.Get\<close>: the first value of a key, empty when there is none.\<close>

definition tag_get :: "field_decl \<Rightarrow> string \<Rightarrow> string" where
  "tag_get fd key = (case map_of (fd_tag fd) key of None \<Rightarrow> [] | Some v \<Rightarrow> v)"

type_synonym type_env = "string \<Rightarrow> string \<Rightarrow> gtype option"

text \<open>The literal that decides \<open>Kind()\<close>; \<open>Name()\<close> and \<open>PkgPath()\<close> as openapi and orm use them.\<close>

definition underlying :: "type_env \<Rightarrow> gtype \<Rightarrow> gtype" where
  "underlying env t =
     (case t of
        Declared pkg name \<Rightarrow> (case env pkg name of None \<Rightarrow> OtherType | Some u \<Rightarrow> u)
      | _ \<Rightarrow> t)"

fun basic_name :: "basic_kind \<Rightarrow> string" where
  "basic_name KBool = ''bool''"
| "basic_name KInt = ''int''"
| "basic_name KInt8 = ''int8''"
| "basic_name KInt16 = ''int16''"
| "basic_name KInt32 = ''int32''"
| "basic_name KInt64 = ''int64''"
| "basic_name KUint = ''uint''"
| "basic_name KUint8 = ''uint8''"
| "basic_name KUint16 = ''uint16''"
| "basic_name KUint32 = ''uint32''"
| "basic_name KUint64 = ''uint64''"
| "basic_name KFloat32 = ''float32''"
| "basic_name KFloat64 = ''float64''"
| "basic_name KString = ''string''"

definition type_name :: "gtype \<Rightarrow> string" where
  "type_name t = (case t of Declared pkg name \<Rightarrow> name | Basic k \<Rightarrow> basic_name k | _ \<Rightarrow> [])"

definition type_pkg :: "gtype \<Rightarrow> string" where
  "type_pkg t = (case t of Declared pkg name \<Rightarrow> pkg | _ \<Rightarrow> [])"

text \<open>\<open>for t.Kind() == reflect.Pointer { t = t.Elem() }\<close>, with whether a pointer was removed.\<close>

fun unwrap_type :: "gtype \<Rightarrow> gtype \<times> bool" where
  "unwrap_type (Pointer t) = (fst (unwrap_type t), True)"
| "unwrap_type t = (t, False)"

definition is_integer_kind :: "basic_kind \<Rightarrow> bool" where
  "is_integer_kind k \<longleftrightarrow> k \<notin> {KBool, KFloat32, KFloat64, KString}"

definition time_type :: gtype where "time_type = Declared ''time'' ''Time''"

section \<open>Snake case\<close>

text \<open>
  \<open>toSnakeCase\<close>, the same in packages \<open>orm\<close> and \<open>migrate\<close>: an underscore goes in front of an
  upper-case letter that follows a lower-case one or is followed by one.
\<close>

definition is_upper :: "char \<Rightarrow> bool" where
  "is_upper c \<longleftrightarrow> CHR ''A'' \<le> c \<and> c \<le> CHR ''Z''"

definition is_lower :: "char \<Rightarrow> bool" where
  "is_lower c \<longleftrightarrow> CHR ''a'' \<le> c \<and> c \<le> CHR ''z''"

fun snake_from :: "char option \<Rightarrow> string \<Rightarrow> string" where
  "snake_from prev [] = []"
| "snake_from prev (c # cs) =
     (if is_upper c then
        (if prev \<noteq> None \<and> (is_lower (the prev) \<or> (cs \<noteq> [] \<and> is_lower (hd cs))) then ''_'' else []) @
          [lower_char c]
      else [c]) @ snake_from (Some c) cs"

definition to_snake_case :: "string \<Rightarrow> string" where
  "to_snake_case s = snake_from None s"

lemma is_upper_nat: "is_upper c \<longleftrightarrow> 65 \<le> (of_char c :: nat) \<and> (of_char c :: nat) \<le> 90"
  by (simp add: is_upper_def less_eq_char_def)

lemma is_lower_nat: "is_lower c \<longleftrightarrow> 97 \<le> (of_char c :: nat) \<and> (of_char c :: nat) \<le> 122"
  by (simp add: is_lower_def less_eq_char_def)

lemma of_char_lower: "is_upper c \<Longrightarrow> (of_char (lower_char c) :: nat) = of_char c + 32"
  by (simp add: lower_char_def is_upper_def [symmetric] is_upper_nat)

lemma lower_char_lower [simp]: "is_upper c \<Longrightarrow> is_lower (lower_char c)"
  by (simp add: is_lower_nat of_char_lower is_upper_nat)

lemma lower_not_upper [simp]: "is_lower c \<Longrightarrow> \<not> is_upper c"
  by (auto simp: is_lower_nat is_upper_nat)

lemma not_upper_underscore [simp]: "\<not> is_upper (CHR ''_'')"
  by (simp add: is_upper_def)

lemma snake_from_no_upper: "c \<in> set (snake_from prev s) \<Longrightarrow> \<not> is_upper c"
  by (induction prev s rule: snake_from.induct) (auto split: if_splits)

lemma snake_from_id: "(\<And>c. c \<in> set s \<Longrightarrow> \<not> is_upper c) \<Longrightarrow> snake_from prev s = s"
  by (induction prev s rule: snake_from.induct) auto

lemma to_snake_case_idem: "to_snake_case (to_snake_case s) = to_snake_case s"
  unfolding to_snake_case_def by (rule snake_from_id) (rule snake_from_no_upper)

text \<open>Without the underscores it is the name in lower case: nothing is lost but case.\<close>

lemma snake_from_letters:
  "filter (\<lambda>c. c \<noteq> CHR ''_'') (snake_from prev s) =
     map (\<lambda>c. if is_upper c then lower_char c else c) (filter (\<lambda>c. c \<noteq> CHR ''_'') s)"
proof (induction prev s rule: snake_from.induct)
  case (2 prev c cs)
  have "lower_char c \<noteq> CHR ''_''" if "is_upper c"
    using lower_char_lower [OF that] by (auto simp: is_lower_def)
  then show ?case using 2 by auto
qed simp

end
