(* ===== verification/App_Data.thy ===== *)
theory App_Data imports Orm_Values begin

text \<open>
  The data access of the application (app_db.go) and the client it hands out
  (orm/client.go). The fields are guarded by \<open>dataMu\<close>, so a critical section is one step;
  \<open>ORM\<close> has two of them, with any steps of other goroutines in between. An adapter is a
  value of \<open>'a\<close>, nil is \<open>None\<close>.
\<close>

record 'a orm_client =
  cl_db :: "'a option"
  cl_dialect :: string

definition new_with_config :: "'a option \<Rightarrow> string \<Rightarrow> 'a orm_client" where
  "new_with_config adapter dialect = \<lparr>cl_db = adapter, cl_dialect = dialect\<rparr>"

definition new_client :: "'a option \<Rightarrow> 'a orm_client" where
  "new_client adapter = new_with_config adapter []"

definition client_sql :: "'a orm_client option \<Rightarrow> 'a option" where
  "client_sql c = (case c of None \<Rightarrow> None | Some c \<Rightarrow> cl_db c)"

text \<open>\<open>Table\<close>: the adapter and the table, nil for a client without an adapter.\<close>

definition client_table :: "'a orm_client option \<Rightarrow> string \<Rightarrow> ('a \<times> table) option" where
  "client_table c name =
     (case c of
        None \<Rightarrow> None
      | Some c \<Rightarrow>
          (case cl_db c of
             None \<Rightarrow> None
           | Some db \<Rightarrow> Some (db, \<lparr>tbl_dialect = cl_dialect c, tbl_name = name\<rparr>)))"

record 'a app_data =
  dt_sql :: "'a option"
  dt_dialect :: string
  dt_client :: "'a orm_client option"

definition set_sql :: "'a option \<Rightarrow> 'a app_data \<Rightarrow> 'a app_data" where
  "set_sql adapter d = d\<lparr>dt_sql := adapter, dt_client := None\<rparr>"

definition set_orm_dialect :: "string \<Rightarrow> 'a app_data \<Rightarrow> 'a app_data" where
  "set_orm_dialect dialect d = d\<lparr>dt_dialect := dialect, dt_client := None\<rparr>"

definition app_sql :: "'a app_data \<Rightarrow> 'a option" where
  "app_sql d = dt_sql d"

text \<open>
  The two critical sections of \<open>ORM\<close>: the first may return (\<open>Some\<close>), the second always does.
\<close>

definition orm_read :: "'a app_data \<Rightarrow> 'a orm_client option option" where
  "orm_read d =
     (if dt_sql d = None then Some None
      else if dt_client d \<noteq> None then Some (dt_client d)
      else None)"

definition orm_write :: "'a app_data \<Rightarrow> 'a orm_client option \<times> 'a app_data" where
  "orm_write d =
     (if dt_sql d = None then (None, d)
      else
        (let d' = (if dt_client d = None
                   then d\<lparr>dt_client := Some (new_with_config (dt_sql d) (dt_dialect d))\<rparr> else d)
         in (dt_client d', d')))"

text \<open>
  One step of any goroutine, and one whole call of \<open>ORM\<close>: it starts in one state and ends
  in another, with other steps in between if it takes the second lock.
\<close>

inductive data_step :: "'a app_data \<Rightarrow> 'a app_data \<Rightarrow> bool" where
  step_sql: "data_step d (set_sql adapter d)"
| step_dialect: "data_step d (set_orm_dialect dialect d)"
| step_orm: "data_step d (snd (orm_write d))"

inductive orm_call :: "'a app_data \<Rightarrow> 'a orm_client option \<Rightarrow> 'a app_data \<Rightarrow> bool" where
  call_fast: "orm_read d = Some r \<Longrightarrow> orm_call d r d"
| call_slow: "orm_read d = None \<Longrightarrow> data_step\<^sup>*\<^sup>* d d1 \<Longrightarrow> orm_write d1 = (r, d2) \<Longrightarrow> orm_call d r d2"

inductive_cases orm_callE: "orm_call d r d'"

definition initial_data :: "'a app_data" where
  "initial_data = \<lparr>dt_sql = None, dt_dialect = [], dt_client = None\<rparr>"

text \<open>What \<open>ORM\<close> should answer in a state, and what the cache promises.\<close>

definition current_client :: "'a app_data \<Rightarrow> 'a orm_client option" where
  "current_client d =
     (case dt_sql d of None \<Rightarrow> None | Some db \<Rightarrow> Some \<lparr>cl_db = Some db, cl_dialect = dt_dialect d\<rparr>)"

definition cache_ok :: "'a app_data \<Rightarrow> bool" where
  "cache_ok d \<longleftrightarrow> (dt_client d = None \<or> dt_client d = current_client d)"

lemma orm_write_ok: "cache_ok d \<Longrightarrow> fst (orm_write d) = current_client d \<and> cache_ok (snd (orm_write d)) \<and>
    current_client (snd (orm_write d)) = current_client d"
  by (auto simp: orm_write_def cache_ok_def current_client_def new_with_config_def Let_def split: option.split)

lemma data_step_ok: "data_step d d' \<Longrightarrow> cache_ok d \<Longrightarrow> cache_ok d'"
  by (erule data_step.cases) (auto simp: orm_write_ok, simp_all add: set_sql_def set_orm_dialect_def cache_ok_def)

lemma data_steps_ok: "data_step\<^sup>*\<^sup>* d d' \<Longrightarrow> cache_ok d \<Longrightarrow> cache_ok d'"
  by (induction rule: rtranclp_induct) (auto intro: data_step_ok)

text \<open>
  C29. \<open>ORM\<close> answers a client for the adapter and dialect that are set, never a stale one,
  in any interleaving with the setters and with other calls: the answer is the current client
  either of the state the call began in or of the state it ended in.
\<close>

theorem orm_client_is_current:
  assumes "data_step\<^sup>*\<^sup>* initial_data d" "orm_call d r d'"
  shows "r = current_client d \<or> r = current_client d'"
proof -
  have "cache_ok (initial_data :: 'a app_data)" by (simp add: initial_data_def cache_ok_def)
  then have ok: "cache_ok d" by (rule data_steps_ok [OF assms(1)])
  from assms(2) show ?thesis
  proof (rule orm_callE)
    assume "orm_read d = Some r"
    with ok show ?thesis
      by (auto simp: orm_read_def cache_ok_def current_client_def split: if_splits option.splits)
  next
    fix d1
    assume "data_step\<^sup>*\<^sup>* d d1" "orm_write d1 = (r, d')"
    with ok orm_write_ok [of d1] data_steps_ok [of d d1] show ?thesis by simp
  qed
qed

theorem orm_client_is_current_example:
  "let d = set_orm_dialect ''pg'' (set_sql (Some (1::nat)) initial_data)
   in fst (orm_write d) = current_client d \<or> fst (orm_write d) = current_client (snd (orm_write d))"
proof -
  let ?d = "set_orm_dialect ''pg'' (set_sql (Some (1::nat)) initial_data)"
  have "data_step\<^sup>*\<^sup>* initial_data ?d"
    by (rule rtranclp.rtrancl_into_rtrancl [OF r_into_rtranclp]) (rule step_sql, rule step_dialect)
  moreover have "orm_call ?d (fst (orm_write ?d)) (snd (orm_write ?d))"
    by (rule call_slow [OF _ rtranclp.rtrancl_refl]) (simp_all add: orm_read_def set_orm_dialect_def set_sql_def)
  ultimately show ?thesis unfolding Let_def by (rule orm_client_is_current)
qed

end
