(* ===== verification/Orm_Schema.thy ===== *)
theory Orm_Schema imports Go_Types Orm_Safe App_Data Db begin

text \<open>
  Package \<open>orm\<close>, schema.go: from a struct type and its tags to a \<open>CREATE TABLE\<close> statement,
  and \<open>AutoMigrate\<close>. An entity is what \<open>reflect\<close> and a type assertion see of it: its dynamic
  type (\<open>None\<close> for nil), and the answer of its \<open>TableName\<close> method when the value has one, and
  when a pointer to a zero value has one.
\<close>

record entity =
  en_type :: "gtype option"
  en_value_name :: "string option"
  en_zero_name :: "string option"

record schema_field_options =
  so_skip :: bool
  so_column :: string
  so_sql_type :: string
  so_default :: string
  so_size :: int
  so_primary_key :: bool
  so_auto_increment :: bool
  so_not_null :: bool
  so_unique :: bool

datatype tag_error = ValueRequired string | SizeRequiresValue | SizeNotPositive | UnknownTagOption string
datatype field_error = TagError tag_error | UnsupportedFieldType | UnsupportedNullType string | AutoIncrementNotInteger
datatype schema_error =
    BadField string field_error
  | BadIdentifier orm_error
  | ConflictingTables string string
  | EntityNil
  | EntityNotStruct
  | EntityAnonymous
  | NoFields string
  | ClientNotConfigured
  | SchemaDb string

section \<open>Tags\<close>

definition schema_field_tag_raw :: "field_decl \<Rightarrow> string" where
  "schema_field_tag_raw fd =
     (let raw = trim_space (tag_get fd ''orm'')
      in if raw \<noteq> [] then raw else trim_space (tag_get fd ''elgon''))"

definition schema_tag_raws :: "field_decl \<Rightarrow> string list" where
  "schema_tag_raws fd =
     (let orm = trim_space (tag_get fd ''orm''); elgon = trim_space (tag_get fd ''elgon'')
      in (if orm \<noteq> [] then [orm] else []) @
         (if elgon \<noteq> [] \<and> elgon \<noteq> tag_get fd ''orm'' then [elgon] else []))"

definition normalize_schema_tag_key :: "string \<Rightarrow> string" where
  "normalize_schema_tag_key key = filter (\<lambda>c. c \<notin> set ''_- '') (trim_space (to_lower key))"

definition no_options :: schema_field_options where
  "no_options =
     \<lparr>so_skip = False, so_column = [], so_sql_type = [], so_default = [], so_size = - 1,
      so_primary_key = False, so_auto_increment = False, so_not_null = False, so_unique = False\<rparr>"

text \<open>The \<open>switch\<close> on one token \<open>key:value\<close>; \<open>value\<close> is already trimmed, empty when missing.\<close>

definition tag_option ::
  "string \<Rightarrow> string \<Rightarrow> bool \<Rightarrow> schema_field_options \<Rightarrow> tag_error + schema_field_options" where
  "tag_option key value has_value opts =
     (let k = normalize_schema_tag_key key in
      if k = ''column'' then
        (if value = [] then Inl (ValueRequired ''column'') else Inr (opts\<lparr>so_column := value\<rparr>))
      else if k = ''type'' then
        (if value = [] then Inl (ValueRequired ''type'') else Inr (opts\<lparr>so_sql_type := value\<rparr>))
      else if k = ''default'' then
        (if value = [] then Inl (ValueRequired ''default'') else Inr (opts\<lparr>so_default := value\<rparr>))
      else if k = ''size'' then
        (if \<not> has_value then Inl SizeRequiresValue
         else
           (case parse_int64 value of
              None \<Rightarrow> Inl SizeNotPositive
            | Some n \<Rightarrow> if n \<le> 0 then Inl SizeNotPositive else Inr (opts\<lparr>so_size := n\<rparr>)))
      else if k \<in> {''pk'', ''primarykey''} then Inr (opts\<lparr>so_primary_key := True\<rparr>)
      else if k = ''autoincrement'' then Inr (opts\<lparr>so_auto_increment := True\<rparr>)
      else if k = ''notnull'' then Inr (opts\<lparr>so_not_null := True\<rparr>)
      else if k = ''unique'' then Inr (opts\<lparr>so_unique := True\<rparr>)
      else if k \<in> {''bool'', ''boolean''} then Inr (opts\<lparr>so_sql_type := ''BOOLEAN''\<rparr>)
      else if k = ''text'' then Inr (opts\<lparr>so_sql_type := ''TEXT''\<rparr>)
      else if k = ''blob'' then Inr (opts\<lparr>so_sql_type := ''BLOB''\<rparr>)
      else if k \<in> {''int'', ''integer''} then Inr (opts\<lparr>so_sql_type := ''INTEGER''\<rparr>)
      else if k = ''bigint'' then Inr (opts\<lparr>so_sql_type := ''BIGINT''\<rparr>)
      else if k \<in> {''real'', ''float''} then Inr (opts\<lparr>so_sql_type := ''REAL''\<rparr>)
      else if k \<in> {''timestamp'', ''datetime''} then Inr (opts\<lparr>so_sql_type := ''TIMESTAMP''\<rparr>)
      else Inl (UnknownTagOption key))"

fun tag_tokens :: "string list \<Rightarrow> schema_field_options \<Rightarrow> tag_error + schema_field_options" where
  "tag_tokens [] opts = Inr opts"
| "tag_tokens (token # tokens) opts =
     (let token = trim_space token in
      if token = [] then tag_tokens tokens opts
      else if token = ''-'' then tag_tokens tokens (opts\<lparr>so_skip := True\<rparr>)
      else
        (case cut_at (CHR '':'') token of
           (key, value, has_value) \<Rightarrow>
             (case tag_option key (trim_space value) has_value opts of
                Inl e \<Rightarrow> Inl e
              | Inr opts' \<Rightarrow> tag_tokens tokens opts')))"

definition parse_schema_field_tag :: "string \<Rightarrow> tag_error + schema_field_options" where
  "parse_schema_field_tag raw =
     (let tag = trim_space raw in
      if tag = [] then Inr no_options
      else if tag = ''-'' then Inr (no_options\<lparr>so_skip := True\<rparr>)
      else tag_tokens (split_on (CHR '','') tag) no_options)"

text \<open>The first table option of a tag; an alias must have a value.\<close>

fun table_tokens :: "string list \<Rightarrow> tag_error + string option" where
  "table_tokens [] = Inr None"
| "table_tokens (token # tokens) =
     (let token = trim_space token in
      if token = [] \<or> token = ''-'' then table_tokens tokens
      else
        (case cut_at (CHR '':'') token of
           (key, value, has_value) \<Rightarrow>
             (let k = normalize_schema_tag_key key; value = trim_space value in
              if k = ''table'' then
                (if value = [] then Inl (ValueRequired ''table'') else Inr (Some value))
              else if k = ''alias'' then
                (if value = [] then Inl (ValueRequired ''alias'') else table_tokens tokens)
              else table_tokens tokens)))"

definition parse_schema_table_tag :: "string \<Rightarrow> tag_error + string option" where
  "parse_schema_table_tag raw =
     (let tag = trim_space raw in
      if tag = [] \<or> tag = ''-'' then Inr None else table_tokens (split_on (CHR '','') tag))"

section \<open>The table of an entity\<close>

definition entity_struct_type :: "type_env \<Rightarrow> entity \<Rightarrow> schema_error + gtype \<times> (field_decl \<times> gtype) list" where
  "entity_struct_type env en =
     (case en_type en of
        None \<Rightarrow> Inl EntityNil
      | Some t \<Rightarrow>
          (let t = fst (unwrap_type t) in
           case underlying env t of
             StructOf fds \<Rightarrow> Inr (t, fds)
           | _ \<Rightarrow> Inl EntityNotStruct))"

fun raws_table :: "string \<Rightarrow> string list \<Rightarrow> string \<Rightarrow> schema_error + string" where
  "raws_table field [] table = Inr table"
| "raws_table field (raw # raws) table =
     (case parse_schema_table_tag raw of
        Inl e \<Rightarrow> Inl (BadField field (TagError e))
      | Inr None \<Rightarrow> raws_table field raws table
      | Inr (Some tag_table) \<Rightarrow>
          if table \<noteq> [] \<and> table \<noteq> tag_table then Inl (ConflictingTables table tag_table)
          else raws_table field raws tag_table)"

fun fields_table :: "(field_decl \<times> gtype) list \<Rightarrow> string \<Rightarrow> schema_error + string" where
  "fields_table [] table = Inr table"
| "fields_table ((fd, t) # fds) table =
     (case raws_table (fd_name fd) (schema_tag_raws fd) table of
        Inl e \<Rightarrow> Inl e
      | Inr table' \<Rightarrow> fields_table fds table')"

definition table_identifier :: "string \<Rightarrow> schema_error + string" where
  "table_identifier name =
     (case valid_identifier name ''table'' of Inl e \<Rightarrow> Inl (BadIdentifier e) | Inr n \<Rightarrow> Inr n)"

definition entity_table_tag_name :: "(field_decl \<times> gtype) list \<Rightarrow> schema_error + string option" where
  "entity_table_tag_name fds =
     (case fields_table fds [] of
        Inl e \<Rightarrow> Inl e
      | Inr table \<Rightarrow> if table = [] then Inr None else map_sum id Some (table_identifier table))"

definition entity_table_name :: "entity \<Rightarrow> gtype \<Rightarrow> (field_decl \<times> gtype) list \<Rightarrow> schema_error + string" where
  "entity_table_name en t fds =
     (case entity_table_tag_name fds of
        Inl e \<Rightarrow> Inl e
      | Inr (Some name) \<Rightarrow> Inr name
      | Inr None \<Rightarrow>
          (case en_value_name en of
             Some name \<Rightarrow> table_identifier (trim_space name)
           | None \<Rightarrow>
               (case en_zero_name en of
                  Some name \<Rightarrow> table_identifier (trim_space name)
                | None \<Rightarrow>
                    if type_name t = [] then Inl EntityAnonymous
                    else table_identifier (to_snake_case (type_name t)))))"

section \<open>Columns\<close>

definition is_sql_null_type :: "gtype \<Rightarrow> bool" where
  "is_sql_null_type t \<longleftrightarrow> type_pkg t = ''database/sql'' \<and> prefix ''Null'' (type_name t)"

definition sql_type_for_sql_null :: "gtype \<Rightarrow> field_error + string" where
  "sql_type_for_sql_null t =
     (let n = type_name t in
      if n = ''NullString'' then Inr ''TEXT''
      else if n = ''NullBool'' then Inr ''BOOLEAN''
      else if n \<in> {''NullInt16'', ''NullInt32'', ''NullByte''} then Inr ''INTEGER''
      else if n = ''NullInt64'' then Inr ''BIGINT''
      else if n = ''NullFloat64'' then Inr ''REAL''
      else if n = ''NullTime'' then Inr ''TIMESTAMP''
      else Inl (UnsupportedNullType n))"

text \<open>\<open>inferSQLType\<close>: the SQL type and the type under the pointers.\<close>

definition infer_sql_type :: "type_env \<Rightarrow> gtype \<Rightarrow> schema_field_options \<Rightarrow> field_error + string \<times> gtype" where
  "infer_sql_type env ft opts =
     (let base = fst (unwrap_type ft) in
      if is_sql_null_type base then map_sum id (\<lambda>s. (s, base)) (sql_type_for_sql_null base)
      else if so_sql_type opts \<noteq> [] then Inr (so_sql_type opts, base)
      else if base = time_type then Inr (''TIMESTAMP'', base)
      else
        (case underlying env base of
           Basic KBool \<Rightarrow> Inr (''BOOLEAN'', base)
         | Basic KInt64 \<Rightarrow> Inr (''BIGINT'', base)
         | Basic KUint64 \<Rightarrow> Inr (''BIGINT'', base)
         | Basic KFloat32 \<Rightarrow> Inr (''REAL'', base)
         | Basic KFloat64 \<Rightarrow> Inr (''REAL'', base)
         | Basic KString \<Rightarrow>
             Inr (if so_size opts > 0 then ''VARCHAR('' @ show_int (so_size opts) @ '')'' else ''TEXT'', base)
         | Basic k \<Rightarrow> Inr (''INTEGER'', base)
         | SliceOf e \<Rightarrow>
             if underlying env e = Basic KUint8 then Inr (''BLOB'', base) else Inl UnsupportedFieldType
         | _ \<Rightarrow> Inl UnsupportedFieldType))"

definition is_integer_type :: "type_env \<Rightarrow> gtype \<Rightarrow> bool" where
  "is_integer_type env t = (case underlying env t of Basic k \<Rightarrow> is_integer_kind k | _ \<Rightarrow> False)"

definition normalize_dialect :: "string \<Rightarrow> string" where
  "normalize_dialect dialect = to_lower (trim_space dialect)"

definition column_parts :: "string \<Rightarrow> string \<Rightarrow> schema_field_options \<Rightarrow> bool \<Rightarrow> string list" where
  "column_parts column sql_type opts mysql_auto =
     [column, sql_type] @
     (if so_primary_key opts then [''PRIMARY KEY''] else []) @
     (if so_not_null opts \<or> so_primary_key opts then [''NOT NULL''] else []) @
     (if so_unique opts \<and> \<not> so_primary_key opts then [''UNIQUE''] else []) @
     (if so_default opts \<noteq> [] then [''DEFAULT '' @ so_default opts] else []) @
     (if mysql_auto then [''AUTO_INCREMENT''] else [])"

definition build_column_def ::
  "type_env \<Rightarrow> string \<Rightarrow> string \<Rightarrow> gtype \<Rightarrow> schema_field_options \<Rightarrow> string \<Rightarrow> field_error + string" where
  "build_column_def env column sql_type base opts dialect =
     (let dialect = normalize_dialect dialect in
      if so_auto_increment opts then
        (if \<not> is_integer_type env base then Inl AutoIncrementNotInteger
         else if dialect = ''sqlite'' \<or> dialect = ''sqlite3'' then
           Inr (join '' ''
             ([column, ''INTEGER'', ''PRIMARY KEY'', ''AUTOINCREMENT''] @
              (if so_unique opts then [''UNIQUE''] else []) @
              (if so_default opts \<noteq> [] then [''DEFAULT '' @ so_default opts] else [])))
         else
           (let opts = opts\<lparr>so_primary_key := True, so_not_null := True\<rparr>;
                sql_type = (if dialect = ''postgres'' \<or> dialect = ''pg'' then ''BIGSERIAL'' else sql_type)
            in Inr (join '' '' (column_parts column sql_type opts (dialect = ''mysql'')))))
      else Inr (join '' '' (column_parts column sql_type opts False)))"

section \<open>The statement\<close>

text \<open>One turn of the loop over the fields: nothing for a field that is no column.\<close>

definition column_of :: "type_env \<Rightarrow> string \<Rightarrow> field_decl \<times> gtype \<Rightarrow> schema_error + string option" where
  "column_of env dialect f =
     (case f of (fd, ft) \<Rightarrow>
        if fd_pkg_path fd \<noteq> [] \<or> fd_anonymous fd then Inr None
        else
          (case parse_schema_field_tag (schema_field_tag_raw fd) of
             Inl e \<Rightarrow> Inl (BadField (fd_name fd) (TagError e))
           | Inr opts \<Rightarrow>
               if so_skip opts then Inr None
               else
                 (case valid_identifier
                     (if so_column opts = [] then to_snake_case (fd_name fd) else so_column opts) ''column'' of
                    Inl e \<Rightarrow> Inl (BadIdentifier e)
                  | Inr column \<Rightarrow>
                      (case infer_sql_type env ft opts of
                         Inl e \<Rightarrow> Inl (BadField (fd_name fd) e)
                       | Inr (sql_type, base) \<Rightarrow>
                           (case build_column_def env column sql_type base opts dialect of
                              Inl e \<Rightarrow> Inl (BadField (fd_name fd) e)
                            | Inr col_def \<Rightarrow> Inr (Some col_def))))))"

fun columns_of :: "type_env \<Rightarrow> string \<Rightarrow> (field_decl \<times> gtype) list \<Rightarrow> schema_error + string list" where
  "columns_of env dialect [] = Inr []"
| "columns_of env dialect (f # fs) =
     (case column_of env dialect f of
        Inl e \<Rightarrow> Inl e
      | Inr c \<Rightarrow>
          (case columns_of env dialect fs of
             Inl e \<Rightarrow> Inl e
           | Inr cs \<Rightarrow> Inr ((case c of None \<Rightarrow> cs | Some d \<Rightarrow> d # cs))))"

definition create_table_text :: "string \<Rightarrow> string list \<Rightarrow> string" where
  "create_table_text table cols =
     ''CREATE TABLE IF NOT EXISTS '' @ table @ '' ('' @ join '', '' cols @ '')''"

definition build_create_table :: "type_env \<Rightarrow> entity \<Rightarrow> string \<Rightarrow> string \<Rightarrow> schema_error + string" where
  "build_create_table env en dialect table_override =
     (case entity_struct_type env en of
        Inl e \<Rightarrow> Inl e
      | Inr (t, fds) \<Rightarrow>
          (let table = trim_space table_override in
           case (if table = [] then entity_table_name en t fds else table_identifier table) of
             Inl e \<Rightarrow> Inl e
           | Inr table \<Rightarrow>
               (case columns_of env dialect fds of
                  Inl e \<Rightarrow> Inl e
                | Inr cols \<Rightarrow>
                    if cols = [] then Inl (NoFields (type_name t)) else Inr (create_table_text table cols))))"

definition build_create_table_sql :: "type_env \<Rightarrow> entity \<Rightarrow> string \<Rightarrow> schema_error + string" where
  "build_create_table_sql env en dialect = build_create_table env en dialect []"

definition build_create_table_sql_for_table ::
  "type_env \<Rightarrow> string \<Rightarrow> entity \<Rightarrow> string \<Rightarrow> schema_error + string" where
  "build_create_table_sql_for_table env table en dialect = build_create_table env en dialect table"

section \<open>Migrating\<close>

fun migrate_loop ::
  "type_env \<Rightarrow> string \<Rightarrow> 'd exec_querier \<Rightarrow> entity list \<Rightarrow> 'd \<Rightarrow> schema_error option \<times> 'd" where
  "migrate_loop env dialect eq [] d = (None, d)"
| "migrate_loop env dialect eq (en # ens) d =
     (case build_create_table_sql env en dialect of
        Inl e \<Rightarrow> (Some e, d)
      | Inr stmt \<Rightarrow>
          (case eq_exec eq stmt [] d of
             (Inl e, d') \<Rightarrow> (Some (SchemaDb e), d')
           | (Inr r, d') \<Rightarrow> migrate_loop env dialect eq ens d'))"

definition auto_migrate ::
  "type_env \<Rightarrow> 'd adapter orm_client option \<Rightarrow> entity list \<Rightarrow> 'd \<Rightarrow> schema_error option \<times> 'd" where
  "auto_migrate env client ens d =
     (case client of
        None \<Rightarrow> (Some ClientNotConfigured, d)
      | Some c \<Rightarrow>
          (case cl_db c of
             None \<Rightarrow> (Some ClientNotConfigured, d)
           | Some a \<Rightarrow>
               if ens = [] then (None, d)
               else
                 (case ad_begin a d of
                    (Inr True, d1) \<Rightarrow>
                      (case migrate_loop env (cl_dialect c) (ad_tx a) ens d1 of
                         (Some e, d2) \<Rightarrow> (Some e, snd (ad_rollback a d2))
                       | (None, d2) \<Rightarrow>
                           (case ad_commit a d2 of (err, d3) \<Rightarrow> (map_option SchemaDb err, d3)))
                  | (r, d1) \<Rightarrow> migrate_loop env (cl_dialect c) (ad_db a) ens d1)))"

end
