(* ===== verification/Orm_Schema_Theorems.thy ===== *)
theory Orm_Schema_Theorems imports Orm_Schema begin

text \<open>
  Package \<open>orm\<close>, schema.go: the shape and the alphabet of the statements, which tags break
  them, and migrations that are all or nothing.
\<close>

section \<open>Columns\<close>

lemma column_def_name:
  assumes "build_column_def env column sql_type base opts dialect = Inr d"
  shows "\<exists>rest. d = column @ '' '' @ rest"
  using assms
  by (auto simp: build_column_def_def Let_def column_parts_def join_Cons split: if_splits)

lemma column_of_name:
  assumes "column_of env dialect f = Inr (Some d)"
  shows "\<exists>name rest. ident_match name \<and> d = name @ '' '' @ rest"
proof -
  obtain src column sql_type base opts where "valid_identifier src ''column'' = Inr column"
    and b: "build_column_def env column sql_type base opts dialect = Inr d"
    using assms unfolding column_of_def by (auto split: prod.splits if_splits sum.splits)
  then have "ident_match column" using valid_identifierD by blast
  then show ?thesis using column_def_name [OF b] by blast
qed

lemma columns_of_each:
  "columns_of env dialect fs = Inr cols \<Longrightarrow>
     list_all2 (\<lambda>f c. column_of env dialect f = Inr (Some c))
       (filter (\<lambda>f. column_of env dialect f \<noteq> Inr None) fs) cols"
  by (induction fs arbitrary: cols) (auto split: sum.splits option.splits)

lemma columns_of_mem:
  "columns_of env dialect fs = Inr cols \<Longrightarrow> d \<in> set cols \<Longrightarrow>
     \<exists>f. f \<in> set fs \<and> column_of env dialect f = Inr (Some d)"
  by (induction fs arbitrary: cols) (fastforce split: sum.splits option.splits)+

lemma table_identifier_ident: "table_identifier name = Inr n \<Longrightarrow> ident_match n"
  by (auto simp: table_identifier_def split: sum.splits dest: valid_identifierD)

lemma entity_table_name_ident:
  assumes "entity_table_name en t fds = Inr n"
  shows "ident_match n"
proof -
  have "ident_match m" if "entity_table_tag_name fds = Inr (Some m)" for m
    using that table_identifier_ident
    by (cases "fields_table fds []"; cases "table_identifier (projr (fields_table fds []))")
      (auto simp: entity_table_tag_name_def split: if_splits)
  with assms show ?thesis
    by (auto simp: entity_table_name_def table_identifier_ident split: sum.splits option.splits if_splits)
qed

text \<open>What a statement that was built is made of.\<close>

lemma build_create_tableE:
  assumes "build_create_table env en dialect table_override = Inr stmt"
  obtains t fds table cols where "entity_struct_type env en = Inr (t, fds)"
    "ident_match table" "columns_of env dialect fds = Inr cols" "cols \<noteq> []"
    "stmt = create_table_text table cols"
  using assms unfolding build_create_table_def Let_def
  by (auto split: sum.splits prod.splits if_splits dest: entity_table_name_ident table_identifier_ident)

text \<open>
  C32. A statement that is built names a valid table and has one definition per field that is a
  column, in the order of the struct, each led by a valid column name; a struct without
  columns has no statement.
\<close>

theorem table_statement_columns:
  assumes "build_create_table env en dialect table_override = Inr stmt"
  shows "\<exists>t fds table cols. entity_struct_type env en = Inr (t, fds) \<and> ident_match table \<and> cols \<noteq> [] \<and>
    stmt = ''CREATE TABLE IF NOT EXISTS '' @ table @ '' ('' @ join '', '' cols @ '')'' \<and>
    list_all2 (\<lambda>f c. column_of env dialect f = Inr (Some c) \<and> (\<exists>name rest. ident_match name \<and> c = name @ '' '' @ rest))
      (filter (\<lambda>f. column_of env dialect f \<noteq> Inr None) fds) cols"
proof (rule build_create_tableE [OF assms])
  fix t fds table cols
  assume "entity_struct_type env en = Inr (t, fds)" "ident_match table" "cols \<noteq> []"
    and "columns_of env dialect fds = Inr cols" "stmt = create_table_text table cols"
  moreover have "list_all2 (\<lambda>f c. column_of env dialect f = Inr (Some c) \<and>
      (\<exists>name rest. ident_match name \<and> c = name @ '' '' @ rest))
      (filter (\<lambda>f. column_of env dialect f \<noteq> Inr None) fds) cols"
    by (rule list_all2_mono [OF columns_of_each [OF calculation(4)]]) (use column_of_name in blast)
  ultimately show ?thesis unfolding create_table_text_def by blast
qed

section \<open>Examples\<close>

definition tagged :: "string \<Rightarrow> string \<Rightarrow> field_decl" where
  "tagged name orm =
     \<lparr>fd_name = name, fd_pkg_path = [], fd_anonymous = False, fd_tag = [(''orm'', orm)]\<rparr>"

definition user_env :: type_env where
  "user_env pkg name =
     (if (pkg, name) = (''models'', ''User'') then
        Some (StructOf
          [(tagged ''ID'' ''pk,autoincrement'', Basic KInt64),
           (tagged ''Email'' ''size:255,notnull,unique'', Basic KString),
           (tagged ''Nickname'' [], Declared ''database/sql'' ''NullString''),
           (tagged ''CreatedAt'' ''default:CURRENT_TIMESTAMP'', time_type),
           (tagged ''Ignored'' ''-'', Basic KString)])
      else None)"

definition user_entity :: entity where
  "user_entity = \<lparr>en_type = Some (Pointer (Declared ''models'' ''User'')), en_value_name = None, en_zero_name = None\<rparr>"

lemma user_statement:
  "build_create_table user_env user_entity ''sqlite'' [] = Inr
     (''CREATE TABLE IF NOT EXISTS user (id INTEGER PRIMARY KEY AUTOINCREMENT, '' @
      ''email VARCHAR(255) NOT NULL UNIQUE, nickname TEXT, '' @
      ''created_at TIMESTAMP DEFAULT CURRENT_TIMESTAMP)'')"
  by code_simp

theorem table_statement_columns_example:
  "\<exists>t fds. entity_struct_type user_env user_entity = Inr (t, fds)"
  using table_statement_columns [OF user_statement] by blast

section \<open>Alphabet\<close>

lemma sql_safe_sql_null: "sql_type_for_sql_null t = Inr s \<Longrightarrow> sql_safe s"
  by (auto simp: sql_type_for_sql_null_def Let_def split: if_splits)

lemma sql_safe_show_int: "i > 0 \<Longrightarrow> sql_safe (show_int i)"
  by (simp add: show_int_def sql_safe_show_nat)

lemma infer_sql_type_safe:
  assumes "infer_sql_type env ft opts = Inr (s, base)" "sql_safe (so_sql_type opts)"
  shows "sql_safe s"
  using assms unfolding infer_sql_type_def Let_def
  by (auto simp: sql_safe_show_int map_sum_def elim: sql_safe_sql_null
      split: if_splits sum.splits gtype.splits basic_kind.splits)

lemma column_parts_safe:
  assumes "sql_safe column" "sql_safe sql_type" "sql_safe (so_default opts)"
  shows "sql_safe (join '' '' (column_parts column sql_type opts mysql_auto))"
  using assms by (intro sql_safe_join) (auto simp: column_parts_def)

lemma build_column_def_safe:
  assumes "build_column_def env column sql_type base opts dialect = Inr d"
    and "sql_safe column" "sql_safe sql_type" "sql_safe (so_default opts)"
  shows "sql_safe d"
proof -
  have "sql_safe (join '' '' ([column, ''INTEGER'', ''PRIMARY KEY'', ''AUTOINCREMENT''] @
      (if so_unique opts then [''UNIQUE''] else []) @
      (if so_default opts \<noteq> [] then [''DEFAULT '' @ so_default opts] else [])))"
    using assms by (intro sql_safe_join) auto
  with assms show ?thesis
    by (auto simp: build_column_def_def Let_def intro!: column_parts_safe simp del: append.simps join.simps
        split: if_splits)
qed

lemma column_of_safe:
  assumes "column_of env dialect f = Inr (Some d)"
    and "\<And>opts. parse_schema_field_tag (schema_field_tag_raw (fst f)) = Inr opts \<Longrightarrow>
      sql_safe (so_sql_type opts) \<and> sql_safe (so_default opts)"
  shows "sql_safe d"
proof -
  obtain src column sql_type base opts where
    o: "parse_schema_field_tag (schema_field_tag_raw (fst f)) = Inr opts"
    and v: "valid_identifier src ''column'' = Inr column"
    and i: "infer_sql_type env (snd f) opts = Inr (sql_type, base)"
    and b: "build_column_def env column sql_type base opts dialect = Inr d"
    using assms(1) unfolding column_of_def by (auto split: prod.splits if_splits sum.splits)
  have "sql_safe column" using v by (blast dest: valid_identifierD intro: sql_safe_ident)
  moreover have "sql_safe sql_type" using infer_sql_type_safe [OF i] assms(2) [OF o] by blast
  ultimately show ?thesis using build_column_def_safe [OF b] assms(2) [OF o] by blast
qed

text \<open>
  C33. Nothing but the text of \<open>type\<close> and \<open>default\<close> options can bring a semicolon, a comment or
  a quote into the statement: when these stay in the safe alphabet, so does the whole
  statement, whatever the names and the other options are.
\<close>

theorem table_statement_is_safe:
  assumes "build_create_table env en dialect table_override = Inr stmt"
    and "entity_struct_type env en = Inr (t, fds)"
    and "\<And>fd ft opts. (fd, ft) \<in> set fds \<Longrightarrow> parse_schema_field_tag (schema_field_tag_raw fd) = Inr opts \<Longrightarrow>
      sql_safe (so_sql_type opts) \<and> sql_safe (so_default opts)"
  shows "sql_safe stmt"
proof (rule build_create_tableE [OF assms(1)])
  fix t' fds' table cols
  assume a: "entity_struct_type env en = Inr (t', fds')" "ident_match table" "stmt = create_table_text table cols"
    and c: "columns_of env dialect fds' = Inr cols"
  have "sql_safe d" if d: "d \<in> set cols" for d
  proof -
    obtain f where f: "f \<in> set fds'" "column_of env dialect f = Inr (Some d)"
      using columns_of_mem [OF c d] by blast
    show ?thesis
    proof (rule column_of_safe [OF f(2)])
      fix opts assume "parse_schema_field_tag (schema_field_tag_raw (fst f)) = Inr opts"
      then show "sql_safe (so_sql_type opts) \<and> sql_safe (so_default opts)"
        using assms(2) a(1) f(1) by (intro assms(3) [of "fst f" "snd f"]) auto
    qed
  qed
  then have "sql_safe (join '', '' cols)" by (intro sql_safe_join) auto
  then show ?thesis using sql_safe_ident [OF a(2)] unfolding a(3) create_table_text_def by simp
qed

definition plain_options :: "field_decl \<Rightarrow> bool" where
  "plain_options fd =
     (case parse_schema_field_tag (schema_field_tag_raw fd) of
        Inl e \<Rightarrow> True
      | Inr opts \<Rightarrow> so_sql_type opts = [] \<and> so_default opts \<in> {[], ''CURRENT_TIMESTAMP''})"

theorem table_statement_is_safe_example:
  "sql_safe (''CREATE TABLE IF NOT EXISTS user (id INTEGER PRIMARY KEY AUTOINCREMENT, '' @
      ''email VARCHAR(255) NOT NULL UNIQUE, nickname TEXT, '' @
      ''created_at TIMESTAMP DEFAULT CURRENT_TIMESTAMP)'')"
proof (rule table_statement_is_safe [OF user_statement])
  let ?fds = "[(tagged ''ID'' ''pk,autoincrement'', Basic KInt64),
     (tagged ''Email'' ''size:255,notnull,unique'', Basic KString),
     (tagged ''Nickname'' [], Declared ''database/sql'' ''NullString''),
     (tagged ''CreatedAt'' ''default:CURRENT_TIMESTAMP'', time_type),
     (tagged ''Ignored'' ''-'', Basic KString)]"
  show "entity_struct_type user_env user_entity = Inr (Declared ''models'' ''User'', ?fds)"
    by (simp add: entity_struct_type_def user_entity_def user_env_def underlying_def)
  have "list_all plain_options (map fst ?fds)" by code_simp
  then have all: "\<forall>f\<in>set ?fds. plain_options (fst f)" unfolding list_all_iff set_map by blast
  fix fd ft opts
  assume "(fd, ft) \<in> set ?fds" "parse_schema_field_tag (schema_field_tag_raw fd) = Inr opts"
  then show "sql_safe (so_sql_type opts) \<and> sql_safe (so_default opts)"
    using all unfolding plain_options_def by fastforce
qed

section \<open>Table tags\<close>

lemma unknown_table_option:
  "normalize_schema_tag_key key = ''table'' \<Longrightarrow> tag_option key v has opts = Inl (UnknownTagOption key)"
  by (simp add: tag_option_def Let_def)

lemma table_token_fails:
  "table_tokens tokens = Inr (Some table) \<Longrightarrow> \<exists>e. tag_tokens tokens opts = Inl e"
proof (induction tokens arbitrary: opts)
  case (Cons token tokens)
  obtain key v has where c: "cut_at (CHR '':'') (trim_space token) = (key, v, has)" by (rule prod_cases3)
  show ?case
  proof (cases "trim_space token = [] \<or> trim_space token = ''-''")
    case True
    then show ?thesis using Cons by auto
  next
    case False
    show ?thesis
    proof (cases "normalize_schema_tag_key key = ''table''")
      case True
      then show ?thesis using False c unknown_table_option [OF True] by simp
    next
      case no_table: False
      then have "table_tokens tokens = Inr (Some table)"
        using Cons.prems False c by (auto simp: Let_def split: if_splits)
      then show ?thesis using Cons.IH False c by (auto split: sum.split)
    qed
  qed
qed simp

lemma table_tag_fails:
  "parse_schema_table_tag raw = Inr (Some table) \<Longrightarrow> \<exists>e. parse_schema_field_tag raw = Inl e"
  by (auto simp: parse_schema_table_tag_def parse_schema_field_tag_def Let_def table_token_fails split: if_splits)

lemma columns_of_fails: "f \<in> set fs \<Longrightarrow> column_of env dialect f = Inl e \<Longrightarrow> \<exists>e'. columns_of env dialect fs = Inl e'"
  by (induction fs) (auto split: sum.splits)

text \<open>
  A table tag cannot stand on a field that is a column: the tag names the table, and the
  same tag, read again for the column, is refused as unknown, so no statement is ever built for
  the struct, in no dialect and not even with an explicit table name.
\<close>

theorem table_tag_breaks_its_column:
  assumes "entity_struct_type env en = Inr (t, fds)" "(fd, ft) \<in> set fds"
    and "fd_pkg_path fd = []" "\<not> fd_anonymous fd"
    and "parse_schema_table_tag (schema_field_tag_raw fd) = Inr (Some table)"
  shows "\<exists>e. build_create_table env en dialect table_override = Inl e"
proof -
  obtain e where "column_of env dialect (fd, ft) = Inl e"
    using table_tag_fails [OF assms(5)] assms(3,4) by (auto simp: column_of_def)
  then obtain e' where "columns_of env dialect fds = Inl e'" using columns_of_fails [OF assms(2)] by blast
  then show ?thesis using assms(1)
    by (auto simp: build_create_table_def Let_def split: sum.split)
qed

theorem table_tag_breaks_its_column_example:
  "\<exists>e. build_create_table user_env
     \<lparr>en_type = Some (StructOf [(tagged ''ID'' ''table:todos,pk'', Basic KInt64)]),
      en_value_name = None, en_zero_name = None\<rparr> ''pg'' ''todos'' = Inl e"
proof (rule table_tag_breaks_its_column)
  show "entity_struct_type user_env \<lparr>en_type = Some (StructOf [(tagged ''ID'' ''table:todos,pk'', Basic KInt64)]),
      en_value_name = None, en_zero_name = None\<rparr>
    = Inr (StructOf [(tagged ''ID'' ''table:todos,pk'', Basic KInt64)], [(tagged ''ID'' ''table:todos,pk'', Basic KInt64)])"
    by (simp add: entity_struct_type_def underlying_def)
  show "parse_schema_table_tag (schema_field_tag_raw (tagged ''ID'' ''table:todos,pk'')) = Inr (Some ''todos'')"
    by code_simp
qed (simp_all add: tagged_def)

section \<open>Migrating\<close>

lemma migrate_loop_view:
  "tx_isolated a view \<Longrightarrow> migrate_loop env dialect (ad_tx a) ens d = (r, d') \<Longrightarrow> view d' = view d"
proof (induction ens arbitrary: d)
  case (Cons en ens)
  then show ?case by (auto dest: tx_isolatedD(2) split: sum.splits prod.splits)
qed simp

text \<open>The statements of a run that ends without an error, executed one after the other.\<close>

fun exec_all :: "'d exec_querier \<Rightarrow> string list \<Rightarrow> 'd \<Rightarrow> 'd" where
  "exec_all eq [] d = d"
| "exec_all eq (q # qs) d = exec_all eq qs (snd (eq_exec eq q [] d))"

lemma migrate_loop_done:
  "migrate_loop env dialect eq ens d = (None, d') \<Longrightarrow>
     \<exists>stmts. list_all2 (\<lambda>en s. build_create_table_sql env en dialect = Inr s) ens stmts \<and> d' = exec_all eq stmts d"
proof (induction ens arbitrary: d)
  case (Cons en ens)
  then obtain s r d1 where s: "build_create_table_sql env en dialect = Inr s" "eq_exec eq s [] d = (Inr r, d1)"
    "migrate_loop env dialect eq ens d1 = (None, d')"
    by (auto split: sum.splits prod.splits)
  from Cons.IH [OF s(3)] obtain stmts where
    "list_all2 (\<lambda>en s. build_create_table_sql env en dialect = Inr s) ens stmts" "d' = exec_all eq stmts d1"
    by blast
  with s show ?case by (intro exI [of _ "s # stmts"]) simp
qed simp

text \<open>
  \<open>AutoMigrate\<close> is all or nothing on a database with transactions: after an error, of a tag,
  a type or the database, nothing of it is committed; without one, one statement per entity ran
  inside the transaction, in the order of the arguments, before the commit.
\<close>

theorem auto_migrate_all_or_nothing:
  assumes "tx_isolated a view" "ad_begin a d = (Inr True, d1)" "ens \<noteq> []"
    and "auto_migrate env (Some (new_with_config (Some a) dialect)) ens d = (err, d')"
  shows "case err of
      Some e \<Rightarrow> view d' = view d
    | None \<Rightarrow> \<exists>stmts. list_all2 (\<lambda>en s. build_create_table_sql env en dialect = Inr s) ens stmts \<and>
        ad_commit a (exec_all (ad_tx a) stmts d1) = (None, d')"
proof -
  have b: "view d1 = view d" by (rule tx_isolatedD(1) [OF assms(1,2)])
  obtain r d2 where l: "migrate_loop env dialect (ad_tx a) ens d1 = (r, d2)" by (rule prod.exhaust)
  have v: "view d2 = view d1" by (rule migrate_loop_view [OF assms(1) l])
  show ?thesis
  proof (cases r)
    case (Some e)
    obtain x d3 where "ad_rollback a d2 = (x, d3)" by (rule prod.exhaust)
    then show ?thesis using tx_isolatedD(4) [OF assms(1)] assms(2,3,4) l Some b v
      by (auto simp: auto_migrate_def new_with_config_def)
  next
    case None
    obtain x d3 where c: "ad_commit a d2 = (x, d3)" by (rule prod.exhaust)
    then have e: "err = map_option SchemaDb x" "d' = d3"
      using assms(2,3,4) l None by (auto simp: auto_migrate_def new_with_config_def)
    show ?thesis
    proof (cases x)
      case None
      then show ?thesis using migrate_loop_done [of env dialect "ad_tx a" ens d1 d2] l \<open>r = None\<close> c e by auto
    next
      case (Some y)
      then show ?thesis using tx_isolatedD(5) [OF assms(1), of d2] c e b v by auto
    qed
  qed
qed

definition bad_entity :: entity where
  "bad_entity = \<lparr>en_type = Some (StructOf [(tagged ''ID'' ''pkey'', Basic KInt64)]),
     en_value_name = Some ''bad'', en_zero_name = None\<rparr>"

theorem auto_migrate_all_or_nothing_example:
  "fst (snd (auto_migrate user_env (Some (new_with_config (Some (log_adapter (\<lambda>q args. False)
     (\<lambda>q args. \<lparr>rows_columns = None, rows_data = [], rows_err = None\<rparr>))) ''sqlite''))
     [user_entity, bad_entity] ([], []))) = []"
proof -
  let ?a = "log_adapter (\<lambda>q args. False) (\<lambda>q args. \<lparr>rows_columns = None, rows_data = [], rows_err = None\<rparr>)"
  let ?r = "auto_migrate user_env (Some (new_with_config (Some ?a) ''sqlite'')) [user_entity, bad_entity] ([], [])"
  have b: "ad_begin ?a ([], []) = (Inr True, ([], []))" by (simp add: log_adapter_def)
  have "fst ?r \<noteq> None" by code_simp
  with auto_migrate_all_or_nothing [OF log_adapter_isolated b, of "[user_entity, bad_entity]" user_env "''sqlite''" "fst ?r" "snd ?r"]
  show ?thesis by auto
qed

end
