(* ===== verification/Router.thy ===== *)
theory Router imports Go_Prelude begin

text \<open>
  The router of the web framework (router.go, route.go): one tree of path segments per HTTP
  method. Nodes are values here and \<open>add\<close> rebuilds the path from the root to the node it
  changes, where the code follows pointers and changes the nodes in place; no node has two
  parents, so the trees are the same. The handler of a route is a parameter \<open>'h\<close>.
\<close>

section \<open>Segments\<close>

datatype segment_kind = SegmentStatic | SegmentParam | SegmentWildcard

record route_segment =
  seg_kind :: segment_kind
  seg_value :: string

definition split_path :: "string \<Rightarrow> string list" where
  "split_path path =
     (let clean = trim_char (CHR ''/'') path
      in if clean = [] then [] else split_on (CHR ''/'') clean)"

definition parse_segment :: "string \<Rightarrow> route_segment" where
  "parse_segment p =
     (if p \<noteq> [] \<and> hd p = CHR '':'' \<and> length p > 1
      then \<lparr>seg_kind = SegmentParam, seg_value = drop 1 p\<rparr>
      else if p \<noteq> [] \<and> hd p = CHR ''*'' \<and> length p > 1
      then \<lparr>seg_kind = SegmentWildcard, seg_value = drop 1 p\<rparr>
      else \<lparr>seg_kind = SegmentStatic, seg_value = p\<rparr>)"

definition parse_segments :: "string \<Rightarrow> route_segment list" where
  "parse_segments path = map parse_segment (split_path path)"

section \<open>The tree\<close>

record 'h route_entry =
  re_handler :: 'h
  re_method :: string
  re_path :: string

text \<open>The name of a parameter or wildcard is meaningful when the child is there.\<close>

datatype 'h node = Node
  (static: "string \<Rightarrow> 'h node option")
  (param_child: "'h node option") (param_name: string)
  (wildcard_child: "'h node option") (wildcard_name: string)
  (route: "'h route_entry option")

definition new_node :: "'h node" where
  "new_node = Node Map.empty None [] None [] None"

text \<open>
  The loop of \<open>add\<close> over the segments, and the entry at its end. The second result tells
  whether it panicked; the nodes made before the panic stay in the tree.
\<close>

fun add_segments :: "'h route_entry \<Rightarrow> route_segment list \<Rightarrow> 'h node \<Rightarrow> 'h node \<times> bool" where
  "add_segments e [] (Node st pc pn wc wn rt) = (Node st pc pn wc wn (Some e), False)"
| "add_segments e (seg # segs) (Node st pc pn wc wn rt) =
     (case seg_kind seg of
        SegmentStatic \<Rightarrow>
          (let nxt = (case st (seg_value seg) of Some nxt \<Rightarrow> nxt | None \<Rightarrow> new_node);
               (nxt', panicked) = add_segments e segs nxt
           in (Node (st(seg_value seg \<mapsto> nxt')) pc pn wc wn rt, panicked))
      | SegmentParam \<Rightarrow>
          (let (child, name) = (case pc of Some child \<Rightarrow> (child, pn) | None \<Rightarrow> (new_node, seg_value seg));
               (child', panicked) = add_segments e segs child
           in (Node st (Some child') name wc wn rt, panicked))
      | SegmentWildcard \<Rightarrow>
          (let (child, name) = (case wc of Some child \<Rightarrow> (child, wn) | None \<Rightarrow> (new_node, seg_value seg))
           in if segs \<noteq> [] then (Node st pc pn (Some child) name rt, True)
              else (let (child', panicked) = add_segments e segs child
                    in (Node st pc pn (Some child') name rt, panicked))))"

type_synonym 'h router = "string \<Rightarrow> 'h node option"

definition new_router :: "'h router" where
  "new_router = Map.empty"

definition router_add :: "'h router \<Rightarrow> string \<Rightarrow> string \<Rightarrow> 'h \<Rightarrow> 'h router \<times> bool" where
  "router_add r method path h =
     (let root = (case r method of Some root \<Rightarrow> root | None \<Rightarrow> new_node);
          (root', panicked) =
            add_segments \<lparr>re_handler = h, re_method = method, re_path = path\<rparr> (parse_segments path) root
      in (r(method \<mapsto> root'), panicked))"

type_synonym route_param = "string \<times> string"

text \<open>The loop of \<open>find\<close>: never back to a node left, the first kind of child that fits.\<close>

fun find_parts ::
  "'h node \<Rightarrow> string list \<Rightarrow> route_param list \<Rightarrow> 'h route_entry option \<times> route_param list" where
  "find_parts n [] params = (route n, params)"
| "find_parts n (part # parts) params =
     (case static n part of
        Some nxt \<Rightarrow> find_parts nxt parts params
      | None \<Rightarrow>
          (case param_child n of
             Some child \<Rightarrow> find_parts child parts (params @ [(param_name n, part)])
           | None \<Rightarrow>
               (case wildcard_child n of
                  Some child \<Rightarrow>
                    (route child, params @ [(wildcard_name n, join ''/'' (part # parts))])
                | None \<Rightarrow> (None, params))))"

text \<open>\<open>find\<close>; the third result of the code says whether the first is there.\<close>

definition router_find ::
  "'h router \<Rightarrow> string \<Rightarrow> string \<Rightarrow> 'h route_entry option \<times> route_param list" where
  "router_find r method path =
     (case r method of
        None \<Rightarrow> (None, [])
      | Some root \<Rightarrow>
          if path = ''/'' \<or> path = [] then (route root, [])
          else find_parts root (split_path path) [])"

section \<open>Specification: matching against the list of registrations\<close>

text \<open>
  What a path finds, said without a tree: the registrations of a method in the order they
  were made, each with its segments. Each part of the path narrows the list: to the
  registrations with this very segment if there are any, else to those with a parameter
  here, else to those with a wildcard, which takes the rest of the path. The parameter has
  the name the first of them gave it, and the last one with nothing left is the route.
\<close>

type_synonym 'h registration = "route_segment list \<times> 'h route_entry"

fun after :: "(route_segment \<Rightarrow> bool) \<Rightarrow> 'h registration list \<Rightarrow> 'h registration list" where
  "after P [] = []"
| "after P (([], e) # rs) = after P rs"
| "after P ((seg # segs, e) # rs) = (if P seg then (segs, e) # after P rs else after P rs)"

fun first_name :: "(route_segment \<Rightarrow> bool) \<Rightarrow> 'h registration list \<Rightarrow> string" where
  "first_name P [] = []"
| "first_name P (([], e) # rs) = first_name P rs"
| "first_name P ((seg # segs, e) # rs) = (if P seg then seg_value seg else first_name P rs)"

definition is_static :: "string \<Rightarrow> route_segment \<Rightarrow> bool" where
  "is_static p seg \<longleftrightarrow> seg_kind seg = SegmentStatic \<and> seg_value seg = p"

definition is_param :: "route_segment \<Rightarrow> bool" where
  "is_param seg \<longleftrightarrow> seg_kind seg = SegmentParam"

definition is_wildcard :: "route_segment \<Rightarrow> bool" where
  "is_wildcard seg \<longleftrightarrow> seg_kind seg = SegmentWildcard"

definition last_route :: "'h registration list \<Rightarrow> 'h route_entry option" where
  "last_route rs =
     (let ended = filter (\<lambda>(segs, e). segs = []) rs
      in if ended = [] then None else Some (snd (last ended)))"

fun match_parts ::
  "'h registration list \<Rightarrow> string list \<Rightarrow> route_param list \<Rightarrow> 'h route_entry option \<times> route_param list" where
  "match_parts rs [] params = (last_route rs, params)"
| "match_parts rs (part # parts) params =
     (if after (is_static part) rs \<noteq> [] then match_parts (after (is_static part) rs) parts params
      else if after is_param rs \<noteq> []
      then match_parts (after is_param rs) parts (params @ [(first_name is_param rs, part)])
      else if after is_wildcard rs \<noteq> []
      then (last_route (after is_wildcard rs),
            params @ [(first_name is_wildcard rs, join ''/'' (part # parts))])
      else (None, params))"

text \<open>A pattern \<open>add\<close> accepts: no segment behind a wildcard.\<close>

fun wildcard_last :: "route_segment list \<Rightarrow> bool" where
  "wildcard_last [] \<longleftrightarrow> True"
| "wildcard_last (seg # segs) \<longleftrightarrow> (seg_kind seg = SegmentWildcard \<longrightarrow> segs = []) \<and> wildcard_last segs"

text \<open>The tree of a list of registrations.\<close>

definition tree_of :: "'h registration list \<Rightarrow> 'h node" where
  "tree_of rs = fold (\<lambda>(segs, e) n. fst (add_segments e segs n)) rs new_node"

section \<open>The tree is the list\<close>

text \<open>The three cases of the loop, by kind, as one equation each.\<close>

lemma add_segments_kinds:
  "seg_kind seg = SegmentStatic \<Longrightarrow> add_segments e (seg # segs) (Node st pc pn wc wn rt) =
     (let r = add_segments e segs (case st (seg_value seg) of Some n \<Rightarrow> n | None \<Rightarrow> new_node)
      in (Node (st(seg_value seg \<mapsto> fst r)) pc pn wc wn rt, snd r))"
  "seg_kind seg = SegmentParam \<Longrightarrow> add_segments e (seg # segs) (Node st pc pn wc wn rt) =
     (let r = add_segments e segs (case pc of Some n \<Rightarrow> n | None \<Rightarrow> new_node)
      in (Node st (Some (fst r)) (if pc = None then seg_value seg else pn) wc wn rt, snd r))"
  "seg_kind seg = SegmentWildcard \<Longrightarrow> add_segments e [seg] (Node st pc pn wc wn rt) =
     (let r = add_segments e [] (case wc of Some n \<Rightarrow> n | None \<Rightarrow> new_node)
      in (Node st pc pn (Some (fst r)) (if wc = None then seg_value seg else wn) rt, snd r))"
  "seg_kind seg = SegmentWildcard \<Longrightarrow> segs \<noteq> [] \<Longrightarrow> snd (add_segments e (seg # segs) (Node st pc pn wc wn rt))"
  by (simp_all add: Let_def split: prod.split option.split)

lemma add_no_segments: "\<not> snd (add_segments e [] n)"
  by (cases n) simp

lemma add_segments_panics: "snd (add_segments e segs n) \<longleftrightarrow> \<not> wildcard_last segs"
proof (induction segs arbitrary: n)
  case Nil
  then show ?case by (simp add: add_no_segments)
next
  case (Cons seg segs)
  obtain st pc pn wc wn rt where n: "n = Node st pc pn wc wn rt" by (cases n)
  show ?case
  proof (cases "seg_kind seg")
    case SegmentStatic
    then show ?thesis by (simp add: n add_segments_kinds Let_def Cons.IH del: add_segments.simps)
  next
    case SegmentParam
    then show ?thesis by (simp add: n add_segments_kinds Let_def Cons.IH del: add_segments.simps)
  next
    case SegmentWildcard
    then show ?thesis
      by (cases "segs = []") (simp_all add: n add_segments_kinds add_no_segments Let_def Cons.IH del: add_segments.simps)
  qed
qed

declare add_segments.simps [simp del]

lemma after_append: "after P (rs @ rs') = after P rs @ after P rs'"
  by (induction P rs rule: after.induct) auto

lemma after_first_name: "first_name P (rs @ rs') = (if after P rs = [] then first_name P rs' else first_name P rs)"
  by (induction P rs rule: after.induct) auto

lemma after_mem: "(segs, e) \<in> set (after P rs) \<Longrightarrow> \<exists>seg. P seg \<and> (seg # segs, e) \<in> set rs"
  by (induction P rs rule: after.induct) (auto split: if_splits)

lemma tree_of_snoc: "tree_of (rs @ [(segs, e)]) = fst (add_segments e segs (tree_of rs))"
  by (simp add: tree_of_def)

lemma tree_of_Nil [simp]: "tree_of [] = new_node"
  by (simp add: tree_of_def)

lemma tree_of_one: "tree_of [(segs, e)] = fst (add_segments e segs new_node)"
  using tree_of_snoc [of "[]"] by simp

lemma last_route_snoc: "last_route (rs @ [(segs, e)]) = (if segs = [] then Some e else last_route rs)"
  by (simp add: last_route_def)

text \<open>The tree of a list that is not empty.\<close>

definition subtree :: "'h registration list \<Rightarrow> 'h node option" where
  "subtree rs = (if rs = [] then None else Some (tree_of rs))"

lemma subtree_snoc:
  "subtree (rs @ [(segs, e)]) =
     Some (fst (add_segments e segs (case subtree rs of Some n \<Rightarrow> n | None \<Rightarrow> new_node)))"
  by (simp add: subtree_def tree_of_snoc)

lemma subtree_None [simp]: "subtree rs = None \<longleftrightarrow> rs = []"
  by (simp add: subtree_def)

text \<open>Each child of the tree is the tree of the registrations that go on there.\<close>

lemma tree_of_children:
  assumes "\<forall>(segs, e)\<in>set rs. wildcard_last segs"
  shows "static (tree_of rs) p = subtree (after (is_static p) rs)"
    "param_child (tree_of rs) = subtree (after is_param rs)"
    "wildcard_child (tree_of rs) = subtree (after is_wildcard rs)"
    "after is_param rs \<noteq> [] \<Longrightarrow> param_name (tree_of rs) = first_name is_param rs"
    "after is_wildcard rs \<noteq> [] \<Longrightarrow> wildcard_name (tree_of rs) = first_name is_wildcard rs"
    "route (tree_of rs) = last_route rs"
proof -
  let ?ok = "\<lambda>n rs. (\<forall>p. static n p = subtree (after (is_static p) rs)) \<and>
    param_child n = subtree (after is_param rs) \<and> wildcard_child n = subtree (after is_wildcard rs) \<and>
    (after is_param rs \<noteq> [] \<longrightarrow> param_name n = first_name is_param rs) \<and>
    (after is_wildcard rs \<noteq> [] \<longrightarrow> wildcard_name n = first_name is_wildcard rs) \<and>
    route n = last_route rs"
  have step: "?ok (fst (add_segments e segs n)) (rs @ [(segs, e)])"
    if "?ok n rs" "wildcard_last segs" for n rs segs and e :: "'h route_entry"
  proof (cases n)
    case (Node st pc pn wc wn rt)
    note kinds = is_static_def is_param_def is_wildcard_def
    note simps = after_append after_first_name last_route_snoc kinds Let_def add_segments_kinds
      subtree_snoc [of "after _ rs"]
    show ?thesis
    proof (cases segs)
      case Nil
      with that Node show ?thesis by (simp add: add_segments.simps after_append after_first_name last_route_snoc)
    next
      case (Cons seg segs')
      then show ?thesis
        using that Node by (cases "seg_kind seg") (simp_all add: simps)
    qed
  qed
  have "?ok (tree_of rs) rs"
    using assms
  proof (induction rs rule: rev_induct)
    case Nil
    then show ?case by (simp add: new_node_def subtree_def last_route_def)
  next
    case (snoc x rs)
    then show ?case by (cases x) (simp add: step tree_of_snoc)
  qed
  then show "static (tree_of rs) p = subtree (after (is_static p) rs)"
    "param_child (tree_of rs) = subtree (after is_param rs)"
    "wildcard_child (tree_of rs) = subtree (after is_wildcard rs)"
    "after is_param rs \<noteq> [] \<Longrightarrow> param_name (tree_of rs) = first_name is_param rs"
    "after is_wildcard rs \<noteq> [] \<Longrightarrow> wildcard_name (tree_of rs) = first_name is_wildcard rs"
    "route (tree_of rs) = last_route rs"
    by auto
qed

lemma wildcard_last_after: "\<forall>(segs, e)\<in>set rs. wildcard_last segs \<Longrightarrow> (segs, e) \<in> set (after P rs) \<Longrightarrow> wildcard_last segs"
  by (auto dest!: after_mem)

lemma find_parts_match:
  "\<forall>(segs, e)\<in>set rs. wildcard_last segs \<Longrightarrow> find_parts (tree_of rs) parts params = match_parts rs parts params"
proof (induction parts arbitrary: rs params)
  case Nil
  then show ?case by (simp add: tree_of_children)
next
  case (Cons part parts)
  have ok: "\<forall>(segs, e)\<in>set (after P rs). wildcard_last segs" for P
    using Cons.prems wildcard_last_after by fastforce
  note children = tree_of_children [OF Cons.prems] subtree_def
  consider (static) "after (is_static part) rs \<noteq> []"
    | (param) "after (is_static part) rs = []" "after is_param rs \<noteq> []"
    | (wildcard) "after (is_static part) rs = []" "after is_param rs = []"
    by blast
  then show ?case
  proof cases
    case static
    then show ?thesis by (simp add: children Cons.IH [OF ok])
  next
    case param
    then show ?thesis by (simp add: children Cons.IH [OF ok])
  next
    case wildcard
    then show ?thesis by (simp add: children tree_of_children(6) [OF ok])
  qed
qed

text \<open>The values a path gives to the parameters of a pattern, if it fits.\<close>

fun pattern_values :: "route_segment list \<Rightarrow> string list \<Rightarrow> string list option" where
  "pattern_values [] [] = Some []"
| "pattern_values (seg # segs) (part # parts) =
     (case seg_kind seg of
        SegmentStatic \<Rightarrow> if seg_value seg = part then pattern_values segs parts else None
      | SegmentParam \<Rightarrow> map_option (Cons part) (pattern_values segs parts)
      | SegmentWildcard \<Rightarrow> if segs = [] then Some [join ''/'' (part # parts)] else None)"
| "pattern_values _ _ = None"

lemma last_route_mem: "last_route rs = Some e \<Longrightarrow> ([], e) \<in> set rs"
proof -
  assume e: "last_route rs = Some e"
  let ?ended = "filter (\<lambda>(segs, e). segs = []) rs"
  from e have ne: "?ended \<noteq> []" and "snd (last ?ended) = e"
    by (auto simp: last_route_def Let_def split: if_splits)
  moreover from ne have "last ?ended \<in> set ?ended" by (rule last_in_set)
  ultimately show ?thesis by (cases "last ?ended") auto
qed

lemma match_parts_sound:
  "match_parts rs parts params = (Some e, params') \<Longrightarrow>
   \<exists>segs vals. (segs, e) \<in> set rs \<and> pattern_values segs parts = Some vals \<and>
     map snd params' = map snd params @ vals"
proof (induction parts arbitrary: rs params)
  case Nil
  then have "([], e) \<in> set rs" by (auto dest: last_route_mem)
  with Nil show ?case by (intro exI [of _ "[]"]) auto
next
  case (Cons part parts)
  consider (static) "after (is_static part) rs \<noteq> []"
    | (param) "after (is_static part) rs = []" "after is_param rs \<noteq> []"
    | (wildcard) "after (is_static part) rs = []" "after is_param rs = []" "after is_wildcard rs \<noteq> []"
    using Cons.prems by (auto split: if_splits)
  then show ?case
  proof cases
    case static
    with Cons.prems Cons.IH obtain segs vals where
      s: "(segs, e) \<in> set (after (is_static part) rs)" "pattern_values segs parts = Some vals"
        "map snd params' = map snd params @ vals" by fastforce
    from after_mem [OF s(1)] obtain seg where "is_static part seg" "(seg # segs, e) \<in> set rs" by blast
    with s show ?thesis by (intro exI [of _ "seg # segs"]) (auto simp: is_static_def)
  next
    case param
    with Cons.prems Cons.IH obtain segs vals where
      s: "(segs, e) \<in> set (after is_param rs)" "pattern_values segs parts = Some vals"
        "map snd params' = map snd params @ part # vals" by fastforce
    from after_mem [OF s(1)] obtain seg where "is_param seg" "(seg # segs, e) \<in> set rs" by blast
    with s show ?thesis by (intro exI [of _ "seg # segs"]) (auto simp: is_param_def)
  next
    case wildcard
    with Cons.prems have s: "([], e) \<in> set (after is_wildcard rs)"
        "params' = params @ [(first_name is_wildcard rs, join ''/'' (part # parts))]"
      by (auto dest: last_route_mem)
    from after_mem [OF s(1)] obtain seg where "is_wildcard seg" "([seg], e) \<in> set rs" by blast
    with s show ?thesis by (intro exI [of _ "[seg]"]) (auto simp: is_wildcard_def)
  qed
qed

section \<open>Registering and finding\<close>

text \<open>A sequence of registrations on an empty router, and those of one method.\<close>

type_synonym 'h add_call = "string \<times> string \<times> 'h"

definition router_of :: "'h add_call list \<Rightarrow> 'h router" where
  "router_of calls = fold (\<lambda>(method, path, h) r. fst (router_add r method path h)) calls new_router"

definition registered :: "string \<Rightarrow> 'h add_call list \<Rightarrow> 'h registration list" where
  "registered method calls =
     map (\<lambda>(m, path, h). (parse_segments path, \<lparr>re_handler = h, re_method = m, re_path = path\<rparr>))
       (filter (\<lambda>(m, path, h). m = method) calls)"

definition accepted :: "'h add_call list \<Rightarrow> bool" where
  "accepted calls \<longleftrightarrow> list_all (\<lambda>(m, path, h). wildcard_last (parse_segments path)) calls"

lemma router_of_snoc:
  "router_of (calls @ [(m, path, h)]) = fst (router_add (router_of calls) m path h)"
  by (simp add: router_of_def)

lemma router_of_tree: "router_of calls method = subtree (registered method calls)"
proof (induction calls rule: rev_induct)
  case Nil
  then show ?case by (simp add: router_of_def new_router_def registered_def subtree_def)
next
  case (snoc c calls)
  obtain m path h where c: "c = (m, path, h)" by (cases c)
  show ?case
  proof (cases "m = method")
    case True
    then have "registered method (calls @ [c]) =
        registered method calls @ [(parse_segments path, \<lparr>re_handler = h, re_method = m, re_path = path\<rparr>)]"
      by (simp add: registered_def c)
    with True snoc show ?thesis
      by (auto simp: c router_of_snoc router_add_def subtree_snoc Let_def split: prod.split option.split)
  next
    case False
    with snoc show ?thesis
      by (auto simp: c registered_def router_of_snoc router_add_def Let_def split: prod.split)
  qed
qed

lemma registered_accepted: "accepted calls \<Longrightarrow> \<forall>(segs, e)\<in>set (registered m calls). wildcard_last segs"
  by (auto simp: accepted_def registered_def list_all_iff)

lemma split_path_root [simp]: "split_path ''/'' = []" "split_path [] = []"
  by (simp_all add: split_path_def trim_char_def)

lemma match_parts_Nil [simp]: "match_parts [] parts params = (None, params)"
  by (cases parts) (simp_all add: last_route_def)

lemma router_find_is_match:
  assumes "accepted calls"
  shows "router_find (router_of calls) method path = match_parts (registered method calls) (split_path path) []"
proof (cases "registered method calls = []")
  case True
  then show ?thesis by (simp add: router_find_def router_of_tree subtree_def)
next
  case False
  then show ?thesis
    using tree_of_children(6) [OF registered_accepted [OF assms]] find_parts_match [OF registered_accepted [OF assms]]
    by (auto simp: router_find_def router_of_tree subtree_def)
qed

text \<open>
  C5. The tree is an index, nothing more: what \<open>find\<close> answers after any sequence of
  registrations is what matching against the list of registrations of that method answers:
  segment by segment, static before parameter before wildcard, the last registration of the
  same shape winning, without going back.
\<close>

theorem find_matches_registrations:
  assumes "accepted calls"
  shows "router_find (router_of calls) method path = match_parts (registered method calls) (split_path path) []"
  by (rule router_find_is_match [OF assms])

definition demo_routes :: "nat add_call list" where
  "demo_routes =
     [(''GET'', ''/users/:id/posts'', 1), (''GET'', ''/users/me'', 2), (''POST'', ''/users'', 3),
      (''GET'', ''/users/:name/likes'', 4), (''GET'', ''/files/*path'', 5), (''GET'', ''/users/me'', 6)]"

theorem find_matches_registrations_example:
  "match_parts (registered ''GET'' demo_routes) [''users'', ''7'', ''likes''] []
     = (Some \<lparr>re_handler = 4, re_method = ''GET'', re_path = ''/users/:name/likes''\<rparr>, [(''id'', ''7'')])"
proof -
  have "accepted demo_routes" by code_simp
  moreover have "router_find (router_of demo_routes) ''GET'' ''/users/7/likes''
      = (Some \<lparr>re_handler = 4, re_method = ''GET'', re_path = ''/users/:name/likes''\<rparr>, [(''id'', ''7'')])"
    by code_simp
  moreover have "split_path ''/users/7/likes'' = [''users'', ''7'', ''likes'']" by code_simp
  ultimately show ?thesis
    using find_matches_registrations [of demo_routes "''GET''" "''/users/7/likes''"] by simp
qed

lemma find_registered:
  assumes "accepted calls" "router_find (router_of calls) method path = (Some e, params)"
  shows "(method, re_path e, re_handler e) \<in> set calls \<and> re_method e = method \<and>
    pattern_values (parse_segments (re_path e)) (split_path path) = Some (map snd params)"
  using match_parts_sound [of "registered method calls" "split_path path" "[]" e params]
    router_find_is_match [OF assms(1), of "method" "path"] assms(2)
  by (auto simp: registered_def)

text \<open>
  A route that is found was registered, for this method, with the handler it has, and
  its pattern fits the path with exactly the values the parameters got.
\<close>

theorem find_sound:
  assumes "accepted calls" "router_find (router_of calls) method path = (Some e, params)"
  shows "(method, re_path e, re_handler e) \<in> set calls \<and> re_method e = method \<and>
    pattern_values (parse_segments (re_path e)) (split_path path) = Some (map snd params)"
  by (rule find_registered [OF assms])

theorem find_sound_example:
  "(''GET'', ''/files/*path'', 5) \<in> set demo_routes \<and>
   pattern_values (parse_segments ''/files/*path'') (split_path ''/files/a/b'') = Some [''a/b'']"
proof -
  have "accepted demo_routes" by code_simp
  moreover have "router_find (router_of demo_routes) ''GET'' ''/files/a/b''
      = (Some \<lparr>re_handler = 5, re_method = ''GET'', re_path = ''/files/*path''\<rparr>, [(''path'', ''a/b'')])"
    by code_simp
  ultimately show ?thesis using find_sound by fastforce
qed

lemma match_parts_static:
  "list_all (\<lambda>seg. seg_kind seg = SegmentStatic) segs \<Longrightarrow>
   match_parts (rs @ [(segs, e)]) (map seg_value segs) params = (Some e, params)"
proof (induction segs arbitrary: rs)
  case Nil
  then show ?case by (simp add: last_route_snoc)
next
  case (Cons seg segs)
  then have "after (is_static (seg_value seg)) (rs @ [(seg # segs, e)])
      = after (is_static (seg_value seg)) rs @ [(segs, e)]"
    by (simp add: after_append is_static_def)
  with Cons show ?case by simp
qed

lemma static_segment_value: "seg_kind (parse_segment p) = SegmentStatic \<Longrightarrow> seg_value (parse_segment p) = p"
  by (auto simp: parse_segment_def split: if_splits)

lemma static_segments_found:
  assumes "accepted (calls @ [(method, path, h)])"
    and "list_all (\<lambda>seg. seg_kind seg = SegmentStatic) (parse_segments path)"
  shows "router_find (router_of (calls @ [(method, path, h)])) method path
    = (Some \<lparr>re_handler = h, re_method = method, re_path = path\<rparr>, [])"
proof -
  have "map seg_value (parse_segments path) = split_path path"
    using assms(2) by (auto simp: parse_segments_def list_all_iff static_segment_value intro!: map_idI)
  with match_parts_static [OF assms(2), of "registered method calls"]
    router_find_is_match [OF assms(1), of "method" "path"]
  show ?thesis by (simp add: registered_def)
qed

text \<open>
  A path without parameters and wildcards always finds what was registered for it last,
  whatever else the router holds: parameters never shadow a literal path.
\<close>

theorem static_route_is_found:
  assumes "accepted (calls @ [(method, path, h)])"
    and "list_all (\<lambda>seg. seg_kind seg = SegmentStatic) (parse_segments path)"
  shows "router_find (router_of (calls @ [(method, path, h)])) method path
    = (Some \<lparr>re_handler = h, re_method = method, re_path = path\<rparr>, [])"
  by (rule static_segments_found [OF assms])

theorem static_route_is_found_example:
  "router_find (router_of (demo_routes @ [(''GET'', ''/users/you'', 7)])) ''GET'' ''/users/you''
     = (Some \<lparr>re_handler = 7, re_method = ''GET'', re_path = ''/users/you''\<rparr>, [])"
proof -
  have "accepted (demo_routes @ [(''GET'', ''/users/you'', 7)])" by code_simp
  moreover have "list_all (\<lambda>seg. seg_kind seg = SegmentStatic) (parse_segments ''/users/you'')" by code_simp
  ultimately show ?thesis by (rule static_route_is_found)
qed

text \<open>
  The literal child is taken although it leads nowhere: with \<open>/users/me\<close> and
  \<open>/users/:id/posts\<close> registered, \<open>/users/me/posts\<close> fits a registered pattern and is not
  found; and the name of a parameter is the one of the first registration, so the second
  pattern through the same place never sees the name it declared.
\<close>

theorem find_does_not_go_back:
  "pattern_values (parse_segments ''/users/:id/posts'') (split_path ''/users/me/posts'') = Some [''me''] \<and>
   router_find (router_of demo_routes) ''GET'' ''/users/me/posts'' = (None, []) \<and>
   map_of (snd (router_find (router_of demo_routes) ''GET'' ''/users/7/likes'')) ''name'' = None"
  by code_simp

end
