(* ===== verification/Web_Ctx.thy ===== *)
theory Web_Ctx imports Router Orm_Values begin

text \<open>
  The request context, its errors and the interfaces handlers are made of (ctx.go, errors.go,
  types.go, validator.go). A handler is a function on the context and a world \<open>'w\<close> of
  everything else it may change; it returns, with an error or nil, or panics. The response
  writer and the request are the parts of \<open>net/http\<close> the code uses: headers are set on a
  map, the first status that is written is sent with the headers of that moment, and text
  written before any status sends 200.
\<close>

section \<open>Errors\<close>

record http_error =
  he_code :: string
  he_message :: string
  he_details :: val
  he_status :: int

text \<open>An \<open>error\<close> that is not nil: one of these, one that wraps another, or a foreign one.\<close>

datatype go_error =
    HttpError http_error
  | WrappedError string go_error
  | OtherError string

definition code_bad_request :: string where "code_bad_request = ''BAD_REQUEST''"
definition code_unauthorized :: string where "code_unauthorized = ''UNAUTHORIZED''"
definition code_forbidden :: string where "code_forbidden = ''FORBIDDEN''"
definition code_not_found :: string where "code_not_found = ''NOT_FOUND''"
definition code_conflict :: string where "code_conflict = ''CONFLICT''"
definition code_internal :: string where "code_internal = ''INTERNAL_ERROR''"

definition new_http_error :: "string \<Rightarrow> string \<Rightarrow> val \<Rightarrow> int \<Rightarrow> go_error" where
  "new_http_error code message details status =
     HttpError \<lparr>he_code = code, he_message = message, he_details = details, he_status = status\<rparr>"

definition err_bad_request :: "string \<Rightarrow> val \<Rightarrow> go_error" where
  "err_bad_request msg details = new_http_error code_bad_request msg details 400"

definition err_unauthorized :: "string \<Rightarrow> go_error" where
  "err_unauthorized msg = new_http_error code_unauthorized msg VNil 401"

definition err_forbidden :: "string \<Rightarrow> go_error" where
  "err_forbidden msg = new_http_error code_forbidden msg VNil 403"

definition err_not_found :: "string \<Rightarrow> go_error" where
  "err_not_found msg = new_http_error code_not_found msg VNil 404"

definition err_conflict :: "string \<Rightarrow> go_error" where
  "err_conflict msg = new_http_error code_conflict msg VNil 409"

definition err_internal :: "string \<Rightarrow> go_error" where
  "err_internal msg = new_http_error code_internal msg VNil 500"

text \<open>The package \<open>errors\<close> offers the same constructors under shorter names.\<close>

definition errors_bad_request :: "string \<Rightarrow> val \<Rightarrow> go_error" where
  "errors_bad_request msg details = err_bad_request msg details"

definition errors_unauthorized :: "string \<Rightarrow> go_error" where
  "errors_unauthorized msg = err_unauthorized msg"

definition errors_forbidden :: "string \<Rightarrow> go_error" where
  "errors_forbidden msg = err_forbidden msg"

definition errors_not_found :: "string \<Rightarrow> go_error" where
  "errors_not_found msg = err_not_found msg"

definition errors_conflict :: "string \<Rightarrow> go_error" where
  "errors_conflict msg = err_conflict msg"

definition errors_internal :: "string \<Rightarrow> go_error" where
  "errors_internal msg = err_internal msg"

text \<open>\<open>asHTTPError\<close>: \<open>errors.As\<close> follows the wrapped errors to the first typed one.\<close>

fun as_http_error :: "go_error \<Rightarrow> http_error option" where
  "as_http_error (HttpError he) = Some he"
| "as_http_error (WrappedError msg e) = as_http_error e"
| "as_http_error (OtherError msg) = None"

section \<open>Requests and responses\<close>

text \<open>\<open>rq_limit\<close> is the bound \<open>http.MaxBytesReader\<close> puts on the body.\<close>

record request =
  rq_method :: string
  rq_path :: string
  rq_header :: "string \<rightharpoonup> string"
  rq_body :: string
  rq_limit :: "int option"

record error_body =
  eb_code :: string
  eb_message :: string
  eb_details :: val
  eb_request_id :: string

datatype json_body = JsonError error_body | JsonValue val

text \<open>
  \<open>ws_observers\<close> are the status fields of the \<open>statusWriter\<close>s that metrics put around the
  writer; every status written passes through all of them.
\<close>

record writer =
  ws_header :: "string \<rightharpoonup> string"
  ws_sent :: "(int \<times> (string \<rightharpoonup> string)) option"
  ws_body :: string
  ws_observers :: "int list"

definition fresh_writer :: writer where
  "fresh_writer = \<lparr>ws_header = Map.empty, ws_sent = None, ws_body = [], ws_observers = []\<rparr>"

definition header_set :: "string \<Rightarrow> string \<Rightarrow> writer \<Rightarrow> writer" where
  "header_set k v w = w\<lparr>ws_header := (ws_header w)(k \<mapsto> v)\<rparr>"

definition send_status :: "int \<Rightarrow> writer \<Rightarrow> writer" where
  "send_status status w =
     (case ws_sent w of None \<Rightarrow> w\<lparr>ws_sent := Some (status, ws_header w)\<rparr> | Some sent \<Rightarrow> w)"

definition write_header :: "int \<Rightarrow> writer \<Rightarrow> writer" where
  "write_header status w = send_status status (w\<lparr>ws_observers := map (\<lambda>_. status) (ws_observers w)\<rparr>)"

definition write_body :: "string \<Rightarrow> writer \<Rightarrow> writer" where
  "write_body s w = (let w' = send_status 200 w in w'\<lparr>ws_body := ws_body w' @ s\<rparr>)"

section \<open>The context\<close>

text \<open>
  A value stored in a context: a plain value, or a struct with its type's name and fields,
  which a type assertion can tell from everything else.
\<close>

datatype any = Any val | AnyStruct string "(string \<times> val) list"

record ctx =
  ctx_writer :: writer
  ctx_request :: request
  ctx_params :: "route_param list"
  ctx_values :: "string \<rightharpoonup> any"
  ctx_route_pattern :: string

text \<open>A validator: an error text, or nothing.\<close>

type_synonym validator = "val \<Rightarrow> string option"

definition ctx_reset :: "ctx \<Rightarrow> writer \<Rightarrow> request \<Rightarrow> ctx" where
  "ctx_reset c w r =
     c\<lparr>ctx_writer := w, ctx_request := r, ctx_params := [], ctx_route_pattern := [], ctx_values := Map.empty\<rparr>"

fun find_param :: "route_param list \<Rightarrow> string \<Rightarrow> string" where
  "find_param [] name = []"
| "find_param ((key, v) # params) name = (if key = name then v else find_param params name)"

definition ctx_param :: "ctx \<Rightarrow> string \<Rightarrow> string" where
  "ctx_param c name = find_param (ctx_params c) name"

text \<open>\<open>Header.Get\<close> answers the empty text for a header that is not there.\<close>

definition ctx_header :: "ctx \<Rightarrow> string \<Rightarrow> string" where
  "ctx_header c name = (case rq_header (ctx_request c) name of Some v \<Rightarrow> v | None \<Rightarrow> [])"

definition ctx_set :: "string \<Rightarrow> any \<Rightarrow> ctx \<Rightarrow> ctx" where
  "ctx_set key v c = c\<lparr>ctx_values := (ctx_values c)(key \<mapsto> v)\<rparr>"

definition ctx_get :: "ctx \<Rightarrow> string \<Rightarrow> any option" where
  "ctx_get c key = ctx_values c key"

text \<open>
  \<open>BindJSON\<close>, for a decoder that answers a value or an error and the rest of the input.
  \<open>DecodeEOF\<close> is \<open>io.EOF\<close>, whose text is \<open>EOF\<close>.
\<close>

datatype decode_error = DecodeEOF | DecodeError string

fun decode_error_text :: "decode_error \<Rightarrow> string" where
  "decode_error_text DecodeEOF = ''EOF''"
| "decode_error_text (DecodeError s) = s"

definition bind_json ::
  "('b \<Rightarrow> (decode_error + 'v) \<times> 'b) \<Rightarrow> ('b \<Rightarrow> (decode_error + unit) \<times> 'b) \<Rightarrow> 'b \<Rightarrow> go_error + 'v" where
  "bind_json decode decode_empty body =
     (case decode body of
        (Inl e, rest) \<Rightarrow> Inl (err_bad_request ''invalid JSON body'' (VStr (decode_error_text e)))
      | (Inr v, rest) \<Rightarrow>
          (case fst (decode_empty rest) of
             Inl DecodeEOF \<Rightarrow> Inr v
           | _ \<Rightarrow> Inl (err_bad_request ''invalid JSON body'' (VStr ''multiple JSON values are not allowed''))))"

definition ctx_validate :: "validator option \<Rightarrow> val \<Rightarrow> go_error option" where
  "ctx_validate validator v =
     (case validator of
        None \<Rightarrow> None
      | Some validate \<Rightarrow>
          (case validate v of
             Some msg \<Rightarrow> Some (err_bad_request ''validation failed'' (VStr msg))
           | None \<Rightarrow> None))"

text \<open>
  \<open>JSON\<close> and \<open>Text\<close>; \<open>enc\<close> is the encoder of \<open>encoding/json\<close>, which may refuse a value.
  (Errors of the connection are not modelled.)
\<close>

definition ctx_json :: "(json_body \<Rightarrow> string + string) \<Rightarrow> int \<Rightarrow> json_body \<Rightarrow> ctx \<Rightarrow> go_error option \<times> ctx" where
  "ctx_json enc status body c =
     (let w = write_header status (header_set ''Content-Type'' ''application/json'' (ctx_writer c))
      in case enc body of
           Inl e \<Rightarrow> (Some (OtherError e), c\<lparr>ctx_writer := w\<rparr>)
         | Inr s \<Rightarrow> (None, c\<lparr>ctx_writer := write_body s w\<rparr>))"

definition ctx_text :: "int \<Rightarrow> string \<Rightarrow> ctx \<Rightarrow> go_error option \<times> ctx" where
  "ctx_text status msg c =
     (let w = write_header status (header_set ''Content-Type'' ''text/plain; charset=utf-8'' (ctx_writer c))
      in (None, c\<lparr>ctx_writer := write_body msg w\<rparr>))"

section \<open>Handlers and middleware\<close>

datatype outcome = Returned "go_error option" | Panicked string

type_synonym 'w handler = "ctx \<Rightarrow> 'w \<Rightarrow> outcome \<times> ctx \<times> 'w"
type_synonym 'w middleware = "'w handler \<Rightarrow> 'w handler"

text \<open>\<open>chain\<close>: the loop wraps from the last to the first.\<close>

fun chain :: "'w handler \<Rightarrow> 'w middleware list \<Rightarrow> 'w handler" where
  "chain h [] = h"
| "chain h (mw # mws) = mw (chain h mws)"

lemma chain_append: "chain h (mws @ mws') = chain (chain h mws') mws"
  by (induction mws) auto

text \<open>
  The middleware that prepare the context and hand over to the next handler share one
  contract; any list of them prepares it from left to right and runs the handler once.
\<close>

locale preparing_middleware =
  fixes mw :: "'w middleware" and prepare :: "ctx \<Rightarrow> ctx"
  assumes prepares: "mw next c s = next (prepare c) s"
begin

lemma chain_prepares: "chain h (mw # mws) c s = chain h mws (prepare c) s"
  by (simp add: prepares)

lemma result_kept: "fst (mw h c s) = fst (h (prepare c) s)"
  by (simp add: prepares)

end

lemma ctx_get_set [simp]: "ctx_get (ctx_set k v c) k' = (if k = k' then Some v else ctx_get c k')"
  by (simp add: ctx_get_def ctx_set_def)

lemma ctx_reset_forgets: "ctx_reset c w r = ctx_reset c' w r"
  by (simp add: ctx_reset_def)

lemma send_status_once [simp]: "ws_sent (send_status st w) = Some (case ws_sent w of None \<Rightarrow> (st, ws_header w) | Some x \<Rightarrow> x)"
  by (simp add: send_status_def split: option.split)

lemma send_status_simps [simp]:
  "ws_header (send_status st w) = ws_header w" "ws_body (send_status st w) = ws_body w"
  "ws_observers (send_status st w) = ws_observers w"
  by (simp_all add: send_status_def split: option.split)

lemma write_header_simps [simp]:
  "ws_sent (write_header st w) = Some (case ws_sent w of None \<Rightarrow> (st, ws_header w) | Some x \<Rightarrow> x)"
  "ws_header (write_header st w) = ws_header w" "ws_body (write_header st w) = ws_body w"
  "ws_observers (write_header st w) = map (\<lambda>_. st) (ws_observers w)"
  by (simp_all add: write_header_def split: option.split)

lemma write_body_simps [simp]:
  "ws_sent (write_body b w) = Some (case ws_sent w of None \<Rightarrow> (200, ws_header w) | Some x \<Rightarrow> x)"
  "ws_header (write_body b w) = ws_header w" "ws_body (write_body b w) = ws_body w @ b"
  "ws_observers (write_body b w) = ws_observers w"
  by (simp_all add: write_body_def Let_def split: option.split)

lemma header_set_simps [simp]:
  "ws_header (header_set k v w) = (ws_header w)(k \<mapsto> v)" "ws_sent (header_set k v w) = ws_sent w"
  "ws_body (header_set k v w) = ws_body w" "ws_observers (header_set k v w) = ws_observers w"
  by (simp_all add: header_set_def)

end
