(* ===== verification/App.thy ===== *)
theory App imports Web_Ctx begin

text \<open>
  The application (app.go, group.go, named_route.go, config.go, and \<open>ServeHTTP\<close> of
  router.go): registration of routes through the application, through groups and through
  named routes, and serving a request. Registration panics when the router does; the second
  result of the operations says so.
\<close>

section \<open>Paths\<close>

definition normalize_path :: "string \<Rightarrow> string" where
  "normalize_path path =
     (if path = [] \<or> path = ''/'' then ''/''
      else
        (let path = (if hd path \<noteq> CHR ''/'' then CHR ''/'' # path else path)
         in if length path > 1 \<and> last path = CHR ''/'' then butlast path else path))"

section \<open>Configuration\<close>

text \<open>Durations are in nanoseconds.\<close>

record app_config =
  cfg_addr :: string
  cfg_read_timeout :: int
  cfg_write_timeout :: int
  cfg_idle_timeout :: int
  cfg_shutdown_timeout :: int
  cfg_disable_healthz :: bool
  cfg_enable_metrics_stub :: bool

definition second :: int where "second = 1000000000"

definition with_defaults :: "app_config \<Rightarrow> app_config" where
  "with_defaults c =
     (let c = (if cfg_addr c = [] then c\<lparr>cfg_addr := '':8080''\<rparr> else c);
          c = (if cfg_read_timeout c = 0 then c\<lparr>cfg_read_timeout := 5 * second\<rparr> else c);
          c = (if cfg_write_timeout c = 0 then c\<lparr>cfg_write_timeout := 10 * second\<rparr> else c);
          c = (if cfg_idle_timeout c = 0 then c\<lparr>cfg_idle_timeout := 30 * second\<rparr> else c);
          c = (if cfg_shutdown_timeout c = 0 then c\<lparr>cfg_shutdown_timeout := 10 * second\<rparr> else c)
      in c)"

text \<open>\<open>elgon.Version\<close> (version.go), which the programs give to their documents.\<close>

definition elgon_version :: string where "elgon_version = ''0.2.4''"

section \<open>The application\<close>

text \<open>The plugins are known by their names only; nothing else of them is ever read.\<close>

record 'w app =
  app_cfg :: app_config
  app_router :: "'w handler router"
  app_global_mw :: "'w middleware list"
  app_validator :: "validator option"
  app_named :: "string \<rightharpoonup> string"
  app_routes :: "(string \<times> string) list"
  app_plugins :: "string list"

definition empty_app :: "app_config \<Rightarrow> 'w app" where
  "empty_app cfg =
     \<lparr>app_cfg = with_defaults cfg, app_router = new_router, app_global_mw = [], app_validator = None,
      app_named = Map.empty, app_routes = [], app_plugins = []\<rparr>"

definition set_validator :: "validator \<Rightarrow> 'w app \<Rightarrow> 'w app" where
  "set_validator v a = a\<lparr>app_validator := Some v\<rparr>"

definition app_use :: "'w middleware list \<Rightarrow> 'w app \<Rightarrow> 'w app" where
  "app_use mw a = a\<lparr>app_global_mw := app_global_mw a @ mw\<rparr>"

definition app_route ::
  "string \<Rightarrow> string \<Rightarrow> 'w handler \<Rightarrow> 'w middleware list \<Rightarrow> 'w app \<Rightarrow> 'w app \<times> bool" where
  "app_route method path h mw a =
     (let full = normalize_path path;
          all_mw = app_global_mw a @ mw;
          (r, panicked) = router_add (app_router a) method full (chain h all_mw);
          a' = a\<lparr>app_router := r\<rparr>
      in if panicked then (a', True)
         else (a'\<lparr>app_routes := app_routes a @ [(method, full)]\<rparr>, False))"

definition named_route ::
  "string \<Rightarrow> string \<Rightarrow> string \<Rightarrow> 'w handler \<Rightarrow> 'w middleware list \<Rightarrow> 'w app \<Rightarrow> 'w app \<times> bool" where
  "named_route name method path h mw a =
     app_route method path h mw (a\<lparr>app_named := (app_named a)(name \<mapsto> normalize_path path)\<rparr>)"

record 'w group =
  grp_prefix :: string
  grp_mw :: "'w middleware list"

definition app_group :: "string \<Rightarrow> 'w middleware list \<Rightarrow> 'w group" where
  "app_group pre mw = \<lparr>grp_prefix = normalize_path pre, grp_mw = mw\<rparr>"

definition group_group :: "'w group \<Rightarrow> string \<Rightarrow> 'w middleware list \<Rightarrow> 'w group" where
  "group_group g pre mw =
     (let joined = grp_prefix g @ normalize_path pre
      in \<lparr>grp_prefix = normalize_path joined, grp_mw = grp_mw g @ mw\<rparr>)"

definition group_route ::
  "'w group \<Rightarrow> string \<Rightarrow> string \<Rightarrow> 'w handler \<Rightarrow> 'w middleware list \<Rightarrow> 'w app \<Rightarrow> 'w app \<times> bool" where
  "group_route g method path h mw a =
     (let full = normalize_path (grp_prefix g @ normalize_path path)
      in app_route method full h (grp_mw g @ mw) a)"

definition health_handler :: "(json_body \<Rightarrow> string + string) \<Rightarrow> 'w handler" where
  "health_handler enc c s =
     (case ctx_json enc 200 (JsonValue (VMap [(''status'', VStr ''ok'')])) c of (e, c') \<Rightarrow> (Returned e, c', s))"

definition metrics_stub :: "'w handler" where
  "metrics_stub c s = (case ctx_text 200 (''# metrics stub'' @ [CHR 0x0A]) c of (e, c') \<Rightarrow> (Returned e, c', s))"

text \<open>\<open>New\<close>; neither of its two routes has a wildcard, so it does not panic.\<close>

definition new_app :: "(json_body \<Rightarrow> string + string) \<Rightarrow> app_config \<Rightarrow> 'w app" where
  "new_app enc cfg =
     (let a = empty_app cfg;
          a = (if \<not> cfg_disable_healthz (app_cfg a)
               then fst (app_route ''GET'' ''/health'' (health_handler enc) [] a) else a)
      in if cfg_enable_metrics_stub (app_cfg a)
         then fst (app_route ''GET'' ''/metrics'' metrics_stub [] a) else a)"

text \<open>
  \<open>RegisterPlugins\<close>: each plugin is nil or a name and an initialiser of the application. The
  plugins before the first error stay registered.
\<close>

fun register_plugins ::
  "(string \<times> ('w app \<Rightarrow> go_error option \<times> 'w app)) option list \<Rightarrow> 'w app \<Rightarrow> go_error option \<times> 'w app" where
  "register_plugins [] a = (None, a)"
| "register_plugins (None # ps) a = register_plugins ps a"
| "register_plugins (Some (name, init) # ps) a =
     (if name = [] then (Some (err_internal ''plugin name must not be empty''), a)
      else if name \<in> set (app_plugins a)
      then (Some (err_conflict (''plugin already registered: '' @ name)), a)
      else
        (case init a of
           (Some e, a') \<Rightarrow> (Some e, a')
         | (None, a') \<Rightarrow> register_plugins ps (a'\<lparr>app_plugins := app_plugins a' @ [name]\<rparr>)))"

section \<open>Serving\<close>

fun any_to_string :: "any option \<Rightarrow> string" where
  "any_to_string (Some (Any (VStr s))) = s"
| "any_to_string _ = []"

text \<open>\<open>writeError\<close>, for an error that is not nil.\<close>

definition error_response :: "go_error \<Rightarrow> string \<Rightarrow> int \<times> error_body" where
  "error_response err request_id =
     (case as_http_error err of
        Some he \<Rightarrow> (he_status he,
          \<lparr>eb_code = he_code he, eb_message = he_message he, eb_details = he_details he, eb_request_id = request_id\<rparr>)
      | None \<Rightarrow> (500,
          \<lparr>eb_code = code_internal, eb_message = ''internal server error'', eb_details = VNil, eb_request_id = request_id\<rparr>))"

definition write_error :: "(json_body \<Rightarrow> string + string) \<Rightarrow> go_error \<Rightarrow> ctx \<Rightarrow> ctx" where
  "write_error enc err c =
     (case error_response err (any_to_string (ctx_get c ''request_id'')) of
        (status, body) \<Rightarrow> snd (ctx_json enc status (JsonError body) c))"

text \<open>
  \<open>ServeHTTP\<close> with the context \<open>c0\<close> the pool happened to hold. A panic of the handler leaves
  it (first result) and the context does not go back to the pool.
\<close>

definition serve_http ::
  "(json_body \<Rightarrow> string + string) \<Rightarrow> 'w app \<Rightarrow> ctx \<Rightarrow> writer \<Rightarrow> request \<Rightarrow> 'w \<Rightarrow> string option \<times> ctx \<times> 'w" where
  "serve_http enc a c0 w r s =
     (let c = ctx_reset c0 w r;
          (entry, params) = router_find (app_router a) (rq_method r) (rq_path r);
          c = c\<lparr>ctx_params := params\<rparr>
      in case entry of
           None \<Rightarrow> (None, write_error enc (err_not_found ''route not found'') c, s)
         | Some e \<Rightarrow>
             (case re_handler e (c\<lparr>ctx_route_pattern := re_path e\<rparr>) s of
                (Panicked msg, c', s') \<Rightarrow> (Some msg, c', s')
              | (Returned None, c', s') \<Rightarrow> (None, c', s')
              | (Returned (Some err), c', s') \<Rightarrow> (None, write_error enc err c', s')))"

section \<open>Runs\<close>

text \<open>
  What a program does to an application before it serves. The exported operations of the
  application, of its groups and of named routes (\<open>GET\<close>, \<open>POST\<close>, \<open>PUT\<close>, \<open>PATCH\<close> and
  \<open>DELETE\<close>) fix the method.
\<close>

definition public_methods :: "string list" where
  "public_methods = [''GET'', ''POST'', ''PUT'', ''PATCH'', ''DELETE'']"

datatype 'w app_op =
    OpUse "'w middleware list"
  | OpValidator validator
  | OpRoute string string "'w handler" "'w middleware list"
  | OpNamed string string string "'w handler" "'w middleware list"
  | OpGroup "'w group" string string "'w handler" "'w middleware list"

fun app_do :: "'w app_op \<Rightarrow> 'w app \<Rightarrow> 'w app \<times> bool" where
  "app_do (OpUse mw) a = (app_use mw a, False)"
| "app_do (OpValidator v) a = (set_validator v a, False)"
| "app_do (OpRoute method path h mw) a = app_route method path h mw a"
| "app_do (OpNamed name method path h mw) a = named_route name method path h mw a"
| "app_do (OpGroup g method path h mw) a = group_route g method path h mw a"

fun op_method :: "'w app_op \<Rightarrow> string option" where
  "op_method (OpUse mw) = None"
| "op_method (OpValidator v) = None"
| "op_method (OpRoute method path h mw) = Some method"
| "op_method (OpNamed name method path h mw) = Some method"
| "op_method (OpGroup g method path h mw) = Some method"

inductive app_run :: "'w app \<Rightarrow> bool" where
  run_new: "app_run (empty_app cfg)"
| run_op: "app_run a \<Longrightarrow> app_do op a = (a', False) \<Longrightarrow> set_option (op_method op) \<subseteq> set public_methods \<Longrightarrow>
    app_run a'"

definition routes_agree :: "'w app \<Rightarrow> bool" where
  "routes_agree a \<longleftrightarrow> (\<exists>calls. accepted calls \<and> app_router a = router_of calls \<and>
     app_routes a = map (\<lambda>(m, path, h). (m, path)) calls)"

lemma app_route_ok:
  assumes "app_route m p h mw a = (a', False)"
  shows "router_add (app_router a) m (normalize_path p) (chain h (app_global_mw a @ mw)) = (app_router a', False)"
    "app_routes a' = app_routes a @ [(m, normalize_path p)]" "app_global_mw a' = app_global_mw a"
  using assms by (auto simp: app_route_def Let_def split: prod.splits if_splits)

lemma router_add_accepts: "router_add r m p h = (r', False) \<Longrightarrow> wildcard_last (parse_segments p)"
  by (auto simp: router_add_def Let_def split: prod.splits) (metis add_segments_panics snd_conv)

lemma app_route_panics:
  "snd (app_route m p h mw a) \<longleftrightarrow> \<not> wildcard_last (parse_segments (normalize_path p))"
  using add_segments_panics [of "\<lparr>re_handler = chain h (app_global_mw a @ mw), re_method = m, re_path = normalize_path p\<rparr>"
    "parse_segments (normalize_path p)" "case app_router a m of None \<Rightarrow> new_node | Some root \<Rightarrow> root"]
  by (auto simp: app_route_def router_add_def Let_def split: prod.split)

text \<open>The registration an accepted route adds.\<close>

lemma app_route_call:
  assumes "app_route m p h mw a = (a', False)" "accepted calls" "app_router a = router_of calls"
  shows "accepted (calls @ [(m, normalize_path p, chain h (app_global_mw a @ mw))]) \<and>
    app_router a' = router_of (calls @ [(m, normalize_path p, chain h (app_global_mw a @ mw))])"
  using assms app_route_ok(1) [OF assms(1)]
  by (auto simp: accepted_def router_of_snoc dest: router_add_accepts)

lemma routes_agree_route:
  assumes "routes_agree a" "app_route m p h mw a = (a', False)"
  shows "routes_agree a'"
proof -
  from assms(1) obtain calls where calls: "accepted calls" "app_router a = router_of calls"
      "app_routes a = map (\<lambda>(m, path, h). (m, path)) calls"
    by (auto simp: routes_agree_def)
  let ?calls = "calls @ [(m, normalize_path p, chain h (app_global_mw a @ mw))]"
  have "accepted ?calls \<and> app_router a' = router_of ?calls"
    by (rule app_route_call [OF assms(2) calls(1,2)])
  moreover have "app_routes a' = map (\<lambda>(m, path, h). (m, path)) ?calls"
    using app_route_ok(2) [OF assms(2)] calls(3) by simp
  ultimately show ?thesis unfolding routes_agree_def by blast
qed

lemma routes_agree_cong:
  "app_router a' = app_router a \<Longrightarrow> app_routes a' = app_routes a \<Longrightarrow> routes_agree a \<Longrightarrow> routes_agree a'"
  by (simp add: routes_agree_def)

lemma app_run_routes_agree: "app_run a \<Longrightarrow> routes_agree a"
proof (induction rule: app_run.induct)
  case (run_new cfg)
  show ?case
    unfolding routes_agree_def empty_app_def
    by (rule exI [of _ "[]"]) (simp add: accepted_def router_of_def)
next
  case (run_op a op a')
  then show ?case
  proof (cases op)
    case (OpNamed name m p h mw)
    from run_op.IH have "routes_agree (a\<lparr>app_named := (app_named a)(name \<mapsto> normalize_path p)\<rparr>)"
      by (rule routes_agree_cong [rotated 2]) simp_all
    with OpNamed run_op show ?thesis by (auto simp: named_route_def intro: routes_agree_route)
  next
    case (OpUse mw)
    with run_op show ?thesis by (auto simp: app_use_def elim: routes_agree_cong [rotated 2])
  next
    case (OpValidator v)
    with run_op show ?thesis by (auto simp: set_validator_def elim: routes_agree_cong [rotated 2])
  next
    case (OpRoute m p h mw)
    with run_op show ?thesis by (auto intro: routes_agree_route)
  next
    case (OpGroup g m p h mw)
    with run_op show ?thesis by (auto simp: group_route_def Let_def intro: routes_agree_route)
  qed
qed

text \<open>Only the public methods are ever registered.\<close>

lemma app_do_methods:
  assumes "app_do op a = (a', False)"
  shows "fst ` set (app_routes a') = fst ` set (app_routes a) \<union> set_option (op_method op)"
  using assms
  by (cases op) (auto simp: app_use_def set_validator_def named_route_def group_route_def Let_def dest!: app_route_ok(2))

lemma app_run_methods: "app_run a \<Longrightarrow> fst ` set (app_routes a) \<subseteq> set public_methods"
proof (induction rule: app_run.induct)
  case (run_new cfg)
  then show ?case by (simp add: empty_app_def)
next
  case (run_op a op a')
  then show ?case using app_do_methods [OF run_op.hyps(2)] by blast
qed

end
