(* ===== verification/App_Theorems.thy ===== *)
theory App_Theorems imports App begin

text \<open>
  What the application guarantees: group prefixes, which routes are served with which
  middleware, error responses, and that requests do not see each other's context.
\<close>

section \<open>Slashes\<close>

definition clean_path :: "string \<Rightarrow> bool" where
  "clean_path p \<longleftrightarrow> \<not> sublist ''//'' p"

lemma trim_char_Cons [simp]: "trim_char d (d # s) = trim_char d s"
  by (simp add: trim_char_def)

lemma trim_char_snoc [simp]: "trim_char d (s @ [d]) = trim_char d s"
proof (cases "\<forall>x\<in>set s. x = d")
  case True
  then have "dropWhile (\<lambda>c. c = d) (s @ [d]) = []" "dropWhile (\<lambda>c. c = d) s = []"
    by (simp_all add: dropWhile_eq_Nil_conv)
  then show ?thesis by (simp only: trim_char_def)
next
  case False
  then show ?thesis by (auto simp: trim_char_def dropWhile_append1)
qed

lemma trim_char_id: "s = [] \<or> hd s \<noteq> d \<and> last s \<noteq> d \<Longrightarrow> trim_char d s = s"
proof -
  have "dropWhile (\<lambda>c. c = d) t = t" if "t \<noteq> []" "hd t \<noteq> d" for t
    using that by (cases t) auto
  then show "s = [] \<or> hd s \<noteq> d \<and> last s \<noteq> d \<Longrightarrow> trim_char d s = s"
    by (cases "s = []") (simp_all add: trim_char_def hd_rev)
qed

lemma clean_tail: "clean_path (c # s) \<Longrightarrow> clean_path s"
  by (auto simp: clean_path_def sublist_Cons_right)

lemma clean_ends:
  assumes "clean_path s"
  shows "s = CHR ''/'' # r \<Longrightarrow> r = [] \<or> hd r \<noteq> CHR ''/''"
    "s = r @ ''/'' \<Longrightarrow> r = [] \<or> last r \<noteq> CHR ''/''"
proof -
  show "r = [] \<or> hd r \<noteq> CHR ''/''" if "s = CHR ''/'' # r"
    using assms that by (cases r) (auto simp: clean_path_def)
  show "r = [] \<or> last r \<noteq> CHR ''/''" if "s = r @ ''/''"
  proof (rule ccontr)
    assume "\<not> ?thesis"
    then obtain r' where "r = r' @ ''/''" by (metis append_butlast_last_id)
    with that have "s = r' @ ''//'' @ []" by simp
    with assms show False unfolding clean_path_def by (metis sublist_appendI)
  qed
qed

text \<open>A clean path is its trimmed text behind one slash, once it is normalized.\<close>

lemma normalize_clean:
  assumes "clean_path p"
  obtains r where "normalize_path p = CHR ''/'' # r" "trim_char (CHR ''/'') p = r"
    "r = [] \<or> hd r \<noteq> CHR ''/'' \<and> last r \<noteq> CHR ''/''"
proof (cases "p = [] \<or> p = ''/''")
  case True
  then show ?thesis by (intro that [of "[]"]) (auto simp: normalize_path_def trim_char_def)
next
  case False
  define s where "s = (if hd p = CHR ''/'' then tl p else p)"
  have s: "clean_path s" "s \<noteq> []" "hd s \<noteq> CHR ''/''" "trim_char (CHR ''/'') p = trim_char (CHR ''/'') s"
    using False assms clean_ends(1) [OF assms] by (cases p; auto simp: s_def dest: clean_tail)+
  have norm: "normalize_path p = (if last s = CHR ''/'' then CHR ''/'' # butlast s else CHR ''/'' # s)"
    using False s(2) by (cases p) (auto simp: normalize_path_def s_def Let_def)
  show ?thesis
  proof (cases "last s = CHR ''/''")
    case False
    with s show ?thesis by (intro that [of s]) (simp_all add: norm trim_char_id)
  next
    case True
    then obtain r where r: "s = r @ ''/''" using s(2) by (metis append_butlast_last_id)
    with s(3) have "r \<noteq> []" by auto
    with r s clean_ends(2) [OF s(1) r] show ?thesis
      by (intro that [of r]) (simp_all add: norm trim_char_id)
  qed
qed

lemma split_on_append_gen: "split_on d (s @ d # t) = split_on d s @ split_on d t"
proof (induction s)
  case Nil
  then show ?case by simp
next
  case (Cons c s)
  then show ?case by (cases "split_on d s") auto
qed

text \<open>A prefix of a group: some slashes, and a text without slashes at its ends.\<close>

definition rooted :: "string \<Rightarrow> string \<Rightarrow> bool" where
  "rooted P r \<longleftrightarrow> (\<exists>k. P = replicate (Suc k) (CHR ''/'') @ r) \<and> (r = [] \<or> hd r \<noteq> CHR ''/'' \<and> last r \<noteq> CHR ''/'')"

definition pieces :: "string \<Rightarrow> string list" where
  "pieces r = (if r = [] then [] else split_on (CHR ''/'') r)"

lemma trim_char_replicate [simp]: "trim_char d (replicate k d @ s) = trim_char d s"
  by (induction k) auto

lemma rooted_pieces: "rooted P r \<Longrightarrow> split_path P = pieces r"
proof -
  assume "rooted P r"
  then obtain k where "P = replicate (Suc k) (CHR ''/'') @ r" "trim_char (CHR ''/'') r = r"
    by (auto simp: rooted_def trim_char_id)
  then show ?thesis by (simp add: split_path_def pieces_def)
qed

lemma normalize_rooted:
  assumes "clean_path p"
  obtains r where "normalize_path p = CHR ''/'' # r" "rooted (normalize_path p) r" "pieces r = split_path p"
proof (rule normalize_clean [OF assms])
  fix r
  assume r: "normalize_path p = CHR ''/'' # r" "trim_char (CHR ''/'') p = r"
    "r = [] \<or> hd r \<noteq> CHR ''/'' \<and> last r \<noteq> CHR ''/''"
  have "rooted (normalize_path p) r"
    unfolding rooted_def r(1) by (rule conjI [OF exI [of _ 0] r(3)]) simp
  with r show thesis by (intro that [of r]) (simp_all add: pieces_def split_path_def)
qed

lemma normalize_keeps: "P \<noteq> [] \<Longrightarrow> hd P = CHR ''/'' \<Longrightarrow> last P \<noteq> CHR ''/'' \<Longrightarrow> normalize_path P = P"
  by (cases P) (auto simp: normalize_path_def)

lemma normalize_drops: "P \<noteq> [] \<Longrightarrow> hd P = CHR ''/'' \<Longrightarrow> normalize_path (P @ ''/'') = P"
  by (cases P) (auto simp: normalize_path_def)

lemma rooted_join:
  assumes "rooted P r" "clean_path q"
  obtains r' where "rooted (normalize_path (P @ normalize_path q)) r'" "pieces r' = pieces r @ split_path q"
proof (rule normalize_rooted [OF assms(2)])
  fix u
  assume u: "normalize_path q = CHR ''/'' # u" "rooted (normalize_path q) u" "pieces u = split_path q"
  from assms(1) obtain k where P: "P = replicate (Suc k) (CHR ''/'') @ r"
    and r: "r = [] \<or> hd r \<noteq> CHR ''/'' \<and> last r \<noteq> CHR ''/''" by (auto simp: rooted_def)
  from u(2) have ends: "u = [] \<or> hd u \<noteq> CHR ''/'' \<and> last u \<noteq> CHR ''/''" by (simp add: rooted_def)
  show thesis
  proof (cases "u = []")
    case True
    have "normalize_path (P @ ''/'') = P" by (rule normalize_drops) (simp_all add: P)
    with True u(1,3) assms(1) show thesis by (intro that [of r]) (simp_all add: pieces_def)
  next
    case False
    let ?r = "if r = [] then u else r @ CHR ''/'' # u"
    have "normalize_path (P @ CHR ''/'' # u) = P @ CHR ''/'' # u"
      by (rule normalize_keeps) (use False ends in \<open>simp_all add: P\<close>)
    moreover have "rooted (P @ CHR ''/'' # u) ?r"
      using False ends r P replicate_append_same [of "Suc k" "CHR ''/''"]
      by (auto simp: rooted_def intro: exI [of _ k] exI [of _ "Suc k"])
    moreover have "pieces ?r = pieces r @ split_path q"
      using False by (simp add: pieces_def split_on_append_gen flip: u(3))
    ultimately show thesis by (intro that [of ?r]) (simp_all only: u(1))
  qed
qed

lemma rooted_normalize: "rooted P r \<Longrightarrow> split_path (normalize_path P) = split_path P"
proof -
  assume P: "rooted P r"
  then obtain k where k: "P = replicate (Suc k) (CHR ''/'') @ r"
    and r: "r = [] \<or> hd r \<noteq> CHR ''/'' \<and> last r \<noteq> CHR ''/''" by (auto simp: rooted_def)
  show ?thesis
  proof (cases "r = []")
    case True
    have *: "split_path (replicate n (CHR ''/'')) = []" for n
      using trim_char_replicate [where k = n and d = "CHR ''/''" and s = "[]"] by (simp add: split_path_def trim_char_def)
    moreover have "\<exists>n. normalize_path P = replicate n (CHR ''/'')"
    proof (cases k)
      case 0
      with True k show ?thesis by (intro exI [of _ 1]) (simp add: normalize_path_def)
    next
      case (Suc j)
      with True k have "P = replicate (Suc j) (CHR ''/'') @ ''/''"
        using replicate_append_same [of "Suc j" "CHR ''/''"] by simp
      then have "normalize_path P = replicate (Suc j) (CHR ''/'')"
        by (simp only:) (rule normalize_drops, simp_all)
      then show ?thesis by blast
    qed
    ultimately show ?thesis using True k * [of "Suc k"] by auto
  next
    case False
    then have "normalize_path P = P" using r k by (intro normalize_keeps) auto
    then show ?thesis by simp
  qed
qed

section \<open>Groups\<close>

definition nested_group ::
  "(string \<times> 'w middleware list) list \<Rightarrow> 'w group \<Rightarrow> 'w group" where
  "nested_group gs g = fold (\<lambda>(p, mw) g. group_group g p mw) gs g"

lemma nested_group_rooted:
  assumes "rooted (grp_prefix g) r" "list_all (\<lambda>(p, mw). clean_path p) gs"
  shows "\<exists>r'. rooted (grp_prefix (nested_group gs g)) r' \<and>
    pieces r' = pieces r @ concat (map (split_path \<circ> fst) gs) \<and>
    grp_mw (nested_group gs g) = grp_mw g @ concat (map snd gs)"
  using assms
proof (induction gs arbitrary: g r)
  case Nil
  then show ?case by (auto simp: nested_group_def)
next
  case (Cons x gs)
  obtain p mw where x: "x = (p, mw)" by (cases x)
  from Cons.prems x have "clean_path p" by simp
  then obtain r1 where r1: "rooted (normalize_path (grp_prefix g @ normalize_path p)) r1" "pieces r1 = pieces r @ split_path p"
    by (rule rooted_join [OF Cons.prems(1)])
  have "rooted (grp_prefix (group_group g p mw)) r1"
    using r1(1) by (simp add: group_group_def Let_def)
  from Cons.IH [OF this] Cons.prems(2) r1(2) show ?case
    by (auto simp: x nested_group_def group_group_def Let_def)
qed

text \<open>
  A route of a group, nested however deep, is registered under the segments of the
  prefixes followed by its own, and behind the middleware of the groups from the outermost
  in; it does not matter whether prefixes begin or end with a slash.
\<close>

theorem group_route_path_and_middleware:
  assumes "clean_path p" "list_all (\<lambda>(p, mw). clean_path p) gs" "clean_path path"
  shows "\<exists>full. group_route (nested_group gs (app_group p mw0)) method path h mw a =
      app_route method full h (mw0 @ concat (map snd gs) @ mw) a \<and>
    parse_segments (normalize_path full) =
      parse_segments p @ concat (map (parse_segments \<circ> fst) gs) @ parse_segments path"
proof -
  from assms(1) obtain r where r: "rooted (normalize_path p) r" "pieces r = split_path p"
    by (rule normalize_rooted)
  from r(1) have "rooted (grp_prefix (app_group p mw0)) r" by (simp add: app_group_def)
  from nested_group_rooted [OF this assms(2)] obtain r' where
    r': "rooted (grp_prefix (nested_group gs (app_group p mw0))) r'"
      "pieces r' = split_path p @ concat (map (split_path \<circ> fst) gs)"
      "grp_mw (nested_group gs (app_group p mw0)) = mw0 @ concat (map snd gs)"
    using r(2) by (auto simp: app_group_def)
  let ?full = "normalize_path (grp_prefix (nested_group gs (app_group p mw0)) @ normalize_path path)"
  obtain r2 where r2: "rooted ?full r2" "pieces r2 = pieces r' @ split_path path"
    by (rule rooted_join [OF r'(1) assms(3)])
  have "split_path (normalize_path ?full) = split_path p @ concat (map (split_path \<circ> fst) gs) @ split_path path"
    using rooted_normalize [OF r2(1)] rooted_pieces [OF r2(1)] r2(2) r'(2) by simp
  then show ?thesis
    by (intro exI [of _ ?full]) (simp add: group_route_def r'(3) parse_segments_def map_concat comp_def)
qed

definition demo_app :: "unit app" where
  "demo_app = empty_app \<lparr>cfg_addr = [], cfg_read_timeout = 0, cfg_write_timeout = 0, cfg_idle_timeout = 0,
     cfg_shutdown_timeout = 0, cfg_disable_healthz = True, cfg_enable_metrics_stub = False\<rparr>"

theorem group_route_path_and_middleware_example:
  "\<exists>full. group_route (nested_group [(''v1/'', [])] (app_group ''/api'' [])) ''GET'' ''users/:id'' metrics_stub [] demo_app =
      app_route ''GET'' full metrics_stub [] demo_app \<and>
    parse_segments (normalize_path full) = parse_segments ''/api/v1/users/:id''"
proof -
  have "clean_path ''/api''" "list_all (\<lambda>(p, mw). clean_path p) [(''v1/'', [] :: unit middleware list)]"
    "clean_path ''users/:id''"
    by (simp_all add: clean_path_def sublist_Cons_right)
  moreover have "parse_segments ''/api'' @ parse_segments ''v1/'' @ parse_segments ''users/:id''
      = parse_segments ''/api/v1/users/:id''"
    by code_simp
  ultimately show ?thesis
    using group_route_path_and_middleware [of "''/api''" "[(''v1/'', [])]" "''users/:id''" "[]" "''GET''" metrics_stub "[]" demo_app]
    by simp
qed

section \<open>Serving\<close>

lemma write_error_sent:
  "ws_sent (ctx_writer (write_error enc err c)) = Some (case ws_sent (ctx_writer c) of
      None \<Rightarrow> (case as_http_error err of Some he \<Rightarrow> he_status he | None \<Rightarrow> 500,
                (ws_header (ctx_writer c))(''Content-Type'' \<mapsto> ''application/json''))
    | Some sent \<Rightarrow> sent)"
  by (simp add: write_error_def error_response_def ctx_json_def Let_def split: option.split sum.split)

lemma reachable_calls:
  assumes "app_run a"
  obtains calls where "accepted calls" "app_router a = router_of calls"
    "app_routes a = map (\<lambda>(m, path, h). (m, path)) calls"
  using app_run_routes_agree [OF assms] by (auto simp: routes_agree_def)

text \<open>
  C19. A request is served by a route of the table \<open>Routes()\<close> lists, of the same method and
  with a pattern that fits its path; when no listed pattern fits, the answer is 404 and
  nothing else happens.
\<close>

theorem served_by_listed_routes:
  assumes "app_run a" "ws_sent w = None"
    and "\<forall>(m, p)\<in>set (app_routes a). m = rq_method r \<longrightarrow>
      pattern_values (parse_segments p) (split_path (rq_path r)) = None"
  shows "case serve_http enc a c0 w r s of (panic, c, s') \<Rightarrow>
    panic = None \<and> s' = s \<and>
    ws_sent (ctx_writer c) = Some (404, (ws_header w)(''Content-Type'' \<mapsto> ''application/json''))"
proof -
  obtain calls where calls: "accepted calls" "app_router a = router_of calls"
      "app_routes a = map (\<lambda>(m, path, h). (m, path)) calls"
    by (rule reachable_calls [OF assms(1)])
  obtain entry params where f: "router_find (app_router a) (rq_method r) (rq_path r) = (entry, params)"
    by (metis prod.exhaust)
  have "entry = None"
  proof (cases entry)
    case (Some e)
    with find_registered [OF calls(1), of "rq_method r" "rq_path r" e params] f calls(2,3) assms(3)
    show ?thesis by fastforce
  qed
  with f assms(2) show ?thesis
    by (simp add: serve_http_def write_error_sent ctx_reset_def err_not_found_def new_http_error_def)
qed

definition get_request :: "string \<Rightarrow> request" where
  "get_request path =
     \<lparr>rq_method = ''GET'', rq_path = path, rq_header = Map.empty, rq_body = [], rq_limit = None\<rparr>"

definition pooled_ctx :: ctx where
  "pooled_ctx =
     \<lparr>ctx_writer = fresh_writer, ctx_request = get_request ''/earlier'',
      ctx_params = [(''id'', ''7'')], ctx_values = Map.empty,
      ctx_route_pattern = ''/earlier''\<rparr>"

definition plain_enc :: "json_body \<Rightarrow> string + string" where
  "plain_enc b = (case b of JsonError e \<Rightarrow> Inr (eb_code e) | JsonValue v \<Rightarrow> Inr ''value'')"

definition stub_app :: "unit app" where
  "stub_app = fst (app_route ''GET'' ''/hello/:name'' metrics_stub [] demo_app)"

lemma stub_app_run: "app_run stub_app"
proof -
  have "wildcard_last (parse_segments (normalize_path ''/hello/:name''))" by code_simp
  then have "\<not> snd (app_route ''GET'' ''/hello/:name'' h mw (empty_app cfg))" for h mw cfg
    by (simp add: app_route_panics)
  then show ?thesis unfolding stub_app_def demo_app_def
    by (intro run_op [OF run_new, where op = "OpRoute ''GET'' ''/hello/:name'' metrics_stub []"])
      (rule prod_eqI, simp_all add: public_methods_def)
qed

theorem served_by_listed_routes_example:
  "case serve_http plain_enc stub_app pooled_ctx fresh_writer (get_request ''/bye/x'') () of (panic, c, s') \<Rightarrow>
     ws_sent (ctx_writer c) = Some (404, (ws_header fresh_writer)(''Content-Type'' \<mapsto> ''application/json''))"
proof -
  have "app_routes stub_app = [(''GET'', ''/hello/:name'')]" by code_simp
  moreover have "pattern_values (parse_segments ''/hello/:name'') (split_path ''/bye/x'') = None" by code_simp
  ultimately show ?thesis
    using served_by_listed_routes [OF stub_app_run, where w = fresh_writer
      and r = "get_request ''/bye/x''" and enc = plain_enc and ?c0.0 = pooled_ctx and s = "()"]
    by (simp add: fresh_writer_def get_request_def split: prod.splits)
qed




text \<open>
  Requests are isolated from each other although contexts are pooled: whatever the
  context that served an earlier request holds (its values, parameters, route), a request is
  answered as if the context were new.
\<close>

theorem pooled_context_is_forgotten:
  "serve_http enc a c0 w r s = serve_http enc a c1 w r s"
  by (simp add: serve_http_def ctx_reset_forgets [of c0 w r c1])

text \<open>
  \<open>RegisterPlugins\<close> stops at the first error and never registers a name twice: as long
  as initialisers leave the registered names alone, the names stay distinct and not empty,
  and without an error every plugin that is not nil is registered.
\<close>

theorem plugins_registered_once:
  assumes "distinct (app_plugins a)" "[] \<notin> set (app_plugins a)"
    and "\<forall>p\<in>set ps. \<forall>name init. p = Some (name, init) \<longrightarrow> (\<forall>a. app_plugins (snd (init a)) = app_plugins a)"
    and "register_plugins ps a = (err, a')"
  shows "distinct (app_plugins a') \<and> [] \<notin> set (app_plugins a') \<and>
    (err = None \<longrightarrow> app_plugins a' = app_plugins a @ map fst (map the (filter (\<lambda>p. p \<noteq> None) ps)))"
  using assms
proof (induction ps a rule: register_plugins.induct)
  case (1 a)
  then show ?case by simp
next
  case (2 ps a)
  then show ?case by auto
next
  case (3 name init ps a)
  have keeps: "app_plugins (snd (init a)) = app_plugins a" using "3.prems"(3) by auto
  show ?case
  proof (cases "name = [] \<or> name \<in> set (app_plugins a)")
    case True
    with "3.prems" show ?thesis by (auto split: if_splits)
  next
    case False
    obtain e a1 where i: "init a = (e, a1)" by (cases "init a")
    show ?thesis
    proof (cases e)
      case (Some x)
      with i keeps False "3.prems" show ?thesis by auto
    next
      case None
      with i False "3.prems"(4) have r: "register_plugins ps (a1\<lparr>app_plugins := app_plugins a1 @ [name]\<rparr>) = (err, a')"
        by simp
      from i keeps False None have "app_plugins a1 = app_plugins a" by simp
      with "3.IH" [OF _ _ i [symmetric] None] r False "3.prems" show ?thesis by auto
    qed
  qed
qed

theorem plugins_registered_once_example:
  "app_plugins (snd (register_plugins [Some (''auth'', \<lambda>a. (None, a)), None, Some (''auth'', \<lambda>a. (None, a))] stub_app))
     = [''auth''] \<and> distinct [''auth'']"
proof -
  let ?ps = "[Some (''auth'', \<lambda>a. (None, a)), None, Some (''auth'', \<lambda>a. (None, a))]"
  have p: "app_plugins stub_app = []" by code_simp
  then have "app_plugins (snd (register_plugins ?ps stub_app)) = [''auth'']" by simp
  moreover have "distinct (app_plugins (snd (register_plugins ?ps stub_app)))"
    using plugins_registered_once [of stub_app ?ps, OF _ _ _ prod.collapse [symmetric]] by (simp add: p)
  ultimately show ?thesis by simp
qed

end
