(* ===== verification/Middleware.thy ===== *)
theory Middleware imports Web_Ctx begin

text \<open>
  Package \<open>middleware\<close>. The random bytes of a request id are a parameter (\<open>None\<close> when the
  generator fails). \<open>Logger\<close> is in theory \<open>Observers\<close>.
\<close>

definition body_limit :: "int \<Rightarrow> 'w middleware" where
  "body_limit max_bytes next c s =
     next (c\<lparr>ctx_request := (ctx_request c)\<lparr>rq_limit := Some max_bytes\<rparr>\<rparr>) s"

record cors_config =
  allowed_origins :: "string list"
  allowed_methods :: "string list"
  allowed_headers :: "string list"

fun join_csv :: "string list \<Rightarrow> string" where
  "join_csv [] = []"
| "join_csv (item # items) = foldl (\<lambda>out item. out @ '','' @ item) item items"

definition map_writer :: "(writer \<Rightarrow> writer) \<Rightarrow> ctx \<Rightarrow> ctx" where
  "map_writer f c = c\<lparr>ctx_writer := f (ctx_writer c)\<rparr>"

definition cors :: "cors_config \<Rightarrow> 'w middleware" where
  "cors cfg next c s =
     (let methods = (if allowed_methods cfg \<noteq> [] then join_csv (allowed_methods cfg)
                     else ''GET,POST,PUT,PATCH,DELETE,OPTIONS'');
          headers = (if allowed_headers cfg \<noteq> [] then join_csv (allowed_headers cfg)
                     else ''Authorization,Content-Type,X-Request-Id'');
          origin = ctx_header c ''Origin'';
          c = (if origin \<in> set (allowed_origins cfg)
               then map_writer (header_set ''Access-Control-Allow-Headers'' headers \<circ>
                                header_set ''Access-Control-Allow-Methods'' methods \<circ>
                                header_set ''Access-Control-Allow-Origin'' origin) c
               else c)
      in if rq_method (ctx_request c) = ''OPTIONS''
         then (Returned None, map_writer (write_header 204) c, s)
         else next c s)"

text \<open>\<open>Recover\<close> turns a panic of the handlers below it into an internal error.\<close>

definition recover :: "'w middleware" where
  "recover next c s =
     (case next c s of
        (Panicked msg, c', s') \<Rightarrow> (Returned (Some (err_internal msg)), c', s')
      | r \<Rightarrow> r)"

definition request_id_key :: string where "request_id_key = ''request_id''"

definition hex_digit :: "nat \<Rightarrow> char" where
  "hex_digit n = (if n < 10 then char_of (48 + n) else char_of (87 + n))"

definition hex_encode :: "nat list \<Rightarrow> string" where
  "hex_encode bytes = concat (map (\<lambda>b. [hex_digit (b div 16), hex_digit (b mod 16)]) bytes)"

definition new_request_id :: "nat list option \<Rightarrow> string" where
  "new_request_id rand =
     (case rand of None \<Rightarrow> ''req_fallback'' | Some bytes \<Rightarrow> ''req_'' @ hex_encode bytes)"

definition request_id_prepare :: "nat list option \<Rightarrow> ctx \<Rightarrow> ctx" where
  "request_id_prepare rand c =
     (let header = ctx_header c ''X-Request-Id'';
          req_id = (if header = [] then new_request_id rand else header)
      in map_writer (header_set ''X-Request-Id'' req_id) (ctx_set request_id_key (Any (VStr req_id)) c))"

definition request_id :: "nat list option \<Rightarrow> 'w middleware" where
  "request_id rand next c s = next (request_id_prepare rand c) s"

definition secure_headers :: "'w middleware" where
  "secure_headers next c s =
     next (map_writer (header_set ''Referrer-Policy'' ''no-referrer'' \<circ> header_set ''X-Frame-Options'' ''DENY''
             \<circ> header_set ''X-Content-Type-Options'' ''nosniff'') c) s"

text \<open>These three prepare the context and go on, so a chain runs them from left to right.\<close>

interpretation limit: preparing_middleware "body_limit max_bytes"
    "\<lambda>c. c\<lparr>ctx_request := (ctx_request c)\<lparr>rq_limit := Some max_bytes\<rparr>\<rparr>" for max_bytes
  by unfold_locales (simp add: body_limit_def)

interpretation reqid: preparing_middleware "request_id rand" "request_id_prepare rand" for rand
  by unfold_locales (simp add: request_id_def)

interpretation secure: preparing_middleware secure_headers
    "map_writer (header_set ''Referrer-Policy'' ''no-referrer'' \<circ> header_set ''X-Frame-Options'' ''DENY''
       \<circ> header_set ''X-Content-Type-Options'' ''nosniff'')"
  by unfold_locales (simp add: secure_headers_def)

lemma map_writer_simps [simp]:
  "ctx_writer (map_writer f c) = f (ctx_writer c)" "ctx_request (map_writer f c) = ctx_request c"
  "ctx_values (map_writer f c) = ctx_values c" "ctx_get (map_writer f c) k = ctx_get c k"
  by (simp_all add: map_writer_def ctx_get_def)

end
