(* ===== verification/Metrics.thy ===== *)
theory Metrics imports App "HOL-Library.Word" "HOL-Library.Product_Lexorder" begin

text \<open>
  Package \<open>observability\<close>, metrics.go: request counters. The counters are 64-bit words; the
  duration of a request is an input. The seconds are exported through a floating point
  format (\<open>%.6f\<close>), which is a parameter of \<open>export_metrics\<close>; \<open>trace.go\<close> is in theory
  \<open>Observers\<close>.
\<close>

type_synonym metric_key = "string \<times> string \<times> int"

record metrics =
  requests_total :: "(metric_key \<times> 64 word) list"
  duration_ns :: "(metric_key \<times> 64 word) list"

definition new_metrics :: metrics where
  "new_metrics = \<lparr>requests_total = [], duration_ns = []\<rparr>"

text \<open>A Go map from keys to numbers, where a missing key reads as zero, as an association list.\<close>

fun counter_get :: "(metric_key \<times> 64 word) list \<Rightarrow> metric_key \<Rightarrow> 64 word" where
  "counter_get [] k = 0"
| "counter_get ((k', v) # m) k = (if k' = k then v else counter_get m k)"

fun counter_add :: "metric_key \<Rightarrow> 64 word \<Rightarrow> (metric_key \<times> 64 word) list \<Rightarrow> (metric_key \<times> 64 word) list" where
  "counter_add k d [] = [(k, d)]"
| "counter_add k d ((k', v) # m) = (if k' = k then (k', v + d) # m else (k', v) # counter_add k d m)"

definition record_request :: "string \<Rightarrow> string \<Rightarrow> int \<Rightarrow> 64 word \<Rightarrow> metrics \<Rightarrow> metrics" where
  "record_request method rt status d m =
     \<lparr>requests_total = counter_add (method, rt, status) 1 (requests_total m),
      duration_ns = counter_add (method, rt, status) d (duration_ns m)\<rparr>"

text \<open>
  \<open>Middleware\<close>: a status writer goes around the writer for the rest of the request. The type
  assertion on the error sees the error itself only, not one it wraps. The metrics are a part of
  the world of the handlers, which \<open>upd\<close> updates.
\<close>

definition observed_status :: "nat \<Rightarrow> go_error option \<Rightarrow> ctx \<Rightarrow> int" where
  "observed_status observer err c =
     (case err of
        None \<Rightarrow> ws_observers (ctx_writer c) ! observer
      | Some (HttpError he) \<Rightarrow> he_status he
      | Some _ \<Rightarrow> 500)"

definition metrics_middleware :: "((metrics \<Rightarrow> metrics) \<Rightarrow> 'w \<Rightarrow> 'w) \<Rightarrow> 64 word \<Rightarrow> 'w middleware" where
  "metrics_middleware upd duration next c m =
     (let w = ctx_writer c;
          observer = length (ws_observers w)
      in case next (c\<lparr>ctx_writer := w\<lparr>ws_observers := ws_observers w @ [200]\<rparr>\<rparr>) m of
           (Panicked msg, c', m') \<Rightarrow> (Panicked msg, c', m')
         | (Returned err, c', m') \<Rightarrow>
             (let status = observed_status observer err c';
                  rt = (if ctx_route_pattern c' = [] then rq_path (ctx_request c') else ctx_route_pattern c')
              in (Returned err, c', upd (record_request (rq_method (ctx_request c')) rt status duration) m')))"

definition escape_label :: "string \<Rightarrow> string" where
  "escape_label s =
     (let s = concat (map (\<lambda>c. if c = CHR 0x5C then [CHR 0x5C, CHR 0x5C] else [c]) s)
      in concat (map (\<lambda>c. if c = CHR 0x22 then [CHR 0x5C, CHR 0x22] else [c]) s))"

definition quoted :: "string \<Rightarrow> string" where
  "quoted s = CHR 0x22 # escape_label s @ [CHR 0x22]"

definition metric_labels :: "metric_key \<Rightarrow> string" where
  "metric_labels k =
     (case k of (method, rt, status) \<Rightarrow>
        ''{method='' @ quoted method @ '',route='' @ quoted rt @ '',status='' @ CHR 0x22 # show_int status @ CHR 0x22 # ''} '')"

definition newline :: string where "newline = [CHR 0x0A]"

text \<open>The keys in the order of the comparison given to \<open>sort.Slice\<close>.\<close>

definition sorted_keys :: "metrics \<Rightarrow> metric_key list" where
  "sorted_keys m = sort (map fst (requests_total m))"

definition export_metrics :: "(64 word \<Rightarrow> string) \<Rightarrow> metrics \<Rightarrow> string" where
  "export_metrics seconds m =
     ''# HELP elgon_http_requests_total Total HTTP requests.'' @ newline @
     ''# TYPE elgon_http_requests_total counter'' @ newline @
     concat (map (\<lambda>k. ''elgon_http_requests_total'' @ metric_labels k @
       show_nat (unat (counter_get (requests_total m) k)) @ newline) (sorted_keys m)) @
     ''# HELP elgon_http_request_duration_seconds_total Total request duration seconds.'' @ newline @
     ''# TYPE elgon_http_request_duration_seconds_total counter'' @ newline @
     concat (map (\<lambda>k. ''elgon_http_request_duration_seconds_total'' @ metric_labels k @
       seconds (counter_get (duration_ns m) k) @ newline) (sorted_keys m))"

text \<open>\<open>Handler\<close>, which reads the metrics of the world with \<open>get\<close>, and \<open>RegisterRoute\<close>.\<close>

definition metrics_handler :: "('w \<Rightarrow> metrics) \<Rightarrow> (64 word \<Rightarrow> string) \<Rightarrow> 'w handler" where
  "metrics_handler get seconds c s =
     (let w = header_set ''Content-Type'' ''text/plain; version=0.0.4'' (ctx_writer c)
      in (Returned None, c\<lparr>ctx_writer := write_body (export_metrics seconds (get s)) w\<rparr>, s))"

definition register_metrics_route ::
  "('w \<Rightarrow> metrics) \<Rightarrow> (64 word \<Rightarrow> string) \<Rightarrow> string \<Rightarrow> 'w app \<Rightarrow> 'w app \<times> bool" where
  "register_metrics_route get seconds path a =
     app_route ''GET'' (if path = [] then ''/metrics'' else path) (metrics_handler get seconds) [] a"

section \<open>Counting\<close>

lemma counter_get_add: "counter_get (counter_add k d m) k' = (if k = k' then counter_get m k' + d else counter_get m k')"
  by (induction k d m rule: counter_add.induct) auto

lemma counter_add_key_list:
  "map fst (counter_add k d m) = (if k \<in> set (map fst m) then map fst m else map fst m @ [k])"
  by (induction k d m rule: counter_add.induct) (auto split: if_splits)

lemma counter_add_keys:
  "distinct (map fst m) \<Longrightarrow> distinct (map fst (counter_add k d m))"
  "fst ` set (counter_add k d m) = insert k (fst ` set m)"
  using arg_cong [OF counter_add_key_list [of k d m], of set]
  by (auto simp: counter_add_key_list simp flip: set_map split: if_splits)

text \<open>A history of requests: method, route, status and duration of each.\<close>

type_synonym observed_request = "string \<times> string \<times> int \<times> 64 word"

definition record_all :: "observed_request list \<Rightarrow> metrics \<Rightarrow> metrics" where
  "record_all rs m = fold (\<lambda>(method, rt, status, d). record_request method rt status d) rs m"

definition has_key :: "metric_key \<Rightarrow> observed_request \<Rightarrow> bool" where
  "has_key k r = (case r of (method, rt, status, d) \<Rightarrow> (method, rt, status) = k)"

lemma record_all_counts:
  "counter_get (requests_total (record_all rs m)) k =
     counter_get (requests_total m) k + of_nat (length (filter (has_key k) rs))"
  "counter_get (duration_ns (record_all rs m)) k =
     counter_get (duration_ns m) k + sum_list (map (\<lambda>(method, rt, status, d). d) (filter (has_key k) rs))"
  by (induction rs arbitrary: m)
    (auto simp: record_all_def record_request_def counter_get_add has_key_def algebra_simps)

lemma record_all_keys:
  "distinct (map fst (requests_total m)) \<Longrightarrow> distinct (map fst (requests_total (record_all rs m)))"
  "fst ` set (requests_total (record_all rs m)) = fst ` set (requests_total m) \<union> (\<lambda>(a, b, c, d). (a, b, c)) ` set rs"
  by (induction rs arbitrary: m)
    (auto simp: record_all_def record_request_def counter_add_keys split: prod.splits)

text \<open>
  The counters count: after any history, the counter of a method, route and status is
  the number of its requests (modulo the 64 bits), and the export lists every key that
  occurred exactly once, in order.
\<close>

theorem counters_count_requests:
  "counter_get (requests_total (record_all rs new_metrics)) k = of_nat (length (filter (has_key k) rs)) \<and>
   set (sorted_keys (record_all rs new_metrics)) = (\<lambda>(method, rt, status, d). (method, rt, status)) ` set rs \<and>
   distinct (sorted_keys (record_all rs new_metrics)) \<and> sorted (sorted_keys (record_all rs new_metrics))"
  using record_all_counts(1) [where m = new_metrics and rs = rs and k = k]
    record_all_keys [where m = new_metrics and rs = rs]
  by (simp add: new_metrics_def sorted_keys_def)

section \<open>Labels\<close>

text \<open>How a reader of the export reads a label back, up to the closing quote.\<close>

fun read_label :: "string \<Rightarrow> (string \<times> string) option" where
  "read_label [] = None"
| "read_label (c # cs) =
     (if c = CHR 0x22 then Some ([], cs)
      else if c = CHR 0x5C then
        (case cs of [] \<Rightarrow> None | d # ds \<Rightarrow> map_option (apfst (Cons d)) (read_label ds))
      else map_option (apfst (Cons c)) (read_label cs))"

lemma escape_label_simps [simp]:
  "escape_label [] = []"
  "escape_label (c # s) =
     (if c = CHR 0x5C \<or> c = CHR 0x22 then [CHR 0x5C, c] else [c]) @ escape_label s"
  by (simp_all add: escape_label_def Let_def)

text \<open>
  Labels are escaped so that they can be read back: whatever a path contains, quotes and
  backslashes included, it cannot close its label early or swallow the closing quote.
\<close>

theorem escaped_label_reads_back:
  "read_label (tl (quoted s) @ rest) = Some (s, rest)"
proof -
  have "read_label (escape_label s @ CHR 0x22 # rest) = Some (s, rest)"
    by (induction s) auto
  then show ?thesis by (simp add: quoted_def)
qed

end
