(* ===== verification/Web_Theorems.thy ===== *)
theory Web_Theorems imports App_Theorems Middleware Metrics begin

text \<open>
  Properties across the application and its middleware: what CORS, Recover and the metrics
  do to a request that is served.
\<close>

lemma join_csv_join: "join_csv items = join '','' items"
proof -
  have "foldl (\<lambda>out item. out @ '','' @ item) s items = join '','' (s # items)" for s and items :: "string list"
    by (induction items arbitrary: s) (auto simp: join_Cons)
  then show ?thesis by (cases items) simp_all
qed

text \<open>
  CORS grants nothing to an origin that is not listed: such a request is passed on as it
  came (or answered with an empty 204 when it is a preflight), and a listed origin is granted
  by its own name, never by a wildcard.
\<close>

theorem cors_grants_listed_origins_only:
  "(if ctx_header c ''Origin'' \<notin> set (allowed_origins cfg)
    then cors cfg next c s =
      (if rq_method (ctx_request c) = ''OPTIONS'' then (Returned None, map_writer (write_header 204) c, s)
       else next c s)
    else rq_method (ctx_request c) \<noteq> ''OPTIONS'' \<longrightarrow>
      (\<exists>c'. cors cfg next c s = next c' s \<and> ctx_request c' = ctx_request c \<and> ctx_values c' = ctx_values c \<and>
        ws_header (ctx_writer c') ''Access-Control-Allow-Origin'' = Some (ctx_header c ''Origin'') \<and>
        (allowed_methods cfg \<noteq> [] \<longrightarrow>
          ws_header (ctx_writer c') ''Access-Control-Allow-Methods'' = Some (join '','' (allowed_methods cfg)))))"
  by (auto simp: cors_def Let_def join_csv_join)

definition demo_cors :: cors_config where
  "demo_cors = \<lparr>allowed_origins = [''https://a.example''], allowed_methods = [''GET'', ''PUT''], allowed_headers = []\<rparr>"

definition origin_ctx :: "string \<Rightarrow> ctx" where
  "origin_ctx origin =
     \<lparr>ctx_writer = fresh_writer,
      ctx_request = (get_request ''/x'')\<lparr>rq_header := [''Origin'' \<mapsto> origin]\<rparr>,
      ctx_params = [], ctx_values = Map.empty, ctx_route_pattern = ''/x''\<rparr>"

theorem cors_grants_listed_origins_only_example:
  "cors demo_cors metrics_stub (origin_ctx ''https://b.example'') () = metrics_stub (origin_ctx ''https://b.example'') ()"
proof -
  have "ctx_header (origin_ctx ''https://b.example'') ''Origin'' \<notin> set (allowed_origins demo_cors)" by code_simp
  moreover have "rq_method (ctx_request (origin_ctx ''https://b.example'')) \<noteq> ''OPTIONS''" by code_simp
  ultimately show ?thesis
    using cors_grants_listed_origins_only [of "origin_ctx ''https://b.example''" demo_cors metrics_stub "()"] by simp
qed

text \<open>
  No preflight ever reaches the CORS middleware: the application registers routes of five
  methods only and \<open>OPTIONS\<close> is not one of them, so every \<open>OPTIONS\<close> request is answered with
  404 and without any CORS header, whatever middleware the application uses.
\<close>

theorem preflight_is_never_served:
  assumes "app_run a" "ws_sent w = None" "rq_method r = ''OPTIONS''"
  shows "case serve_http enc a c0 w r s of (panic, c, s') \<Rightarrow>
    panic = None \<and> s' = s \<and>
    ws_sent (ctx_writer c) = Some (404, (ws_header w)(''Content-Type'' \<mapsto> ''application/json''))"
proof -
  obtain calls where calls: "accepted calls" "app_router a = router_of calls"
      "app_routes a = map (\<lambda>(m, path, h). (m, path)) calls"
    by (rule reachable_calls [OF assms(1)])
  have "''OPTIONS'' \<notin> fst ` set (app_routes a)"
    using app_run_methods [OF assms(1)] by (auto simp: public_methods_def)
  then have "registered ''OPTIONS'' calls = []"
    unfolding registered_def calls(3) by (force simp: filter_empty_conv)
  then have "router_find (app_router a) (rq_method r) (rq_path r) = (None, [])"
    using assms(3) calls(2) by (simp add: router_find_def router_of_tree subtree_def)
  with assms(2) show ?thesis
    by (simp add: serve_http_def write_error_sent ctx_reset_def err_not_found_def new_http_error_def)
qed

theorem preflight_is_never_served_example:
  "case serve_http plain_enc stub_app pooled_ctx fresh_writer ((get_request ''/hello/you'')\<lparr>rq_method := ''OPTIONS''\<rparr>) ()
   of (panic, c, s') \<Rightarrow>
     ws_sent (ctx_writer c) = Some (404, (ws_header fresh_writer)(''Content-Type'' \<mapsto> ''application/json''))"
  using preflight_is_never_served [OF stub_app_run, where w = fresh_writer and enc = plain_enc and ?c0.0 = pooled_ctx
      and r = "(get_request ''/hello/you'')\<lparr>rq_method := ''OPTIONS''\<rparr>" and s = "()"]
  by (simp add: fresh_writer_def split: prod.splits)

text \<open>
  With \<open>Recover\<close> outermost no panic of the handler or of the middleware below leaves
  \<open>ServeHTTP\<close>: it is answered with status 500. The text of the panic is the message of that
  response, unlike the text of an untyped error.
\<close>

theorem recover_answers_panics:
  assumes "router_find (app_router a) (rq_method r) (rq_path r) = (Some e, params)"
    and "re_handler e = chain h (recover # mws)" "ws_sent w = None"
    and "chain h mws (ctx_reset c0 w r \<lparr>ctx_params := params, ctx_route_pattern := re_path e\<rparr>) s = (Panicked msg, c1, s1)"
    and "ws_sent (ctx_writer c1) = None"
  shows "case serve_http enc a c0 w r s of (panic, c, s') \<Rightarrow>
      panic = None \<and> s' = s1 \<and> (\<exists>header. ws_sent (ctx_writer c) = Some (500, header)) \<and>
      c = write_error enc (err_internal msg) c1 \<and>
      eb_message (snd (error_response (err_internal msg) reqid)) = msg"
  using assms
  by (simp add: serve_http_def recover_def write_error_sent err_internal_def new_http_error_def error_response_def)

definition panicking :: "unit handler" where
  "panicking c s = (Panicked ''boom'', c, s)"

definition panic_app :: "unit app" where
  "panic_app = fst (app_route ''GET'' ''/p'' panicking [recover] stub_app)"

theorem recover_answers_panics_example:
  "fst (serve_http plain_enc panic_app pooled_ctx fresh_writer (get_request ''/p'') ()) = None"
proof -
  let ?r = "get_request ''/p''"
  let ?c = "ctx_reset pooled_ctx fresh_writer ?r \<lparr>ctx_params := [], ctx_route_pattern := ''/p''\<rparr>"
  let ?e = "\<lparr>re_handler = chain panicking (recover # []), re_method = ''GET'', re_path = ''/p''\<rparr>"
  have n: "normalize_path ''/p'' = ''/p''" by code_simp
  have "wildcard_last (parse_segments ''/p'')" by code_simp
  then have r: "app_route ''GET'' ''/p'' panicking [recover] stub_app = (panic_app, False)"
    using app_route_panics [of "''GET''" "''/p''" panicking "[recover]" stub_app]
    by (simp add: n panic_app_def prod_eq_iff)
  have l: "list_all (\<lambda>seg. seg_kind seg = SegmentStatic) (parse_segments (normalize_path ''/p''))"
    by code_simp
  obtain calls where calls: "accepted calls" "app_router stub_app = router_of calls"
    by (rule reachable_calls [OF stub_app_run])
  have "app_global_mw stub_app = []" by (simp add: stub_app_def demo_app_def app_route_def empty_app_def Let_def split: prod.split)
  with app_route_call [OF r calls] n have "accepted (calls @ [(''GET'', ''/p'', chain panicking [recover])])"
      "app_router panic_app = router_of (calls @ [(''GET'', ''/p'', chain panicking [recover])])" by simp_all
  with static_segments_found [OF _ l [unfolded n]]
  have f: "router_find (app_router panic_app) (rq_method ?r) (rq_path ?r) = (Some ?e, [])"
    by (simp add: get_request_def)
  have "ws_sent (ctx_writer ?c) = None" "ws_sent fresh_writer = None"
    by (simp_all add: ctx_reset_def fresh_writer_def)
  then show ?thesis
    using recover_answers_panics [OF f, of panicking "[]" fresh_writer pooled_ctx "()" "''boom''" ?c "()" plain_enc "[]"]
    by (simp add: panicking_def split: prod.splits)
qed

text \<open>
  The status the metrics record for a failed request is the status of its error
  response, except when the error wraps a typed error whose status is not 500: the response
  then has that status and the metrics count a 500.
\<close>

theorem recorded_status_of_errors:
  assumes "next (c\<lparr>ctx_writer := (ctx_writer c)\<lparr>ws_observers := ws_observers (ctx_writer c) @ [200]\<rparr>\<rparr>) m
      = (Returned (Some e), c', m')"
    and "ctx_route_pattern c' = pattern" "pattern \<noteq> []"
  shows "counter_get (requests_total (snd (snd (metrics_middleware (\<lambda>f. f) d next c m))))
        (rq_method (ctx_request c'), pattern, fst (error_response e reqid)) =
      counter_get (requests_total m') (rq_method (ctx_request c'), pattern, fst (error_response e reqid)) +
      (case e of
         WrappedError msg e' \<Rightarrow>
           (case as_http_error e' of Some he \<Rightarrow> if he_status he = 500 then 1 else 0 | None \<Rightarrow> 1)
       | _ \<Rightarrow> 1)"
  using assms
  by (cases e) (auto simp: metrics_middleware_def Let_def observed_status_def record_request_def
      counter_get_add error_response_def split: option.splits)

definition wrapping_handler :: "ctx \<Rightarrow> metrics \<Rightarrow> outcome \<times> ctx \<times> metrics" where
  "wrapping_handler c m = (Returned (Some (WrappedError ''load user'' (err_not_found ''no user''))), c, m)"

theorem recorded_status_of_errors_example:
  "counter_get (requests_total (snd (snd (metrics_middleware (\<lambda>f. f) 5 wrapping_handler (origin_ctx []) new_metrics))))
     (''GET'', ''/x'', 404) = 0"
proof -
  have e: "fst (error_response (WrappedError ''load user'' (err_not_found ''no user'')) []) = 404" by code_simp
  have n: "counter_get (requests_total new_metrics) k = 0" for k by (simp add: new_metrics_def)
  show ?thesis
    using recorded_status_of_errors [of wrapping_handler "origin_ctx []" new_metrics
        "WrappedError ''load user'' (err_not_found ''no user'')" _ new_metrics "''/x''" 5 "[]"] e n
    by (simp add: wrapping_handler_def origin_ctx_def get_request_def err_not_found_def new_http_error_def)
qed

end
