(* ===== verification/Observers.thy ===== *)
theory Observers imports Middleware begin

text \<open>
  The middleware that only watch: \<open>Logger\<close> (middleware/logger.go) and \<open>Trace\<close>
  (observability/trace.go). The log handler and the tracer are functions on the world of the
  handlers; latencies are inputs. The context a tracer returns only reaches the request's own
  context, which is no part of the model of requests.
\<close>

record log_line =
  ll_failed :: bool
  ll_method :: string
  ll_path :: string
  ll_latency :: int
  ll_request_id :: string
  ll_error :: "go_error option"

definition request_id_of :: "ctx \<Rightarrow> string" where
  "request_id_of c = (case ctx_get c request_id_key of Some (Any (VStr s)) \<Rightarrow> s | _ \<Rightarrow> [])"

definition logger :: "(log_line \<Rightarrow> 'w \<Rightarrow> 'w) \<Rightarrow> int \<Rightarrow> 'w middleware" where
  "logger put_line latency next c s =
     (case next c s of
        (Panicked msg, c', s') \<Rightarrow> (Panicked msg, c', s')
      | (Returned err, c', s') \<Rightarrow>
          (Returned err, c',
           put_line \<lparr>ll_failed = (err \<noteq> None), ll_method = rq_method (ctx_request c'), ll_path = rq_path (ctx_request c'),
                  ll_latency = latency, ll_request_id = request_id_of c', ll_error = err\<rparr> s'))"

record ('sp, 'w) tracer =
  tr_start :: "string \<Rightarrow> 'w \<Rightarrow> 'sp \<times> 'w"
  tr_record_error :: "'sp \<Rightarrow> go_error \<Rightarrow> 'w \<Rightarrow> 'w"
  tr_end :: "'sp \<Rightarrow> 'w \<Rightarrow> 'w"

definition trace :: "('sp, 'w) tracer option \<Rightarrow> 'w middleware" where
  "trace tracer next c s =
     (case tracer of
        None \<Rightarrow> next c s
      | Some tr \<Rightarrow>
          (case tr_start tr (rq_method (ctx_request c) @ '' '' @ ctx_route_pattern c) s of
             (span, s1) \<Rightarrow>
               (case next c s1 of
                  (Panicked msg, c', s2) \<Rightarrow> (Panicked msg, c', s2)
                | (Returned err, c', s2) \<Rightarrow>
                    (Returned err, c',
                     tr_end tr span (case err of None \<Rightarrow> s2 | Some e \<Rightarrow> tr_record_error tr span e s2)))))"

text \<open>
  An observer runs the next handler once, on the context it was given, and hands its answer on
  unchanged.
\<close>

locale observing_middleware =
  fixes mw :: "'w middleware" and before :: "ctx \<Rightarrow> 'w \<Rightarrow> 'w" and finish :: "ctx \<Rightarrow> outcome \<times> ctx \<Rightarrow> 'w \<Rightarrow> 'w \<Rightarrow> 'w"
  assumes observes: "mw next c s =
    (case next c (before c s) of (r, c', s') \<Rightarrow> (r, c', finish c (r, c') s s'))"
begin

lemma answer_kept: "fst (mw h c s) = fst (h c (before c s))" "fst (snd (mw h c s)) = fst (snd (h c (before c s)))"
  by (cases "h c (before c s)"; simp add: observes)+

end

interpretation log: observing_middleware "logger put_line latency" "\<lambda>c s. s"
  "\<lambda>c (r, c') s s'. (case r of
     Panicked msg \<Rightarrow> s'
   | Returned err \<Rightarrow>
       put_line \<lparr>ll_failed = (err \<noteq> None), ll_method = rq_method (ctx_request c'), ll_path = rq_path (ctx_request c'),
              ll_latency = latency, ll_request_id = request_id_of c', ll_error = err\<rparr> s')"
  for put_line latency
  by unfold_locales (simp add: logger_def split: prod.split outcome.split)

definition span_of :: "('sp, 'w) tracer \<Rightarrow> ctx \<Rightarrow> 'w \<Rightarrow> 'sp \<times> 'w" where
  "span_of tr c s = tr_start tr (rq_method (ctx_request c) @ '' '' @ ctx_route_pattern c) s"

interpretation traced: observing_middleware "trace (Some tr)" "\<lambda>c s. snd (span_of tr c s)"
  "\<lambda>c (r, c') s s'. (case r of
     Panicked msg \<Rightarrow> s'
   | Returned None \<Rightarrow> tr_end tr (fst (span_of tr c s)) s'
   | Returned (Some e) \<Rightarrow> tr_end tr (fst (span_of tr c s)) (tr_record_error tr (fst (span_of tr c s)) e s'))"
  for tr
  by unfold_locales (simp add: trace_def span_of_def split: prod.split outcome.split option.split)

text \<open>A tracer that counts its open spans: a call that returns leaves as many as it found.\<close>

definition span_counter :: "(unit, nat) tracer" where
  "span_counter = \<lparr>tr_start = (\<lambda>name n. ((), Suc n)), tr_record_error = (\<lambda>sp e n. n), tr_end = (\<lambda>sp n. n - 1)\<rparr>"

text \<open>
  Spans are balanced unless the handler panics: then the span is never ended, since \<open>End\<close> is
  not deferred.
\<close>

lemma spans_balanced:
  assumes "\<And>c n. snd (snd (h c n)) = n"
  shows "snd (snd (trace (Some span_counter) h c n)) = (case fst (h c (Suc n)) of Returned err \<Rightarrow> n | Panicked msg \<Rightarrow> Suc n)"
  using assms [of c "Suc n"] by (auto simp: trace_def span_counter_def split: prod.split outcome.split option.split)

lemma untraced: "trace None h = h"
  by (simp add: trace_def fun_eq_iff)

end
