(* ===== verification/Migrate.thy ===== *)
theory Migrate imports Db begin

text \<open>
  Package \<open>migrate\<close>: the engine (migrate.go) and the reader of a migrations directory
  (loader.go). A run of the engine is a function of the state of the database. The tables
  whose versions it reads are integer columns, so a row scans into an \<open>int\<close> when it is one.
\<close>

record migration =
  mg_version :: int
  mg_name :: string
  mg_up :: string
  mg_down :: string

record mig_status =
  st_version :: int
  st_name :: string
  st_applied :: bool

record engine =
  eg_table :: string
  eg_dialect :: string

datatype mig_error =
    MissingUp int
  | MissingDown int
  | MigDb string
  | MigPanic

definition default_table :: string where
  "default_table = ''schema_migrations''"

definition new_engine :: "string \<Rightarrow> engine" where
  "new_engine dialect = \<lparr>eg_table = default_table, eg_dialect = dialect\<rparr>"

definition table_name :: "engine \<Rightarrow> string" where
  "table_name e = (if eg_table e = [] then default_table else eg_table e)"

definition engine_ph :: "engine \<Rightarrow> nat \<Rightarrow> string" where
  "engine_ph e n =
     (if equal_fold (eg_dialect e) ''postgres'' \<or> equal_fold (eg_dialect e) ''pg''
      then ''$'' @ show_nat n else ''?'')"

interpretation mig_ph: placeholder_style "engine_ph e" "numbered_dialect (eg_dialect e)" for e
  by unfold_locales (auto simp: engine_ph_def numbered_dialect_def)

section \<open>Statements\<close>

definition create_statement :: "engine \<Rightarrow> string" where
  "create_statement e = ''CREATE TABLE IF NOT EXISTS '' @ table_name e @
     '' (version INTEGER PRIMARY KEY, name TEXT NOT NULL, applied_at TIMESTAMP NOT NULL)''"

definition versions_statement :: "engine \<Rightarrow> string" where
  "versions_statement e = ''SELECT version FROM '' @ table_name e"

definition insert_statement :: "engine \<Rightarrow> string" where
  "insert_statement e = ''INSERT INTO '' @ table_name e @ '' (version, name, applied_at) VALUES ('' @
     engine_ph e 1 @ '', '' @ engine_ph e 2 @ '', CURRENT_TIMESTAMP)''"

definition delete_statement :: "engine \<Rightarrow> string" where
  "delete_statement e = ''DELETE FROM '' @ table_name e @ '' WHERE version = '' @ engine_ph e 1"

section \<open>The engine\<close>

definition ensure_table :: "engine \<Rightarrow> 'd adapter \<Rightarrow> 'd \<Rightarrow> mig_error option \<times> 'd" where
  "ensure_table e a d =
     (case eq_exec (ad_db a) (create_statement e) [] d of
        (Inl err, d') \<Rightarrow> (Some (MigDb err), d')
      | (Inr r, d') \<Rightarrow> (None, d'))"

fun scan_versions :: "(string + val list) list \<Rightarrow> mig_error + int list" where
  "scan_versions [] = Inr []"
| "scan_versions (Inl err # rows) = Inl (MigDb err)"
| "scan_versions (Inr [VInt v] # rows) = (case scan_versions rows of Inl err \<Rightarrow> Inl err | Inr vs \<Rightarrow> Inr (v # vs))"
| "scan_versions (Inr _ # rows) = Inl (MigDb ''scan'')"

definition applied_versions :: "engine \<Rightarrow> 'd adapter \<Rightarrow> 'd \<Rightarrow> (mig_error + int list) \<times> 'd" where
  "applied_versions e a d =
     (case eq_query (ad_db a) (versions_statement e) [] d of
        (Inl err, d') \<Rightarrow> (Inl (MigDb err), d')
      | (Inr rows, d') \<Rightarrow>
          (case scan_versions (rows_data rows) of
             Inl err \<Rightarrow> (Inl err, d')
           | Inr vs \<Rightarrow> (case rows_err rows of Some err \<Rightarrow> (Inl (MigDb err), d') | None \<Rightarrow> (Inr vs, d'))))"

text \<open>
  \<open>applyOne\<close> and \<open>rollbackOne\<close> differ in their two statements only; a transaction that is
  nil is used all the same and panics.
\<close>

definition in_tx :: "'d adapter \<Rightarrow> string \<Rightarrow> string \<Rightarrow> val list \<Rightarrow> 'd \<Rightarrow> mig_error option \<times> 'd" where
  "in_tx a script bookkeeping args d =
     (case ad_begin a d of
        (Inl err, d1) \<Rightarrow> (Some (MigDb err), d1)
      | (Inr False, d1) \<Rightarrow> (Some MigPanic, d1)
      | (Inr True, d1) \<Rightarrow>
          (case eq_exec (ad_tx a) script [] d1 of
             (Inl err, d2) \<Rightarrow> (Some (MigDb err), snd (ad_rollback a d2))
           | (Inr r, d2) \<Rightarrow>
               (case eq_exec (ad_tx a) bookkeeping args d2 of
                  (Inl err, d3) \<Rightarrow> (Some (MigDb err), snd (ad_rollback a d3))
                | (Inr r', d3) \<Rightarrow> (case ad_commit a d3 of (err, d4) \<Rightarrow> (map_option MigDb err, d4)))))"

definition apply_one :: "engine \<Rightarrow> 'd adapter \<Rightarrow> migration \<Rightarrow> 'd \<Rightarrow> mig_error option \<times> 'd" where
  "apply_one e a m d = in_tx a (mg_up m) (insert_statement e) [VInt (mg_version m), VStr (mg_name m)] d"

definition rollback_one :: "engine \<Rightarrow> 'd adapter \<Rightarrow> migration \<Rightarrow> 'd \<Rightarrow> mig_error option \<times> 'd" where
  "rollback_one e a m d = in_tx a (mg_down m) (delete_statement e) [VInt (mg_version m)] d"

text \<open>The loops of \<open>Up\<close> and \<open>Down\<close>: the number done, and the error that stopped the loop.\<close>

fun up_loop ::
  "engine \<Rightarrow> 'd adapter \<Rightarrow> int list \<Rightarrow> int \<Rightarrow> migration list \<Rightarrow> nat \<Rightarrow> 'd \<Rightarrow> (nat \<times> mig_error option) \<times> 'd" where
  "up_loop e a applied steps [] n d = ((n, None), d)"
| "up_loop e a applied steps (m # ms) n d =
     (if mg_version m \<in> set applied then up_loop e a applied steps ms n d
      else if steps > 0 \<and> int n \<ge> steps then ((n, None), d)
      else if trim_space (mg_up m) = [] then ((n, Some (MissingUp (mg_version m))), d)
      else
        (case apply_one e a m d of
           (Some err, d') \<Rightarrow> ((n, Some err), d')
         | (None, d') \<Rightarrow> up_loop e a applied steps ms (n + 1) d'))"

fun down_loop ::
  "engine \<Rightarrow> 'd adapter \<Rightarrow> int list \<Rightarrow> int \<Rightarrow> migration list \<Rightarrow> nat \<Rightarrow> 'd \<Rightarrow> (nat \<times> mig_error option) \<times> 'd" where
  "down_loop e a applied steps [] n d = ((n, None), d)"
| "down_loop e a applied steps (m # ms) n d =
     (if mg_version m \<notin> set applied then down_loop e a applied steps ms n d
      else if steps > 0 \<and> int n \<ge> steps then ((n, None), d)
      else if trim_space (mg_down m) = [] then ((n, Some (MissingDown (mg_version m))), d)
      else
        (case rollback_one e a m d of
           (Some err, d') \<Rightarrow> ((n, Some err), d')
         | (None, d') \<Rightarrow> down_loop e a applied steps ms (n + 1) d'))"

definition mig_up :: "engine \<Rightarrow> 'd adapter \<Rightarrow> migration list \<Rightarrow> int \<Rightarrow> 'd \<Rightarrow> (nat \<times> mig_error option) \<times> 'd" where
  "mig_up e a migrations steps d =
     (case ensure_table e a d of
        (Some err, d1) \<Rightarrow> ((0, Some err), d1)
      | (None, d1) \<Rightarrow>
          (case applied_versions e a d1 of
             (Inl err, d2) \<Rightarrow> ((0, Some err), d2)
           | (Inr applied, d2) \<Rightarrow> up_loop e a applied steps (sort_key mg_version migrations) 0 d2))"

definition mig_down :: "engine \<Rightarrow> 'd adapter \<Rightarrow> migration list \<Rightarrow> int \<Rightarrow> 'd \<Rightarrow> (nat \<times> mig_error option) \<times> 'd" where
  "mig_down e a migrations steps d =
     (case ensure_table e a d of
        (Some err, d1) \<Rightarrow> ((0, Some err), d1)
      | (None, d1) \<Rightarrow>
          (case applied_versions e a d1 of
             (Inl err, d2) \<Rightarrow> ((0, Some err), d2)
           | (Inr applied, d2) \<Rightarrow> down_loop e a applied steps (sort_key (\<lambda>m. - mg_version m) migrations) 0 d2))"

definition mig_status_of :: "engine \<Rightarrow> 'd adapter \<Rightarrow> migration list \<Rightarrow> 'd \<Rightarrow> (mig_error + mig_status list) \<times> 'd" where
  "mig_status_of e a migrations d =
     (case ensure_table e a d of
        (Some err, d1) \<Rightarrow> (Inl err, d1)
      | (None, d1) \<Rightarrow>
          (case applied_versions e a d1 of
             (Inl err, d2) \<Rightarrow> (Inl err, d2)
           | (Inr applied, d2) \<Rightarrow>
               (Inr (map (\<lambda>m. \<lparr>st_version = mg_version m, st_name = mg_name m,
                               st_applied = mg_version m \<in> set applied\<rparr>)
                      (sort_key mg_version migrations)), d2)))"

section \<open>File names\<close>

text \<open>\<open>filepath.Base\<close> on a system whose separator is the slash.\<close>

definition base_name :: "string \<Rightarrow> string" where
  "base_name path =
     (if path = [] then ''.''
      else
        (let p = rev (dropWhile (\<lambda>c. c = CHR ''/'') (rev path));
             base = rev (takeWhile (\<lambda>c. c \<noteq> CHR ''/'') (rev p))
         in if base = [] then ''/'' else base))"

definition sql_suffix :: string where "sql_suffix = ''.sql''"

definition parse_migration_file_name :: "string \<Rightarrow> string \<Rightarrow> (int \<times> string \<times> string) option" where
  "parse_migration_file_name filename dialect =
     (let base = base_name filename in
      if \<not> suffix sql_suffix base then None
      else
        (let trimmed = take (length base - length sql_suffix) base;
             parts = split_on (CHR ''.'') trimmed in
         if length parts < 2 then None
         else
           (let left = hd parts; direction = last parts in
            if direction \<noteq> ''up'' \<and> direction \<noteq> ''down'' then None
            else if length parts = 3 \<and> dialect \<noteq> [] \<and> parts ! 1 \<noteq> dialect then None
            else if length parts \<noteq> 3 \<and> length parts \<noteq> 2 then None
            else
              (case cut_at (CHR ''_'') left of
                 (before, name, found) \<Rightarrow>
                   if \<not> found \<or> before = [] \<or> name = [] then None
                   else
                     (case parse_int64 before of
                        None \<Rightarrow> None
                      | Some v \<Rightarrow> Some (v, name, direction))))))"

section \<open>Loading\<close>

text \<open>
  \<open>Load\<close>, for the entries \<open>os.ReadDir\<close> lists (sorted by name): a directory, or a file with
  what reading it gives. \<open>byVersion\<close> is an association list.
\<close>

datatype dir_entry = SubDir string | SqlFile string "string + string"

datatype load_error = ReadFailed string | NoUpMigration int

fun put_migration :: "int \<Rightarrow> string \<Rightarrow> string \<Rightarrow> string \<Rightarrow> migration list \<Rightarrow> migration list" where
  "put_migration v name dirn content [] =
     [if dirn = ''up'' then \<lparr>mg_version = v, mg_name = name, mg_up = content, mg_down = []\<rparr>
      else \<lparr>mg_version = v, mg_name = name, mg_up = [], mg_down = content\<rparr>]"
| "put_migration v name dirn content (m # ms) =
     (if mg_version m = v
      then (if dirn = ''up'' then m\<lparr>mg_up := content\<rparr> else m\<lparr>mg_down := content\<rparr>) # ms
      else m # put_migration v name dirn content ms)"

fun load_entries :: "string \<Rightarrow> dir_entry list \<Rightarrow> migration list \<Rightarrow> load_error + migration list" where
  "load_entries dialect [] ms = Inr ms"
| "load_entries dialect (SubDir name # es) ms = load_entries dialect es ms"
| "load_entries dialect (SqlFile file content # es) ms =
     (case parse_migration_file_name file dialect of
        None \<Rightarrow> load_entries dialect es ms
      | Some (v, name, dirn) \<Rightarrow>
          (case content of
             Inl err \<Rightarrow> Inl (ReadFailed err)
           | Inr s \<Rightarrow> load_entries dialect es (put_migration v name dirn s ms)))"

fun check_up :: "migration list \<Rightarrow> load_error + migration list" where
  "check_up [] = Inr []"
| "check_up (m # ms) =
     (if mg_up m = [] then Inl (NoUpMigration (mg_version m))
      else (case check_up ms of Inl err \<Rightarrow> Inl err | Inr out \<Rightarrow> Inr (m # out)))"

definition load :: "string \<Rightarrow> string + dir_entry list \<Rightarrow> load_error + migration list" where
  "load dialect entries =
     (case entries of
        Inl err \<Rightarrow> Inl (ReadFailed err)
      | Inr es \<Rightarrow>
          (case load_entries dialect es [] of
             Inl err \<Rightarrow> Inl err
           | Inr ms \<Rightarrow> check_up (sort_key mg_version ms)))"

end
