(* ===== verification/Migrate_Theorems.thy ===== *)
theory Migrate_Theorems imports Migrate begin

text \<open>
  Package \<open>migrate\<close>: which statements a run of the engine commits, the names of migration
  files, and what loading a directory gives.
\<close>

section \<open>Running\<close>

definition up_log :: "engine \<Rightarrow> migration \<Rightarrow> (string \<times> val list) list" where
  "up_log e m = [(mg_up m, []), (insert_statement e, [VInt (mg_version m), VStr (mg_name m)])]"

definition down_log :: "engine \<Rightarrow> migration \<Rightarrow> (string \<times> val list) list" where
  "down_log e m = [(mg_down m, []), (delete_statement e, [VInt (mg_version m)])]"

definition at_most :: "int \<Rightarrow> nat \<Rightarrow> 'x list \<Rightarrow> 'x list" where
  "at_most steps n xs = (if steps > 0 then take (nat steps - n) xs else xs)"

text \<open>The migrations a run has to do, in the order of its loop.\<close>

definition up_todo :: "int list \<Rightarrow> int \<Rightarrow> migration list \<Rightarrow> migration list" where
  "up_todo applied steps ms = at_most steps 0 (filter (\<lambda>m. mg_version m \<notin> set applied) (sort_key mg_version ms))"

definition down_todo :: "int list \<Rightarrow> int \<Rightarrow> migration list \<Rightarrow> migration list" where
  "down_todo applied steps ms =
     at_most steps 0 (filter (\<lambda>m. mg_version m \<in> set applied) (sort_key (\<lambda>m. - mg_version m) ms))"

lemma in_tx_log:
  "in_tx (log_adapter bad answer) s b args (c, p) =
     (if bad s [] \<or> bad b args then (Some (MigDb ''failed''), (c, []))
      else (None, (c @ [(s, []), (b, args)], [])))"
  by (simp add: in_tx_def log_adapter_def)

lemma at_most_Cons:
  "at_most steps n (x # xs) = (if steps > 0 \<and> int n \<ge> steps then [] else x # at_most steps (Suc n) xs)"
  by (auto simp: at_most_def take_Cons' nat_le_iff)

text \<open>What the loops commit: whole migrations, from the front of the list of those to do.\<close>

definition committed_prefix ::
  "(migration \<Rightarrow> (string \<times> val list) list) \<Rightarrow> migration list \<Rightarrow> nat \<Rightarrow> log_db \<Rightarrow>
   (nat \<times> mig_error option) \<times> log_db \<Rightarrow> bool" where
  "committed_prefix log todo k d r \<longleftrightarrow>
     (case r of ((n, err), d') \<Rightarrow>
        \<exists>j. n = k + j \<and> (if err = None then j = length todo else j < length todo) \<and>
          fst d' = fst d @ concat (map log (take j todo)))"

lemma committed_prefix_stop: "committed_prefix log [] k d ((k, None), d)"
  "committed_prefix log (m # todo) k d ((k, Some err), (fst d, p))"
  by (simp_all add: committed_prefix_def)

lemma committed_prefix_step:
  "committed_prefix log todo (Suc k) (c @ log m, []) r \<Longrightarrow> committed_prefix log (m # todo) k (c, p) r"
  by (auto simp: committed_prefix_def split: prod.splits if_splits)

lemma up_loop_commits:
  "committed_prefix (up_log e) (at_most steps k (filter (\<lambda>m. mg_version m \<notin> set applied) ms)) k (c, p)
     (up_loop e (log_adapter bad answer) applied steps ms k (c, p))"
proof (induction ms arbitrary: k c p)
  case Nil
  then show ?case by (simp add: at_most_def committed_prefix_stop)
next
  case (Cons m ms)
  show ?case
    using committed_prefix_step [OF Cons.IH [of "Suc k" "c @ up_log e m" "[]"], of p] Cons.IH [of k c p]
    by (simp add: at_most_Cons apply_one_def in_tx_log committed_prefix_stop(1)
        committed_prefix_stop(2) [where d = "(c, p)", simplified] flip: up_log_def)
qed

lemma down_loop_commits:
  "committed_prefix (down_log e) (at_most steps k (filter (\<lambda>m. mg_version m \<in> set applied) ms)) k (c, p)
     (down_loop e (log_adapter bad answer) applied steps ms k (c, p))"
proof (induction ms arbitrary: k c p)
  case Nil
  then show ?case by (simp add: at_most_def committed_prefix_stop)
next
  case (Cons m ms)
  show ?case
    using committed_prefix_step [OF Cons.IH [of "Suc k" "c @ down_log e m" "[]"], of p] Cons.IH [of k c p]
    by (simp add: at_most_Cons rollback_one_def in_tx_log committed_prefix_stop(1)
        committed_prefix_stop(2) [where d = "(c, p)", simplified] flip: down_log_def)
qed

text \<open>The two statements before the loop, on the logging database.\<close>

definition reads_versions :: "engine \<Rightarrow> (string \<Rightarrow> val list \<Rightarrow> bool) \<Rightarrow> (string \<Rightarrow> val list \<Rightarrow> db_rows) \<Rightarrow> int list \<Rightarrow> bool" where
  "reads_versions e bad answer applied \<longleftrightarrow>
     \<not> bad (create_statement e) [] \<and> \<not> bad (versions_statement e) [] \<and>
     scan_versions (rows_data (answer (versions_statement e) [])) = Inr applied \<and>
     rows_err (answer (versions_statement e) []) = None"

definition prologue :: "engine \<Rightarrow> (string \<times> val list) list" where
  "prologue e = [(create_statement e, []), (versions_statement e, [])]"

lemma prologue_runs:
  assumes "reads_versions e bad answer applied"
  shows "ensure_table e (log_adapter bad answer) (c, p) = (None, (c @ [(create_statement e, [])], p))"
    "applied_versions e (log_adapter bad answer) (c @ [(create_statement e, [])], p) = (Inr applied, (c @ prologue e, p))"
  using assms by (simp_all add: reads_versions_def ensure_table_def applied_versions_def log_adapter_def prologue_def)


text \<open>The same for the callers of the engine, who look at the number and the error of a run.\<close>

lemma mig_up_commits:
  assumes "reads_versions e bad answer applied"
    and "mig_up e (log_adapter bad answer) ms steps (c, p) = ((n, err), (c', p'))"
  shows "\<exists>k. c' = c @ prologue e @ concat (map (up_log e) (take k (up_todo applied steps ms))) \<and> n = k \<and>
    (if err = None then k = length (up_todo applied steps ms) else k < length (up_todo applied steps ms))"
proof -
  have "committed_prefix (up_log e) (up_todo applied steps ms) 0 (c @ prologue e, [])
      (mig_up e (log_adapter bad answer) ms steps (c, p))"
    using up_loop_commits [of e steps 0 applied "sort_key mg_version ms" "c @ prologue e" p bad answer]
    by (simp add: mig_up_def prologue_runs [OF assms(1)] up_todo_def committed_prefix_def)
  with assms(2) show ?thesis by (auto simp: committed_prefix_def)
qed

definition demo_migrations :: "migration list" where
  "demo_migrations =
     [\<lparr>mg_version = 3, mg_name = ''c'', mg_up = ''CREATE c'', mg_down = ''DROP c''\<rparr>,
      \<lparr>mg_version = 1, mg_name = ''a'', mg_up = ''CREATE a'', mg_down = ''DROP a''\<rparr>,
      \<lparr>mg_version = 2, mg_name = ''b'', mg_up = ''CREATE b'', mg_down = ''DROP b''\<rparr>]"

definition version_one :: "string \<Rightarrow> val list \<Rightarrow> db_rows" where
  "version_one q args = \<lparr>rows_columns = None, rows_data = [Inr [VInt 1]], rows_err = None\<rparr>"


section \<open>File names\<close>

definition file_name :: "nat \<Rightarrow> string \<Rightarrow> string list \<Rightarrow> string" where
  "file_name v name middle = show_nat v @ ''_'' @ name @ CHR ''.'' # join ''.'' middle @ ''.sql''"

definition name_part :: "string \<Rightarrow> bool" where
  "name_part s \<longleftrightarrow> s \<noteq> [] \<and> CHR ''.'' \<notin> set s \<and> CHR ''/'' \<notin> set s"

lemma base_name_id: "s \<noteq> [] \<Longrightarrow> CHR ''/'' \<notin> set s \<Longrightarrow> base_name s = s"
proof -
  assume s: "s \<noteq> []" "CHR ''/'' \<notin> set s"
  then have "dropWhile (\<lambda>c. c = CHR ''/'') (rev s) = rev s"
    by (cases "rev s") auto
  moreover have "takeWhile (\<lambda>c. c \<noteq> CHR ''/'') (rev s) = rev s"
    using s by (auto simp: takeWhile_eq_all_conv)
  ultimately have "rev (takeWhile (\<lambda>c. c \<noteq> CHR ''/'') (rev (rev (dropWhile (\<lambda>c. c = CHR ''/'') (rev s))))) = s"
    by (simp only: rev_rev_ident)
  with s show ?thesis by (simp only: base_name_def Let_def) simp
qed

lemma not_digit_marks: "CHR ''.'' \<notin> set (show_nat v)" "CHR ''/'' \<notin> set (show_nat v)" "CHR ''_'' \<notin> set (show_nat v)"
  using show_nat_digits [of "CHR ''.''" v] show_nat_digits [of "CHR ''/''" v] show_nat_digits [of "CHR ''_''" v]
  by (auto simp: is_digit_nat)

lemma parse_file_name:
  assumes "name_part name" "list_all name_part middle" "middle \<noteq> []"
    and "last middle = ''up'' \<or> last middle = ''down''" "v < 2 ^ 63"
    and "length middle = 1 \<or> length middle = 2 \<and> (dialect = [] \<or> hd middle = dialect)"
  shows "parse_migration_file_name (file_name v name middle) dialect = Some (int v, name, last middle)"
proof -
  let ?left = "show_nat v @ ''_'' @ name"
  let ?body = "?left @ CHR ''.'' # join ''.'' middle"
  have clean: "CHR ''/'' \<notin> set (join ''.'' middle)"
    using assms(2) by (induction middle) (auto simp: join_Cons name_part_def)
  have base: "base_name (file_name v name middle) = ?body @ ''.sql''"
    using assms(1) clean not_digit_marks by (subst base_name_id) (auto simp: file_name_def name_part_def)
  have parts: "split_on (CHR ''.'') ?body = ?left # middle"
    using assms(1-3) not_digit_marks split_on_append [of "CHR ''.''" ?left] split_on_join [of middle "CHR ''.''"]
    by (simp add: name_part_def list_all_iff)
  have cut: "cut_at (CHR ''_'') ?left = (show_nat v, name, True)"
    using cut_at_found [of "CHR ''_''" "show_nat v" name] not_digit_marks by simp
  have suf: "suffix ''.sql'' (?body @ ''.sql'')" by (simp add: suffix_def)
  have trimmed: "take (length (?body @ ''.sql'') - length ''.sql'') (?body @ ''.sql'') = ?body" by simp
  show ?thesis
    unfolding parse_migration_file_name_def sql_suffix_def Let_def base trimmed parts
    using suf cut assms by (cases middle) (auto simp: parse_int64_show_nat name_part_def nth_Cons')
qed

text \<open>
  Names round-trip: a file named by a version, a name and a direction, with or without
  a dialect between them, parses to exactly these, whatever underscores the name has; with
  another dialect than the one asked for it is ignored.
\<close>

theorem file_names_round_trip:
  assumes "name_part name" "name_part file_dialect" "v < 2 ^ 63" "direction = ''up'' \<or> direction = ''down''"
  shows "parse_migration_file_name (file_name v name [direction]) dialect = Some (int v, name, direction) \<and>
    parse_migration_file_name (file_name v name [file_dialect, direction]) file_dialect = Some (int v, name, direction) \<and>
    parse_migration_file_name (file_name v name [file_dialect, direction]) [] = Some (int v, name, direction)"
proof -
  have "name_part direction" using assms(4) by (auto simp: name_part_def)
  then show ?thesis using assms by (simp add: parse_file_name)
qed

theorem file_names_round_trip_example:
  "parse_migration_file_name (file_name 7 ''add_users'' [''pg'', ''down'']) ''pg'' = Some (7, ''add_users'', ''down'')"
  using file_names_round_trip [of "''add_users''" "''pg''" 7 "''down''"] by (simp add: name_part_def)

section \<open>Loading\<close>

lemma put_migration_versions:
  "map mg_version (put_migration v name dirn s ms) =
     (if v \<in> mg_version ` set ms then map mg_version ms else map mg_version ms @ [v])"
  by (induction v name dirn s ms rule: put_migration.induct) auto

lemma load_entries_distinct:
  "load_entries dialect es ms = Inr out \<Longrightarrow> distinct (map mg_version ms) \<Longrightarrow> distinct (map mg_version out)"
  by (induction dialect es ms rule: load_entries.induct)
    (auto simp: put_migration_versions split: option.splits sum.splits prod.splits)

lemma load_entries_mem:
  "load_entries dialect es ms = Inr out \<Longrightarrow>
   mg_version ` set out = mg_version ` set ms \<union>
     {v. \<exists>file s name dirn. SqlFile file s \<in> set es \<and> parse_migration_file_name file dialect = Some (v, name, dirn)}"
proof (induction dialect es ms rule: load_entries.induct)
  case (3 dialect f content es ms)
  have put: "mg_version ` set (put_migration v name dirn s ms) = insert v (mg_version ` set ms)" for v name dirn s
    using arg_cong [OF put_migration_versions [of v name dirn s ms], of set] by auto
  from 3 show ?case by (auto simp: put split: option.splits sum.splits prod.splits)
qed auto

lemma check_up_ok: "check_up ms = Inr out \<Longrightarrow> out = ms \<and> (\<forall>m\<in>set ms. mg_up m \<noteq> [])"
  by (induction ms arbitrary: out) (auto split: if_splits sum.splits)

text \<open>
  What \<open>Load\<close> returns is ready to run: strictly increasing versions, one migration per
  version that occurs in a file name of the dialect, each with a script to apply.
\<close>

theorem loaded_migrations_are_ordered:
  assumes "load dialect (Inr es) = Inr ms"
  shows "sorted_wrt (<) (map mg_version ms) \<and> (\<forall>m\<in>set ms. mg_up m \<noteq> []) \<and>
    mg_version ` set ms = {v. \<exists>file s name dirn. SqlFile file s \<in> set es \<and>
      parse_migration_file_name file dialect = Some (v, name, dirn)}"
proof -
  from assms obtain out where out: "load_entries dialect es [] = Inr out" "check_up (sort_key mg_version out) = Inr ms"
    by (auto simp: load_def split: sum.splits)
  then have ms: "ms = sort_key mg_version out" "\<forall>m\<in>set ms. mg_up m \<noteq> []"
    using check_up_ok by fastforce+
  have "distinct (map mg_version out)" using load_entries_distinct [OF out(1)] by simp
  then have "distinct (map mg_version ms)" by (simp add: ms(1) distinct_map)
  then have "sorted_wrt (<) (map mg_version ms)"
    unfolding ms(1) by (simp add: strict_sorted_iff)
  with ms load_entries_mem [OF out(1)] show ?thesis by simp
qed

definition demo_entries :: "dir_entry list" where
  "demo_entries =
     [SqlFile ''0001_init.down.sql'' (Inr ''generic down''), SqlFile ''0001_init.pg.down.sql'' (Inr ''pg down''),
      SqlFile ''0001_init.pg.up.sql'' (Inr ''pg up''), SqlFile ''0001_init.up.sql'' (Inr ''generic up'')]"

theorem loaded_migrations_are_ordered_example:
  "sorted_wrt (<) (map mg_version [\<lparr>mg_version = 1, mg_name = ''init'', mg_up = ''generic up'', mg_down = ''pg down''\<rparr>])"
proof -
  have "load ''pg'' (Inr demo_entries)
      = Inr [\<lparr>mg_version = 1, mg_name = ''init'', mg_up = ''generic up'', mg_down = ''pg down''\<rparr>]"
    by code_simp
  from loaded_migrations_are_ordered [OF this] show ?thesis by blast
qed

text \<open>
  A dialect-specific script does not override the generic one of its version: the
  entries come sorted by name, where every dialect's \<open>up\<close> precedes the generic \<open>up\<close>, so the
  generic script is read last and wins, while for \<open>down\<close> the dialect's wins. The pair that is
  loaded mixes both.
\<close>

theorem generic_up_overrides_dialect:
  "sorted (map (\<lambda>e. case e of SubDir n \<Rightarrow> n | SqlFile n s \<Rightarrow> n) demo_entries) \<and>
   load ''pg'' (Inr demo_entries)
     = Inr [\<lparr>mg_version = 1, mg_name = ''init'', mg_up = ''generic up'', mg_down = ''pg down''\<rparr>]"
  by code_simp

section \<open>A first migration\<close>

text \<open>A directory and a fresh database, for the examples of the programs that run the engine.\<close>

definition one_migration :: "dir_entry list" where
  "one_migration =
     [SqlFile ''0001_init.down.sql'' (Inr ''DROP TABLE todos''), SqlFile ''0001_init.up.sql'' (Inr ''CREATE TABLE todos (id INTEGER)'')]"

definition no_versions :: "string \<Rightarrow> val list \<Rightarrow> db_rows" where
  "no_versions q args = \<lparr>rows_columns = Some (Inr [''version'']), rows_data = [], rows_err = None\<rparr>"

definition first_migration :: migration where
  "first_migration = \<lparr>mg_version = 1, mg_name = ''init'', mg_up = ''CREATE TABLE todos (id INTEGER)'', mg_down = ''DROP TABLE todos''\<rparr>"

lemma one_migration_facts:
  "load ''sqlite'' (Inr one_migration) = Inr [first_migration]" "up_todo [] 0 [first_migration] = [first_migration]"
  "reads_versions e (\<lambda>q args. False) no_versions []"
  "fst (mig_up (new_engine ''sqlite'') (log_adapter (\<lambda>q args. False) no_versions) [first_migration] 0 ([], [])) = (1, None)"
proof -
  show "load ''sqlite'' (Inr one_migration) = Inr [first_migration]" by code_simp
  show "up_todo [] 0 [first_migration] = [first_migration]" by code_simp
  show "reads_versions e (\<lambda>q args. False) no_versions []" by (simp add: reads_versions_def no_versions_def)
  show "fst (mig_up (new_engine ''sqlite'') (log_adapter (\<lambda>q args. False) no_versions) [first_migration] 0 ([], [])) = (1, None)"
    by code_simp
qed

end
