(* ===== verification/Go_Encoding.thy ===== *)
theory Go_Encoding imports Go_Prelude begin

text \<open>
  \<open>encoding/base64\<close> without padding, on byte strings: \<open>RawStdEncoding\<close> and
  \<open>RawURLEncoding\<close> differ in the last two characters of the alphabet. Decoding skips line
  breaks, and like Go's does not look at the bits left over in the last character.
\<close>

section \<open>Alphabets\<close>

definition alphabet :: "char \<Rightarrow> char \<Rightarrow> string" where
  "alphabet c62 c63 =
     ''ABCDEFGHIJKLMNOPQRSTUVWXYZabcdefghijklmnopqrstuvwxyz0123456789'' @ [c62, c63]"

definition std_alphabet :: string where "std_alphabet = alphabet (CHR ''+'') (CHR ''/'')"
definition url_alphabet :: string where "url_alphabet = alphabet (CHR ''-'') (CHR ''_'')"

fun index_of :: "char \<Rightarrow> string \<Rightarrow> nat option" where
  "index_of c [] = None"
| "index_of c (d # ds) = (if c = d then Some 0 else map_option Suc (index_of c ds))"

lemma index_of_nth: "distinct xs \<Longrightarrow> i < length xs \<Longrightarrow> index_of (xs ! i) xs = Some i"
proof (induction xs arbitrary: i)
  case Nil
  then show ?case by simp
next
  case (Cons x xs)
  then show ?case by (cases i) auto
qed

section \<open>Bytes and characters\<close>

definition byte :: "nat \<Rightarrow> char" where
  "byte n = char_of n"

definition byte_val :: "char \<Rightarrow> nat" where
  "byte_val c = of_char c"

lemma byte_val_less [simp]: "byte_val c < 256"
  by (simp add: byte_val_def)

lemma byte_val_le: "byte_val c \<le> 255"
  using byte_val_less [of c] by linarith

lemma byte_byte_val [simp]: "byte (byte_val c) = c"
  by (simp add: byte_def byte_val_def)

lemma byte_mod [simp]: "byte (n mod 256) = byte n"
  by (simp add: byte_def char_of_mod_256)

text \<open>Three bytes are four characters; one and two bytes at the end are two and three.\<close>

fun b64_encode :: "string \<Rightarrow> string \<Rightarrow> string" where
  "b64_encode alpha [] = []"
| "b64_encode alpha [a] =
     (let n = byte_val a * 16 in [alpha ! (n div 64), alpha ! (n mod 64)])"
| "b64_encode alpha [a, b] =
     (let n = (byte_val a * 256 + byte_val b) * 4
      in [alpha ! (n div 4096), alpha ! (n div 64 mod 64), alpha ! (n mod 64)])"
| "b64_encode alpha (a # b # c # rest) =
     (let n = (byte_val a * 256 + byte_val b) * 256 + byte_val c
      in [alpha ! (n div 262144), alpha ! (n div 4096 mod 64), alpha ! (n div 64 mod 64), alpha ! (n mod 64)]
         @ b64_encode alpha rest)"

fun b64_group :: "nat list \<Rightarrow> string option" where
  "b64_group [] = Some []"
| "b64_group [x] = None"
| "b64_group [x, y] = Some [byte ((x * 64 + y) div 16)]"
| "b64_group [x, y, z] =
     (let n = (x * 64 + y) * 64 + z in Some [byte (n div 1024), byte (n div 4)])"
| "b64_group (x # y # z # w # rest) =
     (let n = ((x * 64 + y) * 64 + z) * 64 + w
      in map_option (\<lambda>s. [byte (n div 65536), byte (n div 256), byte n] @ s) (b64_group rest))"

fun indices :: "string \<Rightarrow> string \<Rightarrow> nat list option" where
  "indices alpha [] = Some []"
| "indices alpha (c # cs) =
     (if c = CHR 0x0A \<or> c = CHR 0x0D then indices alpha cs
      else
        (case index_of c alpha of
           None \<Rightarrow> None
         | Some i \<Rightarrow> map_option (Cons i) (indices alpha cs)))"

definition b64_decode :: "string \<Rightarrow> string \<Rightarrow> string option" where
  "b64_decode alpha s = Option.bind (indices alpha s) b64_group"

section \<open>Round trip\<close>

definition good_alphabet :: "string \<Rightarrow> bool" where
  "good_alphabet alpha \<longleftrightarrow> distinct alpha \<and> length alpha = 64 \<and>
     CHR 0x0A \<notin> set alpha \<and> CHR 0x0D \<notin> set alpha"

lemma std_url_good: "good_alphabet std_alphabet" "good_alphabet url_alphabet"
  by code_simp+

lemma indices_Cons:
  "good_alphabet alpha \<Longrightarrow> i < 64 \<Longrightarrow>
   indices alpha (alpha ! i # cs) = map_option (Cons i) (indices alpha cs)"
  by (auto simp: good_alphabet_def index_of_nth) (metis nth_mem)+

declare indices.simps(2) [simp del]

text \<open>Taking numbers apart and putting them together again.\<close>

lemma two_chars:
  assumes "(n :: nat) < 4096"
  shows "n div 64 < 64" "n div 64 * 64 + n mod 64 = n"
  using assms by (simp_all add: less_mult_imp_div_less)

lemma last_digit: "(c :: nat) < k \<Longrightarrow> (x * k + c) div k = x" "(c :: nat) < k \<Longrightarrow> (x * k + c) mod k = c"
  by simp_all

lemma regroup: "(n :: nat) div (k * 64) * 64 + n div k mod 64 = n div k"
  using div_mult_mod_eq [of "n div k" 64] by (simp add: div_mult2_eq)

lemma three_chars: "((n :: nat) div 4096 * 64 + n div 64 mod 64) * 64 + n mod 64 = n"
  using regroup [of n 64] regroup [of n 1] by simp

lemma four_chars:
  "(((n :: nat) div 262144 * 64 + n div 4096 mod 64) * 64 + n div 64 mod 64) * 64 + n mod 64 = n"
  using regroup [of n 4096] regroup [of n 64] regroup [of n 1] by simp

lemma byte_of: "n mod 256 = byte_val c \<Longrightarrow> byte n = c"
  by (metis byte_mod byte_byte_val)

lemma b64_round_trip: "good_alphabet alpha \<Longrightarrow> b64_decode alpha (b64_encode alpha s) = Some s"
proof (induction alpha s rule: b64_encode.induct)
  case (1 alpha)
  then show ?case by (simp add: b64_decode_def)
next
  case (2 alpha a)
  define n where "n = byte_val a * 16"
  have n: "n < 4096" "n div 16 = byte_val a" using byte_val_less [of a] by (simp_all add: n_def)
  have "b64_encode alpha [a] = [alpha ! (n div 64), alpha ! (n mod 64)]"
    by (simp add: n_def Let_def)
  with 2 n two_chars [of n] show ?case
    by (simp add: b64_decode_def indices_Cons del: b64_encode.simps)
next
  case (3 alpha a b)
  define n where "n = (byte_val a * 256 + byte_val b) * 4"
  have "n < 262144" using byte_val_le [of a] byte_val_le [of b] by (simp add: n_def)
  then have less: "n div 4096 < 64" by (simp add: less_mult_imp_div_less)
  have "n div 1024 = byte_val a" "n div 4 mod 256 = byte_val b"
    using byte_val_less [of a] byte_val_less [of b] by (simp_all add: n_def)
  then have bytes: "byte (n div 1024) = a" "byte (n div 4) = b" by (auto intro: byte_of)
  have "b64_encode alpha [a, b] = [alpha ! (n div 4096), alpha ! (n div 64 mod 64), alpha ! (n mod 64)]"
    by (simp only: b64_encode.simps Let_def n_def)
  moreover have "b64_group [n div 4096, n div 64 mod 64, n mod 64] = Some [a, b]"
    by (simp only: b64_group.simps Let_def three_chars bytes)
  ultimately show ?case
    using 3 less by (simp add: b64_decode_def indices_Cons del: b64_encode.simps b64_group.simps)
next
  case (4 alpha a b c rest)
  define n where "n = (byte_val a * 256 + byte_val b) * 256 + byte_val c"
  have "n < 16777216"
    using byte_val_le [of a] byte_val_le [of b] byte_val_le [of c] by (simp add: n_def)
  then have less: "n div 262144 < 64" by (simp add: less_mult_imp_div_less)
  have high: "n div 256 = byte_val a * 256 + byte_val b" and "n mod 256 = byte_val c"
    unfolding n_def by (rule last_digit; simp)+
  moreover have "n div 65536 = n div 256 div 256" by (simp flip: div_mult2_eq)
  moreover have "n div 256 div 256 = byte_val a" "n div 256 mod 256 = byte_val b"
    unfolding high by (rule last_digit; simp)+
  ultimately have "n div 65536 = byte_val a" "n div 256 mod 256 = byte_val b" "n mod 256 = byte_val c"
    by (simp_all only:)
  then have bytes: "byte (n div 65536) = a" "byte (n div 256) = b" "byte n = c" by (auto intro: byte_of)
  obtain ks where ks: "indices alpha (b64_encode alpha rest) = Some ks" "b64_group ks = Some rest"
    using 4 by (auto simp: b64_decode_def bind_eq_Some_conv)
  have "b64_encode alpha (a # b # c # rest) =
      [alpha ! (n div 262144), alpha ! (n div 4096 mod 64), alpha ! (n div 64 mod 64), alpha ! (n mod 64)]
        @ b64_encode alpha rest"
    by (simp only: b64_encode.simps Let_def n_def)
  moreover have "b64_group (n div 262144 # n div 4096 mod 64 # n div 64 mod 64 # n mod 64 # ks) = Some (a # b # c # rest)"
    by (simp only: b64_group.simps Let_def four_chars bytes ks) simp
  ultimately show ?case
    using "4.prems" less ks(1) by (simp add: b64_decode_def indices_Cons del: b64_encode.simps b64_group.simps)
qed

lemma alphabet_nth: "good_alphabet alpha \<Longrightarrow> i < 64 \<Longrightarrow> alpha ! i \<in> set alpha"
  by (simp add: good_alphabet_def)

lemma b64_encode_chars: "good_alphabet alpha \<Longrightarrow> c \<in> set (b64_encode alpha s) \<Longrightarrow> c \<in> set alpha"
proof (induction alpha s rule: b64_encode.induct)
  case (1 alpha)
  then show ?case by simp
next
  case (2 alpha a)
  have "byte_val a * 16 div 64 < 64" using byte_val_le [of a] by (simp add: less_mult_imp_div_less)
  with 2 show ?case by (auto simp: Let_def alphabet_nth)
next
  case (3 alpha a b)
  have "(byte_val a * 256 + byte_val b) * 4 div 4096 < 64"
    by (rule less_mult_imp_div_less) (use byte_val_le [of a] byte_val_le [of b] in simp)
  with 3 show ?case by (auto simp: Let_def intro!: alphabet_nth)
next
  case (4 alpha a b c rest)
  have "((byte_val a * 256 + byte_val b) * 256 + byte_val c) div 262144 < 64"
    by (rule less_mult_imp_div_less) (use byte_val_le [of a] byte_val_le [of b] byte_val_le [of c] in simp)
  with 4 show ?case by (auto simp: Let_def intro!: alphabet_nth)
qed

section \<open>Hexadecimal\<close>

text \<open>\<open>hex.EncodeToString\<close>: two digits of \<open>0123456789abcdef\<close> per byte.\<close>

definition hex_text :: "nat list \<Rightarrow> string" where
  "hex_text bytes = concat (map (\<lambda>b. map (\<lambda>n. ''0123456789abcdef'' ! n) [b div 16, b mod 16]) bytes)"

lemma hex_text_digits:
  assumes "c \<in> set (hex_text bytes)" "\<forall>b\<in>set bytes. b < 256"
  shows "c \<in> set ''0123456789abcdef''"
proof -
  obtain b where b: "b \<in> set bytes" "c \<in> (\<lambda>n. ''0123456789abcdef'' ! n) ` set [b div 16, b mod 16]"
    using assms(1) by (simp only: hex_text_def set_concat set_map image_image UN_iff) blast
  then obtain n where "n \<in> set [b div 16, b mod 16]" "c = ''0123456789abcdef'' ! n" by blast
  moreover from this have "n < length ''0123456789abcdef''" using assms(2) b(1) by auto
  ultimately show ?thesis by (metis nth_mem)
qed

end
