(* ===== verification/Migrate_Generate.thy ===== *)
theory Migrate_Generate imports Migrate_Theorems Orm_Schema_Theorems Go_Encoding begin

text \<open>
  Package \<open>migrate\<close>, generate.go: from the declarations of Go files to a pair of migration
  files. The Go parser, the clock, random bytes and the file system are arguments: a model file
  is given as its syntax tree, where the literal of a tag is the tag it denotes; the directory
  of the migrations is a map from file names to contents (\<open>filepath.Join\<close> puts every name into
  it), whose writes may fail and then leave a torn file or none.
\<close>

section \<open>Declarations\<close>

datatype go_expr =
    Ident string
  | StarExpr go_expr
  | ArrayType bool go_expr
  | SelectorExpr string string
  | OtherExpr

record ast_field =
  af_names :: "string list"
  af_type :: go_expr
  af_tag :: "(string \<times> string) list option"

record type_spec =
  ts_name :: string
  ts_struct :: "ast_field list option"

record go_file =
  gf_imports :: "(string option \<times> string) list"
  gf_types :: "type_spec list"

datatype model_error =
    ConflictingTableTags string string
  | BadTableTag tag_error
  | FixedSizeArray
  | UnsupportedIdent string
  | UnsupportedSelector string string
  | UnsupportedExpr

datatype gen_error =
    NoModelFiles
  | MkdirFailed string
  | ParseFailed string
  | BadModel string string model_error
  | StructPanic string
  | NoModels
  | BadSchema schema_error
  | BadClock
  | NoRandom
  | NoUniqueName
  | WriteFailed string

text \<open>\<open>ast.IsExported\<close>, on ASCII names.\<close>

definition is_exported :: "string \<Rightarrow> bool" where
  "is_exported name \<longleftrightarrow> name \<noteq> [] \<and> is_upper (hd name)"

definition import_map :: "(string option \<times> string) list \<Rightarrow> string \<rightharpoonup> string" where
  "import_map imps =
     fold (\<lambda>(name, path) m.
       m((case name of
            Some n \<Rightarrow> if n \<noteq> ''_'' \<and> n \<noteq> ''.'' then n else last (split_on (CHR ''/'') path)
          | None \<Rightarrow> last (split_on (CHR ''/'') path)) \<mapsto> path)) imps Map.empty"

definition ident_type :: "string \<Rightarrow> model_error + gtype" where
  "ident_type name =
     (case map_of
        [(''bool'', KBool), (''string'', KString), (''int'', KInt), (''int8'', KInt8), (''int16'', KInt16),
         (''int32'', KInt32), (''int64'', KInt64), (''uint'', KUint), (''uint8'', KUint8), (''byte'', KUint8),
         (''uint16'', KUint16), (''uint32'', KUint32), (''uint64'', KUint64), (''float32'', KFloat32),
         (''float64'', KFloat64)] name of
        None \<Rightarrow> Inl (UnsupportedIdent name)
      | Some k \<Rightarrow> Inr (Basic k))"

definition selector_type :: "string \<Rightarrow> string \<Rightarrow> model_error + gtype" where
  "selector_type pkg sel =
     (if pkg = ''time'' \<and> sel = ''Time'' then Inr time_type
      else if pkg = ''database/sql'' \<and> sel \<in> set [''NullString'', ''NullBool'', ''NullInt16'', ''NullInt32'',
          ''NullInt64'', ''NullByte'', ''NullFloat64'', ''NullTime'']
      then Inr (Declared pkg sel)
      else Inl (UnsupportedSelector pkg sel))"

fun ast_expr_to_type :: "(string \<rightharpoonup> string) \<Rightarrow> go_expr \<Rightarrow> model_error + gtype" where
  "ast_expr_to_type imports (Ident name) = ident_type name"
| "ast_expr_to_type imports (StarExpr x) = map_sum id Pointer (ast_expr_to_type imports x)"
| "ast_expr_to_type imports (ArrayType fixed x) =
     (if fixed then Inl FixedSizeArray else map_sum id SliceOf (ast_expr_to_type imports x))"
| "ast_expr_to_type imports (SelectorExpr pkg sel) =
     selector_type (case imports pkg of None \<Rightarrow> [] | Some p \<Rightarrow> p) sel"
| "ast_expr_to_type imports OtherExpr = Inl UnsupportedExpr"

definition tag_of :: "ast_field \<Rightarrow> (string \<times> string) list" where
  "tag_of f = (case af_tag f of None \<Rightarrow> [] | Some tag \<Rightarrow> tag)"

definition model_field :: "string \<Rightarrow> (string \<times> string) list \<Rightarrow> field_decl" where
  "model_field name tag = \<lparr>fd_name = name, fd_pkg_path = [], fd_anonymous = False, fd_tag = tag\<rparr>"

text \<open>\<open>buildReflectFields\<close>: the type of a field is converted before its names are looked at.\<close>

fun build_reflect_fields ::
  "(string \<rightharpoonup> string) \<Rightarrow> ast_field list \<Rightarrow> model_error + (field_decl \<times> gtype) list" where
  "build_reflect_fields imports [] = Inr []"
| "build_reflect_fields imports (f # fs) =
     (if af_names f = [] then build_reflect_fields imports fs
      else
        (case ast_expr_to_type imports (af_type f) of
           Inl e \<Rightarrow> Inl e
         | Inr t \<Rightarrow>
             (case build_reflect_fields imports fs of
                Inl e \<Rightarrow> Inl e
              | Inr out \<Rightarrow>
                  Inr (map (\<lambda>name. (model_field name (tag_of f), t)) (filter is_exported (af_names f)) @ out))))"

text \<open>
  \<open>parseTableNameFromTag\<close>: its own copy of what orm/schema.go does with the same tag, so that the
  generator finds the name the schema compiler finds.
\<close>

definition normalize_tag_key :: "string \<Rightarrow> string" where
  "normalize_tag_key key = filter (\<lambda>c. c \<notin> set ''_- '') (trim_space (to_lower key))"

fun name_tokens :: "string list \<Rightarrow> tag_error + string option" where
  "name_tokens [] = Inr None"
| "name_tokens (token # tokens) =
     (let token = trim_space token in
      if token = [] \<or> token = ''-'' then name_tokens tokens
      else
        (case cut_at (CHR '':'') token of
           (key, value, has_value) \<Rightarrow>
             if normalize_tag_key key = ''table'' then
               (if \<not> has_value \<or> trim_space value = [] then Inl (ValueRequired ''table'') else Inr (Some (trim_space value)))
             else if normalize_tag_key key = ''alias'' then
               (if \<not> has_value \<or> trim_space value = [] then Inl (ValueRequired ''alias'') else name_tokens tokens)
             else name_tokens tokens))"

definition parse_table_name_from_tag :: "string \<Rightarrow> tag_error + string option" where
  "parse_table_name_from_tag raw =
     (let tag = trim_space raw in
      if tag = [] \<or> tag = ''-'' then Inr None else name_tokens (split_on (CHR '','') tag))"

lemma cut_at_value: "cut_at d s = (key, value, has_value) \<Longrightarrow> has_value \<or> value = []"
  by (cases "dropWhile (\<lambda>c. c \<noteq> d) s") (simp_all add: cut_at_def Let_def)

lemma name_tokens_table_tokens: "name_tokens tokens = table_tokens tokens"
  by (induction tokens)
    (auto simp: Let_def normalize_tag_key_def normalize_schema_tag_key_def trim_space_Nil dest: cut_at_value split: prod.splits)

lemma parse_table_name_is_schema_tag: "parse_table_name_from_tag = parse_schema_table_tag"
  by (rule ext) (simp add: parse_table_name_from_tag_def parse_schema_table_tag_def name_tokens_table_tokens Let_def)

text \<open>\<open>parseStructTableName\<close>.\<close>

fun tags_table :: "string list \<Rightarrow> string \<Rightarrow> model_error + string" where
  "tags_table [] table = Inr table"
| "tags_table (raw # raws) table =
     (if trim_space raw = [] then tags_table raws table
      else
        (case parse_table_name_from_tag (trim_space raw) of
           Inl e \<Rightarrow> Inl (BadTableTag e)
         | Inr None \<Rightarrow> tags_table raws table
         | Inr (Some tag_table) \<Rightarrow>
             if table \<noteq> [] \<and> table \<noteq> tag_table then Inl (ConflictingTableTags table tag_table)
             else tags_table raws tag_table))"

definition ast_tags :: "ast_field \<Rightarrow> string list" where
  "ast_tags f =
     (case af_tag f of
        None \<Rightarrow> []
      | Some tag \<Rightarrow> (let fd = model_field [] tag in [tag_get fd ''orm'', tag_get fd ''elgon'']))"

definition parse_struct_table_name :: "ast_field list \<Rightarrow> string \<Rightarrow> model_error + string" where
  "parse_struct_table_name fs name =
     map_sum id (\<lambda>table. if table = [] then to_snake_case name else table)
       (tags_table (concat (map ast_tags fs)) [])"

text \<open>A struct type built at run time; \<open>reflect.StructOf\<close> panics on a repeated field name.\<close>

definition model_entity :: "(field_decl \<times> gtype) list \<Rightarrow> entity" where
  "model_entity fds = \<lparr>en_type = Some (StructOf fds), en_value_name = None, en_zero_name = None\<rparr>"

fun spec_entities ::
  "string \<Rightarrow> (string \<rightharpoonup> string) \<Rightarrow> type_spec list \<Rightarrow> gen_error + (string \<times> entity) list" where
  "spec_entities file imports [] = Inr []"
| "spec_entities file imports (ts # tss) =
     (if \<not> is_exported (ts_name ts) then spec_entities file imports tss
      else
        (case ts_struct ts of
           None \<Rightarrow> spec_entities file imports tss
         | Some fs \<Rightarrow>
             (case parse_struct_table_name fs (ts_name ts) of
                Inl e \<Rightarrow> Inl (BadModel file (ts_name ts) e)
              | Inr table \<Rightarrow>
                  (case build_reflect_fields imports fs of
                     Inl e \<Rightarrow> Inl (BadModel file (ts_name ts) e)
                   | Inr fds \<Rightarrow>
                       if fds = [] then spec_entities file imports tss
                       else if \<not> distinct (map (fd_name \<circ> fst) fds) then Inl (StructPanic (ts_name ts))
                       else
                         (case spec_entities file imports tss of
                            Inl e \<Rightarrow> Inl e
                          | Inr out \<Rightarrow> Inr ((table, model_entity fds) # out))))))"

definition parse_file_entities ::
  "(string \<Rightarrow> string + go_file) \<Rightarrow> string \<Rightarrow> gen_error + (string \<times> entity) list" where
  "parse_file_entities parsed path =
     (case parsed path of
        Inl e \<Rightarrow> Inl (ParseFailed e)
      | Inr file \<Rightarrow>
          map_sum id (sort_key fst) (spec_entities path (import_map (gf_imports file)) (gf_types file)))"

fun files_entities ::
  "(string \<Rightarrow> string + go_file) \<Rightarrow> string list \<Rightarrow> gen_error + (string \<times> entity) list" where
  "files_entities parsed [] = Inr []"
| "files_entities parsed (path # paths) =
     (case parse_file_entities parsed path of
        Inl e \<Rightarrow> Inl e
      | Inr es \<Rightarrow> (case files_entities parsed paths of Inl e \<Rightarrow> Inl e | Inr out \<Rightarrow> Inr (es @ out)))"

definition parse_model_entities ::
  "(string \<Rightarrow> string + go_file) \<Rightarrow> string list \<Rightarrow> gen_error + (string \<times> entity) list" where
  "parse_model_entities parsed paths = map_sum id (sort_key fst) (files_entities parsed paths)"

section \<open>Names and scripts\<close>

text \<open>\<open>normalizeName\<close>; only ASCII letters and digits survive, so bytes are as good as runes.\<close>

definition name_char :: "char \<Rightarrow> bool" where
  "name_char c \<longleftrightarrow> is_lower c \<or> is_digit c"

fun name_chars :: "bool \<Rightarrow> string \<Rightarrow> string" where
  "name_chars last_underscore [] = []"
| "name_chars last_underscore (c # cs) =
     (if name_char c then c # name_chars False cs
      else if last_underscore then name_chars True cs
      else CHR ''_'' # name_chars True cs)"

definition normalize_name :: "string \<Rightarrow> string" where
  "normalize_name name =
     (let name = trim_space (to_lower name) in
      if name = [] then ''autogen''
      else
        (let out = trim_char (CHR ''_'') (name_chars False name)
         in if out = [] then ''autogen'' else out))"

definition newline :: string where "newline = [CHR 0x0A]"

definition up_lines ::
  "(string \<times> entity) list \<Rightarrow> string \<Rightarrow> gen_error + string list" where
  "up_lines es dialect =
     fold (\<lambda>(table, en) r.
       (case r of
          Inl e \<Rightarrow> Inl e
        | Inr stmts \<Rightarrow>
            (case build_create_table_sql_for_table (\<lambda>pkg name. Some (StructOf [])) table en dialect of
               Inl e \<Rightarrow> Inl (BadSchema e)
             | Inr stmt \<Rightarrow> Inr (stmts @ [stmt @ '';'']))))
       es (Inr [])"

definition down_lines :: "(string \<times> entity) list \<Rightarrow> string list" where
  "down_lines es = map (\<lambda>(table, en). ''DROP TABLE IF EXISTS '' @ table @ '';'') (rev es)"

definition script :: "string list \<Rightarrow> string" where
  "script lines = join newline lines @ newline"

section \<open>Files\<close>

type_synonym files = "string \<rightharpoonup> string"

definition migration_file :: "int \<Rightarrow> string \<Rightarrow> string \<Rightarrow> string" where
  "migration_file ver name direction = show_int ver @ ''_'' @ name @ ''.'' @ direction @ ''.sql''"

text \<open>\<open>randomToken\<close>, with the bytes that the random generator answers.\<close>

definition random_token :: "nat list option \<Rightarrow> gen_error + string" where
  "random_token bytes = (case bytes of None \<Rightarrow> Inl NoRandom | Some b \<Rightarrow> Inr (hex_text b))"

text \<open>
  The loop over at most sixteen random names; \<open>denied\<close> are names whose \<open>os.Stat\<close> fails
  with another error than that they do not exist.
\<close>

fun free_name ::
  "(nat \<Rightarrow> nat list option) \<Rightarrow> (string \<Rightarrow> bool) \<Rightarrow> files \<Rightarrow> int \<Rightarrow> string \<Rightarrow> nat list \<Rightarrow> gen_error + string" where
  "free_name rand denied files ver base [] = Inl NoUniqueName"
| "free_name rand denied files ver base (i # rest) =
     (case random_token (rand i) of
        Inl e \<Rightarrow> Inl e
      | Inr token \<Rightarrow>
          (let name = base @ ''_'' @ token;
               taken = (\<lambda>f. denied f \<or> files f \<noteq> None)
           in if \<not> taken (migration_file ver name ''up'') \<and> \<not> taken (migration_file ver name ''down'')
              then Inr name
              else free_name rand denied files ver base rest))"

text \<open>\<open>os.WriteFile\<close>: a failing write leaves a torn file (\<open>Some\<close>) or none.\<close>

definition write_file ::
  "(string \<Rightarrow> (string \<times> string option) option) \<Rightarrow> string \<Rightarrow> string \<Rightarrow> files \<Rightarrow> string option \<times> files" where
  "write_file torn name content files =
     (case torn name of
        None \<Rightarrow> (None, files(name \<mapsto> content))
      | Some (err, None) \<Rightarrow> (Some err, files)
      | Some (err, Some part) \<Rightarrow> (Some err, files(name \<mapsto> part)))"

record generated =
  gn_version :: int
  gn_name :: string
  gn_up_path :: string
  gn_down_path :: string
  gn_up_sql :: string
  gn_down_sql :: string

record gen_world =
  gw_parsed :: "string \<Rightarrow> string + go_file"
  gw_mkdir :: "string option"
  gw_clock :: string
  gw_rand :: "nat \<Rightarrow> nat list option"
  gw_denied :: "string \<Rightarrow> bool"
  gw_torn :: "string \<Rightarrow> (string \<times> string option) option"

definition write_migration ::
  "gen_world \<Rightarrow> int \<Rightarrow> string \<Rightarrow> string \<Rightarrow> string \<Rightarrow> files \<Rightarrow> (gen_error + generated) \<times> files" where
  "write_migration w ver name up down files =
     (let up_path = migration_file ver name ''up''; down_path = migration_file ver name ''down'' in
      case write_file (gw_torn w) up_path up files of
        (Some err, files1) \<Rightarrow> (Inl (WriteFailed err), files1)
      | (None, files1) \<Rightarrow>
          (case write_file (gw_torn w) down_path down files1 of
             (Some err, files2) \<Rightarrow> (Inl (WriteFailed err), files2(up_path := None))
           | (None, files2) \<Rightarrow>
               (Inr \<lparr>gn_version = ver, gn_name = name, gn_up_path = up_path, gn_down_path = down_path,
                     gn_up_sql = up, gn_down_sql = down\<rparr>, files2)))"

definition generate_from_model_files ::
  "gen_world \<Rightarrow> string \<Rightarrow> string \<Rightarrow> string list \<Rightarrow> files \<Rightarrow> (gen_error + generated) \<times> files" where
  "generate_from_model_files w dialect name paths files =
     (if paths = [] then (Inl NoModelFiles, files)
      else
        (case gw_mkdir w of
           Some err \<Rightarrow> (Inl (MkdirFailed err), files)
         | None \<Rightarrow>
        (case parse_model_entities (gw_parsed w) paths of
           Inl e \<Rightarrow> (Inl e, files)
         | Inr es \<Rightarrow>
             if es = [] then (Inl NoModels, files)
             else
               (case up_lines es dialect of
                  Inl e \<Rightarrow> (Inl e, files)
                | Inr ups \<Rightarrow>
                    (case parse_int64 (gw_clock w) of
                       None \<Rightarrow> (Inl BadClock, files)
                     | Some ver \<Rightarrow>
                         (case free_name (gw_rand w) (gw_denied w) files ver (normalize_name name) [0..<16] of
                            Inl e \<Rightarrow> (Inl e, files)
                          | Inr final \<Rightarrow>
                              write_migration w ver final (script ups) (script (down_lines es)) files))))))"

end
