(* ===== verification/Go_Strconv.thy ===== *)
theory Go_Strconv imports Go_Prelude begin

text \<open>
  The readers of \<open>strconv\<close> and \<open>time\<close> for configuration values and schedules: booleans,
  unsigned numbers and durations. A duration is a number of nanoseconds. Go computes the
  fraction of a unit (the \<open>.5\<close> of \<open>1.5h\<close>) in floating point; that one conversion is the
  parameter \<open>frac\<close> of \<open>parse_duration\<close>, from the digits of the fraction, their number and
  the unit to nanoseconds.
\<close>

section \<open>Booleans and unsigned numbers\<close>

definition parse_bool :: "string \<Rightarrow> bool option" where
  "parse_bool s =
     (if s \<in> set [''1'', ''t'', ''T'', ''true'', ''TRUE'', ''True''] then Some True
      else if s \<in> set [''0'', ''f'', ''F'', ''false'', ''FALSE'', ''False''] then Some False
      else None)"

definition parse_uint64 :: "string \<Rightarrow> nat option" where
  "parse_uint64 s =
     (case parse_nat s of None \<Rightarrow> None | Some n \<Rightarrow> if n < 2 ^ 64 then Some n else None)"

lemma parse_int64_bounds: "parse_int64 s = Some v \<Longrightarrow> - (2 ^ 63) \<le> v \<and> v < 2 ^ 63"
  by (auto simp: parse_int64_def Let_def split: option.splits if_splits)

lemma parse_uint64_bounds: "parse_uint64 s = Some n \<Longrightarrow> n < 2 ^ 64"
  by (auto simp: parse_uint64_def split: option.splits if_splits)

section \<open>Durations\<close>

definition unit_map :: "string \<Rightarrow> nat option" where
  "unit_map = map_of
     [(''ns'', 1), (''us'', 1000), ([CHR 0xC2, CHR 0xB5, CHR ''s''], 1000),
      ([CHR 0xCE, CHR 0xBC, CHR ''s''], 1000), (''ms'', 1000000), (''s'', 1000000000),
      (''m'', 60000000000), (''h'', 3600000000000)]"

text \<open>\<open>leadingInt\<close>: the digits in front, or nothing when their value exceeds \<open>2 ^ 63\<close>.\<close>

fun leading_int :: "nat \<Rightarrow> string \<Rightarrow> (nat \<times> string) option" where
  "leading_int x [] = Some (x, [])"
| "leading_int x (c # cs) =
     (if \<not> is_digit c then Some (x, c # cs)
      else if x > 2 ^ 63 div 10 then None
      else (let y = x * 10 + (of_char c - 48) in if y > 2 ^ 63 then None else leading_int y cs))"

text \<open>\<open>leadingFraction\<close>: digits after an overflow are skipped; the second result counts the others.\<close>

fun leading_fraction :: "nat \<Rightarrow> nat \<Rightarrow> bool \<Rightarrow> string \<Rightarrow> nat \<times> nat \<times> string" where
  "leading_fraction x k overflow [] = (x, k, [])"
| "leading_fraction x k overflow (c # cs) =
     (if \<not> is_digit c then (x, k, c # cs)
      else if overflow \<or> x > (2 ^ 63 - 1) div 10 then leading_fraction x k True cs
      else
        (let y = x * 10 + (of_char c - 48)
         in if y > 2 ^ 63 then leading_fraction x k True cs else leading_fraction y (k + 1) False cs))"

text \<open>The end of a unit: the next digit or point.\<close>

definition unit_char :: "char \<Rightarrow> bool" where
  "unit_char c \<longleftrightarrow> c \<noteq> CHR ''.'' \<and> \<not> is_digit c"

text \<open>One term, a number and its unit: its value and the rest of the text.\<close>

definition duration_term :: "(nat \<Rightarrow> nat \<Rightarrow> nat \<Rightarrow> nat) \<Rightarrow> string \<Rightarrow> (nat \<times> string) option" where
  "duration_term frac s =
     (case leading_int 0 s of
        None \<Rightarrow> None
      | Some (v, s1) \<Rightarrow>
          (let pre = length s1 \<noteq> length s;
               dot = (s1 \<noteq> [] \<and> hd s1 = CHR ''.'');
               (f, k, s2) = (if dot then leading_fraction 0 0 False (tl s1) else (0, 0, s1));
               post = (dot \<and> length s2 \<noteq> length (tl s1));
               u = takeWhile unit_char s2;
               s3 = dropWhile unit_char s2
           in if \<not> pre \<and> \<not> post \<or> u = [] then None
              else
                (case unit_map u of
                   None \<Rightarrow> None
                 | Some unit \<Rightarrow>
                     if v > 2 ^ 63 div unit then None
                     else
                       (let w = v * unit + (if f > 0 then frac f k unit else 0)
                        in if w > 2 ^ 63 then None else Some (w, s3)))))"

lemma leading_int_length: "leading_int x s = Some (v, r) \<Longrightarrow> length r \<le> length s"
  by (induction x s rule: leading_int.induct) (auto simp: Let_def split: if_splits)

lemma leading_fraction_length: "leading_fraction x k ov s = (f, k', r) \<Longrightarrow> length r \<le> length s"
proof (induction s arbitrary: x k ov)
  case (Cons c s)
  then show ?case by (fastforce simp: Let_def split: if_splits)
qed simp

lemma duration_term_length:
  assumes "duration_term frac s = Some (w, r)"
  shows "length r < length s"
proof -
  obtain v s1 where i: "leading_int 0 s = Some (v, s1)"
    using assms by (auto simp: duration_term_def split: option.splits)
  define dot where "dot = (s1 \<noteq> [] \<and> hd s1 = CHR ''.'')"
  obtain f k s2 where f: "(if dot then leading_fraction 0 0 False (tl s1) else (0, 0, s1)) = (f, k, s2)"
    by (rule prod_cases3)
  have "takeWhile unit_char s2 \<noteq> []" and r: "r = dropWhile unit_char s2"
    using assms i f by (auto simp: duration_term_def dot_def Let_def split: option.splits if_splits prod.splits)
  then have "length r < length s2" using takeWhile_dropWhile_id [of unit_char s2]
    by (metis add.left_neutral length_append length_greater_0_conv less_add_same_cancel2)
  moreover have "length s2 \<le> length s1"
    using f by (auto split: if_splits dest: leading_fraction_length)
  ultimately show ?thesis using leading_int_length [OF i] by simp
qed

text \<open>The loop over the terms, with the sum so far.\<close>

function duration_terms :: "(nat \<Rightarrow> nat \<Rightarrow> nat \<Rightarrow> nat) \<Rightarrow> string \<Rightarrow> nat \<Rightarrow> nat option" where
  "duration_terms frac s d =
     (if s = [] then Some d
      else
        (case duration_term frac s of
           None \<Rightarrow> None
         | Some (w, rest) \<Rightarrow> if d + w > 2 ^ 63 then None else duration_terms frac rest (d + w)))"
  by pat_completeness auto
termination
  by (relation "measure (\<lambda>(frac, s, d). length s)") (auto dest: duration_term_length)

declare duration_terms.simps [simp del]

text \<open>\<open>time.ParseDuration\<close>.\<close>

definition parse_duration :: "(nat \<Rightarrow> nat \<Rightarrow> nat \<Rightarrow> nat) \<Rightarrow> string \<Rightarrow> int option" where
  "parse_duration frac s =
     (let neg = (s \<noteq> [] \<and> hd s = CHR ''-'');
          body = (if s \<noteq> [] \<and> (hd s = CHR ''-'' \<or> hd s = CHR ''+'') then tl s else s)
      in if body = ''0'' then Some 0
         else if body = [] then None
         else
           (case duration_terms frac body 0 of
              None \<Rightarrow> None
            | Some d \<Rightarrow>
                if neg then Some (- int d)
                else if d > 2 ^ 63 - 1 then None else Some (int d)))"

lemma duration_terms_le: "d \<le> 2 ^ 63 \<Longrightarrow> duration_terms frac s d = Some r \<Longrightarrow> r \<le> 2 ^ 63"
proof (induction frac s d rule: duration_terms.induct)
  case (1 frac s d)
  show ?case
  proof (cases "s = []")
    case True
    then show ?thesis using 1(2,3) by (simp add: duration_terms.simps)
  next
    case False
    with 1(3) obtain w rest where t: "duration_term frac s = Some (w, rest)" "d + w \<le> 2 ^ 63"
      "duration_terms frac rest (d + w) = Some r"
      by (subst (asm) duration_terms.simps) (auto split: option.splits if_splits)
    then show ?thesis using 1(1) [OF False t(1) refl] by simp
  qed
qed

lemma parse_duration_bounds: "parse_duration frac s = Some d \<Longrightarrow> - (2 ^ 63) \<le> d \<and> d < 2 ^ 63"
  by (auto simp: parse_duration_def Let_def split: if_splits option.splits
      dest!: duration_terms_le [rotated])

section \<open>Whole units read back\<close>

text \<open>Text of a number of whole units, and of several of them.\<close>

definition units_text :: "(nat \<times> string) list \<Rightarrow> string" where
  "units_text ts = concat (map (\<lambda>(n, u). show_nat n @ u) ts)"

definition units_value :: "(nat \<times> string) list \<Rightarrow> nat" where
  "units_value ts = sum_list (map (\<lambda>(n, u). n * the (unit_map u)) ts)"

lemma parse_digits_le: "parse_digits x s = Some n \<Longrightarrow> x \<le> n"
  by (induction x s rule: parse_digits.induct) (force split: if_splits)+

lemma leading_int_digits:
  assumes "parse_digits x s = Some n" "n \<le> 2 ^ 63" "t = [] \<or> \<not> is_digit (hd t)"
  shows "leading_int x (s @ t) = Some (n, t)"
  using assms(1,2)
proof (induction s arbitrary: x)
  case Nil
  then show ?case using assms(3) by (cases t) auto
next
  case (Cons c s)
  let ?y = "10 * x + (of_char c - 48)"
  have d: "is_digit c" "parse_digits ?y s = Some n" using Cons.prems by (auto split: if_splits)
  have "?y \<le> n" by (rule parse_digits_le [OF d(2)])
  then have "\<not> x > 2 ^ 63 div 10" "\<not> ?y > 2 ^ 63" using Cons.prems(2) by simp_all
  then show ?case using Cons.IH [OF d(2) Cons.prems(2)] d(1)
    by (simp add: mult.commute [of x 10])
qed

lemma unit_map_units:
  assumes "unit_map u = Some w"
  shows "u \<noteq> [] \<and> list_all unit_char u \<and> 0 < w"
  using assms by (auto simp: unit_map_def unit_char_def is_digit_nat split: if_splits)

lemma duration_term_whole:
  assumes "unit_map u = Some w" "n * w \<le> 2 ^ 63" "t = [] \<or> is_digit (hd t)"
  shows "duration_term frac (show_nat n @ u @ t) = Some (n * w, t)"
proof -
  have u: "u \<noteq> []" "list_all unit_char u" "0 < w" using unit_map_units [OF assms(1)] by auto
  have hd: "unit_char (hd u)" using u(1,2) by (cases u) auto
  then have h: "\<not> is_digit (hd (u @ t))" "hd (u @ t) \<noteq> CHR ''.''" using u(1) by (auto simp: unit_char_def)
  have "n \<le> n * w" using u(3) by simp
  then have n: "n \<le> 2 ^ 63" using assms(2) by (rule order_trans)
  have i: "leading_int 0 (show_nat n @ u @ t) = Some (n, u @ t)"
    by (rule leading_int_digits [OF parse_digits_show_nat n]) (simp add: h)
  have s: "takeWhile unit_char (u @ t) = u \<and> dropWhile unit_char (u @ t) = t"
    using u(2) assms(3) by (induction u) (cases t; auto simp: unit_char_def)+
  have "\<not> n > 2 ^ 63 div w" using assms(2) u(3) by (simp add: less_eq_div_iff_mult_less_eq not_less)
  then show ?thesis using i h u(1) s assms(1,2)
    by (simp add: duration_term_def Let_def)
qed

lemma duration_terms_whole:
  assumes "\<forall>(n, u)\<in>set ts. unit_map u \<noteq> None" "d + units_value ts \<le> 2 ^ 63"
  shows "duration_terms frac (units_text ts) d = Some (d + units_value ts)"
  using assms
proof (induction ts arbitrary: d)
  case Nil
  then show ?case by (simp add: units_text_def units_value_def duration_terms.simps)
next
  case (Cons t ts)
  obtain n u w where t: "t = (n, u)" "unit_map u = Some w" using Cons.prems(1) by fastforce
  have v: "d + (n * w + units_value ts) \<le> 2 ^ 63" using Cons.prems(2) t by (simp add: units_value_def)
  have "units_text ts = [] \<or> is_digit (hd (units_text ts))"
    by (cases ts) (auto simp: units_text_def hd_show_nat_digit)
  then have "duration_term frac (show_nat n @ u @ units_text ts) = Some (n * w, units_text ts)"
    using v t by (intro duration_term_whole) simp_all
  moreover have "duration_terms frac (units_text ts) (d + n * w) = Some (d + n * w + units_value ts)"
    using v Cons.prems(1) by (intro Cons.IH) simp_all
  ultimately show ?case using v t
    by (subst duration_terms.simps) (simp add: units_text_def units_value_def add.assoc)
qed

lemma parse_duration_whole:
  assumes "\<forall>(n, u)\<in>set ts. unit_map u \<noteq> None" "ts \<noteq> []" "units_value ts < 2 ^ 63"
  shows "parse_duration frac (units_text ts) = Some (int (units_value ts))"
proof -
  obtain n u rest where ts: "ts = (n, u) # rest" using assms(2) by (cases ts) auto
  have h: "hd (units_text ts) \<noteq> CHR ''-''" "hd (units_text ts) \<noteq> CHR ''+''" "units_text ts \<noteq> []"
    using hd_show_nat_digit [of n] by (auto simp: ts units_text_def is_digit_nat)
  have "u \<noteq> []" using assms(1) unit_map_units by (auto simp: ts)
  then have "length (units_text ts) > 1" using show_nat_not_Nil [of n]
    by (cases "show_nat n"; cases u) (auto simp: ts units_text_def)
  then have "units_text ts \<noteq> ''0''" by auto
  moreover have "duration_terms frac (units_text ts) 0 = Some (units_value ts)"
    using duration_terms_whole [OF assms(1), of 0 frac] assms(3) by simp
  ultimately show ?thesis using h assms(3) by (simp add: parse_duration_def)
qed

end
