(* ===== verification/Migrate_Generate_Theorems.thy ===== *)
theory Migrate_Generate_Theorems imports Migrate_Generate Go_Strconv begin

text \<open>
  Package \<open>migrate\<close>: what the generator writes is what the loader reads, the two scripts of
  a migration undo each other table by table, and what happens to two migrations of one second.
\<close>

section \<open>Names\<close>

lemma name_chars_set: "c \<in> set (name_chars b s) \<Longrightarrow> name_char c \<or> c = CHR ''_''"
  by (induction b s rule: name_chars.induct) (auto split: if_splits)

lemma trim_char_subset: "set (trim_char d s) \<subseteq> set s"
  by (auto simp: trim_char_def dest!: set_dropWhileD)

lemma normalize_name_chars:
  assumes "c \<in> set (normalize_name name)"
  shows "name_char c \<or> c = CHR ''_''"
proof -
  have "name_char d" if "d \<in> set ''autogen''" for d
    using that by (auto simp: name_char_def is_lower_def)
  moreover have "name_char d \<or> d = CHR ''_''"
    if "d \<in> set (trim_char (CHR ''_'') (name_chars False s))" for d s
    using that trim_char_subset name_chars_set by blast
  ultimately show ?thesis using assms by (auto simp: normalize_name_def Let_def split: if_splits)
qed

lemma normalize_name_not_Nil: "normalize_name name \<noteq> []"
  by (simp add: normalize_name_def Let_def)

lemma free_name_shape:
  "free_name rand denied files ver base is = Inr name \<Longrightarrow>
     \<exists>i bytes. rand i = Some bytes \<and> name = base @ ''_'' @ hex_text bytes \<and>
       files (migration_file ver name ''up'') = None \<and> files (migration_file ver name ''down'') = None"
  by (induction rand denied files ver base "is" rule: free_name.induct)
    (auto simp: Let_def random_token_def split: option.splits if_splits)

lemma hex_digit_clean: "c \<in> set ''0123456789abcdef'' \<Longrightarrow> c \<noteq> CHR ''.'' \<and> c \<noteq> CHR ''/''"
  by auto

lemma final_name_part:
  assumes "free_name rand denied files ver (normalize_name name) is = Inr final"
    and "\<And>i bytes. rand i = Some bytes \<Longrightarrow> \<forall>b\<in>set bytes. b < 256"
  shows "name_part final"
proof -
  obtain i bytes where f: "rand i = Some bytes" "final = normalize_name name @ ''_'' @ hex_text bytes"
    using free_name_shape [OF assms(1)] by blast
  have "c \<noteq> CHR ''.'' \<and> c \<noteq> CHR ''/''" if "c \<in> set (hex_text bytes)" for c
    using hex_digit_clean hex_text_digits [OF that] assms(2) [OF f(1)] by blast
  moreover have "c \<noteq> CHR ''.'' \<and> c \<noteq> CHR ''/''" if "c \<in> set (normalize_name name)" for c
    using normalize_name_chars [OF that] by (auto simp: name_char_def is_lower_nat is_digit_nat)
  ultimately show ?thesis unfolding f(2) name_part_def by fastforce
qed

lemma migration_file_parse:
  assumes "name_part name" "direction = ''up'' \<or> direction = ''down''" "v < 2 ^ 63"
  shows "parse_migration_file_name (migration_file (int v) name direction) dialect = Some (int v, name, direction)"
proof -
  have "migration_file (int v) name direction = file_name v name [direction]"
    by (simp add: migration_file_def file_name_def show_int_def)
  then show ?thesis using assms parse_file_name [of name "[direction]" v dialect] by (auto simp: name_part_def)
qed

section \<open>A run without an error\<close>

definition generated_as :: "int \<Rightarrow> string \<Rightarrow> string \<Rightarrow> string \<Rightarrow> generated" where
  "generated_as ver name up down =
     \<lparr>gn_version = ver, gn_name = name, gn_up_path = migration_file ver name ''up'',
      gn_down_path = migration_file ver name ''down'', gn_up_sql = up, gn_down_sql = down\<rparr>"

lemma write_migrationE:
  assumes "write_migration w ver name up down files = (Inr g, files')"
  shows "g = generated_as ver name up down \<and>
    files' = files(migration_file ver name ''up'' \<mapsto> up, migration_file ver name ''down'' \<mapsto> down)"
  using assms
  by (auto simp: write_migration_def write_file_def generated_as_def Let_def
      split: option.splits prod.splits)

lemma generateE:
  assumes "generate_from_model_files w dialect name paths files = (Inr g, files')"
  obtains es ups ver final where "parse_model_entities (gw_parsed w) paths = Inr es" "es \<noteq> []"
    "up_lines es dialect = Inr ups" "parse_int64 (gw_clock w) = Some ver"
    "free_name (gw_rand w) (gw_denied w) files ver (normalize_name name) [0..<16] = Inr final"
    "g = generated_as ver final (script ups) (script (down_lines es))"
    "files' = files(gn_up_path g \<mapsto> gn_up_sql g, gn_down_path g \<mapsto> gn_down_sql g)"
proof -
  obtain es ups ver final where *: "parse_model_entities (gw_parsed w) paths = Inr es" "es \<noteq> []"
    "up_lines es dialect = Inr ups" "parse_int64 (gw_clock w) = Some ver"
    "free_name (gw_rand w) (gw_denied w) files ver (normalize_name name) [0..<16] = Inr final"
    "write_migration w ver final (script ups) (script (down_lines es)) files = (Inr g, files')"
    using assms unfolding generate_from_model_files_def
    by (auto split: if_splits option.splits sum.splits)
  show thesis
    using write_migrationE [OF *(6)] by (intro that [OF *(1-5)]) (simp_all add: generated_as_def)
qed

text \<open>Names of files that differ in the direction or in the name are different.\<close>

lemma migration_file_eq:
  assumes "name_part name" "name_part name'" "d \<in> {''up'', ''down''}" "d' \<in> {''up'', ''down''}" "v < 2 ^ 63"
  shows "migration_file (int v) name d = migration_file (int v) name' d' \<longleftrightarrow> name = name' \<and> d = d'"
proof
  have p: "parse_migration_file_name (migration_file (int v) name d) [] = Some (int v, name, d)"
    using assms(3) by (intro migration_file_parse [OF assms(1) _ assms(5)]) simp
  have p': "parse_migration_file_name (migration_file (int v) name' d') [] = Some (int v, name', d')"
    using assms(4) by (intro migration_file_parse [OF assms(2) _ assms(5)]) simp
  assume "migration_file (int v) name d = migration_file (int v) name' d'"
  from p [unfolded this p'] show "name = name' \<and> d = d'" by (simp only: option.inject prod.inject)
qed simp

definition listed :: "generated \<Rightarrow> dir_entry list" where
  "listed g = [SqlFile (gn_down_path g) (Inr (gn_down_sql g)), SqlFile (gn_up_path g) (Inr (gn_up_sql g))]"

definition loads_as :: "generated \<Rightarrow> migration" where
  "loads_as g = \<lparr>mg_version = gn_version g, mg_name = gn_name g, mg_up = gn_up_sql g, mg_down = gn_down_sql g\<rparr>"

lemma load_generated:
  assumes "name_part name" "v < 2 ^ 63"
  shows "load_entries dialect (listed (generated_as (int v) name up down) @ es) ms =
    load_entries dialect es
      (put_migration (int v) name ''up'' up (put_migration (int v) name ''down'' down ms))"
  using migration_file_parse [OF assms(1) _ assms(2)] by (simp add: listed_def generated_as_def)

lemma script_not_Nil: "script lines \<noteq> []"
  by (simp add: script_def newline_def)

definition bytes_ok :: "gen_world \<Rightarrow> bool" where
  "bytes_ok w \<longleftrightarrow> (\<forall>i bytes. gw_rand w i = Some bytes \<longrightarrow> (\<forall>b\<in>set bytes. b < 256))"

text \<open>What a run gives, with the names read back.\<close>

lemma generate_names:
  assumes "generate_from_model_files w dialect name paths files = (Inr g, files')"
    and "bytes_ok w" "parse_int64 (gw_clock w) = Some (int v)"
  obtains up down final where "g = generated_as (int v) final up down" "name_part final" "v < 2 ^ 63"
    "up \<noteq> []" "files (gn_up_path g) = None" "files (gn_down_path g) = None"
    "files' = files(gn_up_path g \<mapsto> up, gn_down_path g \<mapsto> down)"
proof (rule generateE [OF assms(1)])
  fix es ups ver final
  assume v: "parse_int64 (gw_clock w) = Some ver"
    and f: "free_name (gw_rand w) (gw_denied w) files ver (normalize_name name) [0..<16] = Inr final"
    and g: "g = generated_as ver final (script ups) (script (down_lines es))"
    and fs: "files' = files(gn_up_path g \<mapsto> gn_up_sql g, gn_down_path g \<mapsto> gn_down_sql g)"
  have ver: "ver = int v" using v assms(3) by simp
  have "name_part final" using assms(2) by (intro final_name_part [OF f]) (simp add: bytes_ok_def)
  moreover have "v < 2 ^ 63" using parse_int64_bounds [OF assms(3)] by simp
  moreover have "files (gn_up_path g) = None" "files (gn_down_path g) = None"
    using free_name_shape [OF f] by (auto simp: g generated_as_def)
  ultimately show thesis
    using that [of final "script ups" "script (down_lines es)"] script_not_Nil g fs
    by (simp add: ver generated_as_def)
qed

lemma generated_loads:
  assumes "generate_from_model_files w dialect name paths files = (Inr g, files')"
    and "bytes_ok w" "parse_int64 (gw_clock w) = Some (int v)"
  shows "files (gn_up_path g) = None \<and> files (gn_down_path g) = None \<and>
    files' (gn_up_path g) = Some (gn_up_sql g) \<and> files' (gn_down_path g) = Some (gn_down_sql g) \<and>
    load any_dialect (Inr (listed g)) = Inr [loads_as g] \<and> gn_version g = int v"
proof (rule generate_names [OF assms])
  fix up down final
  assume g: "g = generated_as (int v) final up down" "name_part final" "v < 2 ^ 63" "up \<noteq> []"
    and files: "files (gn_up_path g) = None" "files (gn_down_path g) = None"
    "files' = files(gn_up_path g \<mapsto> up, gn_down_path g \<mapsto> down)"
  have "gn_up_path g \<noteq> gn_down_path g"
    using migration_file_eq [OF g(2,2), of "''up''" "''down''" v] g(3) by (simp add: g(1) generated_as_def)
  moreover have "load any_dialect (Inr (listed g)) = Inr [loads_as g]"
    using load_generated [OF g(2,3), of any_dialect up down "[]" "[]"] g(4)
    by (simp add: load_def g(1) loads_as_def generated_as_def)
  ultimately show ?thesis using files by (simp add: g(1) generated_as_def)
qed

text \<open>
  C35. What the generator writes is what the loader reads: the two files are new, and \<open>Load\<close>
  finds in them one migration, with the version, the name and the two scripts that were
  generated, for every dialect, whatever text the name was asked for with.
\<close>

theorem generated_migration_loads:
  assumes "generate_from_model_files w dialect name paths files = (Inr g, files')"
    and "bytes_ok w" "parse_int64 (gw_clock w) = Some (int v)"
  shows "files (gn_up_path g) = None \<and> files (gn_down_path g) = None \<and>
    files' (gn_up_path g) = Some (gn_up_sql g) \<and> files' (gn_down_path g) = Some (gn_down_sql g) \<and>
    load any_dialect (Inr (listed g)) = Inr [loads_as g] \<and> gn_version g = int v"
  by (rule generated_loads [OF assms])

text \<open>
  Two migrations generated within one second lose the first: they get one version, and
  the loader makes one migration of the four files, under the first name with the scripts of
  the second.
\<close>

theorem same_second_loses_migration:
  assumes "generate_from_model_files w dialect name paths files = (Inr g, files')"
    and "generate_from_model_files w' dialect name' paths' files' = (Inr g', files'')"
    and "gw_clock w' = gw_clock w" "bytes_ok w" "bytes_ok w'" "parse_int64 (gw_clock w) = Some (int v)"
  shows "gn_name g \<noteq> gn_name g' \<and>
    load any_dialect (Inr (listed g @ listed g')) = Inr [(loads_as g')\<lparr>mg_name := gn_name g\<rparr>]"
proof (rule generate_names [OF assms(1,4,6)])
  fix up down final
  assume g: "g = generated_as (int v) final up down" "name_part final" "v < 2 ^ 63"
    and files: "files' = files(gn_up_path g \<mapsto> up, gn_down_path g \<mapsto> down)"
  show ?thesis
  proof (rule generate_names [OF assms(2,5)])
    show "parse_int64 (gw_clock w') = Some (int v)" by (simp add: assms(3,6))
    fix up' down' final'
    assume g': "g' = generated_as (int v) final' up' down'" "name_part final'" "up' \<noteq> []"
      and free: "files' (gn_up_path g') = None"
    have "gn_up_path g' \<noteq> gn_up_path g" using files free by (auto split: if_splits)
    then have "final' \<noteq> final" by (auto simp: g(1) g'(1) generated_as_def)
    then show ?thesis
      using load_generated [OF g(2,3), of any_dialect up down "listed g'" "[]"]
        load_generated [OF g'(2) g(3), of any_dialect up' down' "[]"] g'(3)
      by (simp add: load_def g(1) g'(1) loads_as_def generated_as_def)
  qed
qed

section \<open>Scripts\<close>

lemma up_lines_each:
  assumes "up_lines es dialect = Inr ups"
  shows "\<exists>stmts. ups = map (\<lambda>s. s @ '';'') stmts \<and>
    list_all2 (\<lambda>(table, en) s.
      build_create_table_sql_for_table (\<lambda>pkg name. Some (StructOf [])) table en dialect = Inr s) es stmts"
proof -
  let ?f = "\<lambda>(table, en) r.
       (case r of
          Inl e \<Rightarrow> Inl e
        | Inr stmts \<Rightarrow>
            (case build_create_table_sql_for_table (\<lambda>pkg name. Some (StructOf [])) table en dialect of
               Inl e \<Rightarrow> Inl (BadSchema e)
             | Inr stmt \<Rightarrow> Inr (stmts @ [stmt @ '';''])))"
  have stuck: "fold ?f es (Inl e) = Inl e" for es e by (induction es) auto
  have "fold ?f es (Inr acc) = Inr ups \<Longrightarrow>
    \<exists>stmts. ups = acc @ map (\<lambda>s. s @ '';'') stmts \<and>
      list_all2 (\<lambda>(table, en) s.
        build_create_table_sql_for_table (\<lambda>pkg name. Some (StructOf [])) table en dialect = Inr s) es stmts" for acc
  proof (induction es arbitrary: acc)
    case (Cons x es)
    obtain table en where x: "x = (table, en)" by (rule prod.exhaust)
    then obtain s where s: "build_create_table_sql_for_table (\<lambda>pkg name. Some (StructOf [])) table en dialect = Inr s"
      using Cons.prems stuck by (auto split: sum.splits)
    with Cons.IH [of "acc @ [s @ '';'']"] Cons.prems x obtain stmts where
      "ups = acc @ (s @ '';'') # map (\<lambda>s. s @ '';'') stmts"
      "list_all2 (\<lambda>(table, en) s.
        build_create_table_sql_for_table (\<lambda>pkg name. Some (StructOf [])) table en dialect = Inr s) es stmts"
      by auto
    with s x show ?case by (intro exI [of _ "s # stmts"]) simp
  qed simp
  from this [of "[]"] assms show ?thesis by (simp add: up_lines_def)
qed

lemma strip_codes_keeps: "x \<in> set s \<Longrightarrow> \<forall>e\<in>set es. x \<notin> set e \<Longrightarrow> x \<in> set (strip_codes es s)"
proof (induction es s rule: strip_codes.induct)
  case (1 es s)
  show ?case
  proof (cases "find (\<lambda>e. e \<noteq> [] \<and> prefix e s) es")
    case None
    then show ?thesis using 1(2) by (subst strip_codes.simps) simp
  next
    case (Some e)
    then obtain t where t: "e \<in> set es" "s = e @ t" by (auto simp: find_Some_iff prefix_def)
    then have "x \<in> set t" using 1(2,3) by auto
    then show ?thesis using 1(1) [OF Some] 1(3) Some t(2) by (subst strip_codes.simps) simp
  qed
qed

lemma trim_space_keeps: "x \<in> set s \<Longrightarrow> is_lower x \<Longrightarrow> trim_space s \<noteq> []"
proof -
  assume x: "x \<in> set s" "is_lower x"
  then have "\<forall>e\<in>set space_codes. x \<notin> set e" by (auto simp: space_codes_def is_lower_nat)
  then have "x \<in> set (trim_space s)" using x(1) strip_codes_keeps
    by (simp add: trim_space_def trim_right_def trim_left_def)
  then show ?thesis by auto
qed

lemma snake_first_lower: "is_exported name \<Longrightarrow> hd (to_snake_case name) = lower_char (hd name) \<and> to_snake_case name \<noteq> []"
  by (cases name) (auto simp: is_exported_def to_snake_case_def)

lemma table_tokens_not_Nil: "table_tokens tokens = Inr (Some t) \<Longrightarrow> trim_space t = t \<and> t \<noteq> []"
  by (induction tokens) (auto simp: Let_def split: if_splits prod.splits)

lemma tags_table_not_Nil:
  "tags_table raws table = Inr t \<Longrightarrow> t \<noteq> [] \<Longrightarrow> (trim_space table = table \<or> table = []) \<Longrightarrow> trim_space t = t"
proof (induction raws arbitrary: table)
  case (Cons raw raws)
  have "trim_space s = s" if "parse_table_name_from_tag (trim_space raw) = Inr (Some s)" for s
    using that table_tokens_not_Nil
    by (auto simp: parse_table_name_is_schema_tag parse_schema_table_tag_def Let_def split: if_splits)
  with Cons show ?case by (auto split: if_splits sum.splits option.splits)
qed auto

lemma struct_table_not_blank:
  assumes "parse_struct_table_name fs name = Inr t" "is_exported name"
  shows "trim_space t \<noteq> []"
proof -
  obtain u where u: "tags_table (concat (map ast_tags fs)) [] = Inr u" "t = (if u = [] then to_snake_case name else u)"
    using assms(1) by (cases "tags_table (concat (map ast_tags fs)) []") (auto simp: parse_struct_table_name_def)
  show ?thesis
  proof (cases "u = []")
    case True
    then have "is_lower (hd t)" "t \<noteq> []"
      using snake_first_lower [OF assms(2)] assms(2) u(2) by (auto simp: is_exported_def)
    then show ?thesis using hd_in_set trim_space_keeps by blast
  next
    case False
    then show ?thesis using tags_table_not_Nil [OF u(1)] u(2) by simp
  qed
qed

lemma spec_entities_tables:
  "spec_entities file imports tss = Inr es \<Longrightarrow> (t, en) \<in> set es \<Longrightarrow> trim_space t \<noteq> []"
proof (induction tss arbitrary: es)
  case (Cons ts tss)
  then show ?case
    by (auto split: if_splits option.splits sum.splits dest: struct_table_not_blank)
qed simp

lemma files_entities_tables:
  "files_entities parsed paths = Inr es \<Longrightarrow> (t, en) \<in> set es \<Longrightarrow> trim_space t \<noteq> []"
proof (induction paths arbitrary: es)
  case (Cons path paths)
  have "trim_space t \<noteq> []" if "parse_file_entities parsed path = Inr xs" "(t, en) \<in> set xs" for xs
    using that spec_entities_tables
    by (auto simp: parse_file_entities_def map_sum_def split: sum.splits)
  with Cons show ?case by (auto split: sum.splits)
qed simp

lemma parse_model_entities_sorted:
  assumes "parse_model_entities parsed paths = Inr es"
  shows "sorted (map fst es) \<and> (\<forall>(t, en)\<in>set es. trim_space t \<noteq> [])"
  using assms files_entities_tables
  by (cases "files_entities parsed paths") (force simp: parse_model_entities_def)+

lemma create_for_table:
  assumes "build_create_table_sql_for_table env table en dialect = Inr s" "trim_space table \<noteq> []"
  shows "\<exists>cols. cols \<noteq> [] \<and> s = create_table_text (trim_space table) cols \<and> ident_match (trim_space table)"
  using assms
  by (auto simp: build_create_table_sql_for_table_def build_create_table_def table_identifier_def Let_def
      split: sum.splits prod.splits if_splits dest!: valid_identifierD)

text \<open>
  The two scripts of a generated migration undo each other: \<open>up\<close> creates one valid table
  per entity, in the order of the table names, each with at least one column, and \<open>down\<close> drops
  the same tables in the opposite order.
\<close>

theorem generated_scripts_undo:
  assumes "generate_from_model_files w dialect name paths files = (Inr g, files')"
  shows "\<exists>tables columns. tables \<noteq> [] \<and> sorted tables \<and> length columns = length tables \<and> [] \<notin> set columns \<and>
    (\<forall>t\<in>set tables. ident_match (trim_space t)) \<and>
    gn_up_sql g = script (map2 (\<lambda>t cols. create_table_text (trim_space t) cols @ '';'') tables columns) \<and>
    gn_down_sql g = script (rev (map (\<lambda>t. ''DROP TABLE IF EXISTS '' @ t @ '';'') tables))"
proof (rule generateE [OF assms])
  fix es ups ver final
  assume es: "parse_model_entities (gw_parsed w) paths = Inr es" "es \<noteq> []"
    and ups: "up_lines es dialect = Inr ups"
    and g: "g = generated_as ver final (script ups) (script (down_lines es))"
  note tables = parse_model_entities_sorted [OF es(1)]
  obtain stmts where s: "ups = map (\<lambda>s. s @ '';'') stmts" "list_all2 (\<lambda>(table, en) s.
      build_create_table_sql_for_table (\<lambda>pkg name. Some (StructOf [])) table en dialect = Inr s) es stmts"
    using up_lines_each [OF ups] by blast
  have "\<exists>columns. length columns = length es \<and> [] \<notin> set columns \<and>
      stmts = map2 (\<lambda>t cols. create_table_text (trim_space t) cols) (map fst es) columns \<and>
      (\<forall>t\<in>set (map fst es). ident_match (trim_space t))"
    using s(2) conjunct2 [OF tables]
  proof (induction rule: list_all2_induct)
    case (Cons x xs y ys)
    obtain t en where x: "x = (t, en)" by (rule prod.exhaust)
    have b: "build_create_table_sql_for_table (\<lambda>pkg name. Some (StructOf [])) t en dialect = Inr y" "trim_space t \<noteq> []"
      using Cons.hyps Cons.prems x by auto
    obtain cols where "cols \<noteq> []" "y = create_table_text (trim_space t) cols" "ident_match (trim_space t)"
      using create_for_table [OF b] by blast
    moreover obtain columns where "length columns = length xs" "[] \<notin> set columns"
      "ys = map2 (\<lambda>t cols. create_table_text (trim_space t) cols) (map fst xs) columns"
      "\<forall>t\<in>set (map fst xs). ident_match (trim_space t)"
      using Cons by auto
    ultimately show ?case using x by (intro exI [of _ "cols # columns"]) simp
  qed simp
  then obtain columns where c: "length columns = length es" "[] \<notin> set columns"
    "stmts = map2 (\<lambda>t cols. create_table_text (trim_space t) cols) (map fst es) columns"
    "\<forall>t\<in>set (map fst es). ident_match (trim_space t)" by blast
  have "down_lines es = rev (map (\<lambda>t. ''DROP TABLE IF EXISTS '' @ t @ '';'') (map fst es))"
    by (simp add: down_lines_def rev_map comp_def case_prod_beta)
  moreover have "ups = map2 (\<lambda>t cols. create_table_text (trim_space t) cols @ '';'') (map fst es) columns"
    by (simp add: s(1) c(3) comp_def case_prod_beta)
  ultimately show ?thesis using es(2) tables c(1,2,4)
    by (intro exI [of _ "map fst es"] exI [of _ columns]) (simp add: g generated_as_def)
qed

section \<open>Examples\<close>

definition demo_models :: go_file where
  "demo_models =
     \<lparr>gf_imports = [(None, ''time'')],
      gf_types =
        [\<lparr>ts_name = ''User'', ts_struct = Some
            [\<lparr>af_names = [''ID''], af_type = Ident ''int64'', af_tag = Some [(''orm'', ''pk,autoincrement'')]\<rparr>,
             \<lparr>af_names = [''CreatedAt''], af_type = SelectorExpr ''time'' ''Time'', af_tag = None\<rparr>]\<rparr>,
         \<lparr>ts_name = ''AuditLog'', ts_struct = Some
            [\<lparr>af_names = [''Message''], af_type = Ident ''string'', af_tag = Some [(''orm'', ''notnull'')]\<rparr>]\<rparr>]\<rparr>"

definition demo_world :: "nat \<Rightarrow> gen_world" where
  "demo_world b =
     \<lparr>gw_parsed = (\<lambda>path. Inr demo_models), gw_mkdir = None, gw_clock = ''42'',
      gw_rand = (\<lambda>i. Some [10, 0, b mod 256]), gw_denied = (\<lambda>f. False), gw_torn = (\<lambda>f. None)\<rparr>"

definition demo_run :: "nat \<Rightarrow> files \<Rightarrow> (gen_error + generated) \<times> files" where
  "demo_run b files = generate_from_model_files (demo_world b) ''sqlite'' ''Init  Users!'' [''models.go''] files"

definition demo_generated :: "string \<Rightarrow> generated" where
  "demo_generated sfx = generated_as 42 (''init_users_'' @ sfx)
     (script [''CREATE TABLE IF NOT EXISTS audit_log (message TEXT NOT NULL);'',
              ''CREATE TABLE IF NOT EXISTS user (id INTEGER PRIMARY KEY AUTOINCREMENT, created_at TIMESTAMP);''])
     (script [''DROP TABLE IF EXISTS user;'', ''DROP TABLE IF EXISTS audit_log;''])"

lemma demo_runs:
  "fst (demo_run 1 Map.empty) = Inr (demo_generated ''0a0001'')"
  "fst (demo_run 2 (snd (demo_run 1 Map.empty))) = Inr (demo_generated ''0a0002'')"
  by code_simp+

lemma demo_world_ok: "bytes_ok (demo_world b)" "parse_int64 (gw_clock (demo_world b)) = Some (int 42)"
  by (auto simp: bytes_ok_def demo_world_def) code_simp

lemma demo_run_eq:
  "generate_from_model_files (demo_world 1) ''sqlite'' ''Init  Users!'' [''models.go''] Map.empty =
     (Inr (demo_generated ''0a0001''), snd (demo_run 1 Map.empty))"
  "generate_from_model_files (demo_world 2) ''sqlite'' ''Init  Users!'' [''models.go''] (snd (demo_run 1 Map.empty)) =
     (Inr (demo_generated ''0a0002''), snd (demo_run 2 (snd (demo_run 1 Map.empty))))"
  using demo_runs unfolding demo_run_def by (metis prod.collapse)+

theorem generated_migration_loads_example:
  "load ''pg'' (Inr (listed (demo_generated ''0a0001''))) = Inr [loads_as (demo_generated ''0a0001'')]"
  using generated_migration_loads [OF demo_run_eq(1) demo_world_ok] by blast

theorem same_second_loses_migration_example:
  "load ''pg'' (Inr (listed (demo_generated ''0a0001'') @ listed (demo_generated ''0a0002''))) =
     Inr [(loads_as (demo_generated ''0a0002''))\<lparr>mg_name := ''init_users_0a0001''\<rparr>]"
proof -
  have "gw_clock (demo_world 2) = gw_clock (demo_world 1)" by (simp add: demo_world_def)
  from same_second_loses_migration [OF demo_run_eq this demo_world_ok(1,1,2), of "''pg''"]
  show ?thesis by (simp add: demo_generated_def generated_as_def)
qed

theorem generated_scripts_undo_example:
  "\<exists>tables. sorted tables \<and> gn_down_sql (demo_generated ''0a0001'') =
     script (rev (map (\<lambda>t. ''DROP TABLE IF EXISTS '' @ t @ '';'') tables))"
  using generated_scripts_undo [OF demo_run_eq(1)] by blast

end
