(* ===== verification/Auth.thy ===== *)
theory Auth imports Web_Ctx Go_Encoding begin

text \<open>
  Package \<open>auth\<close>, auth.go: HS256 tokens and the guards built on them. The keyed hash of
  \<open>crypto/hmac\<close> and the codecs of \<open>encoding/json\<close> are parameters (the record \<open>jwt_codec\<close>), the clock
  is an argument in seconds, and \<open>seconds\<close> is the conversion of a duration to whole seconds,
  which goes through floating point. OAuth and OIDC (oauth_oidc.go) are in \<open>Auth_Oidc\<close>.
\<close>

record principal =
  pr_id :: string
  pr_email :: string
  pr_roles :: "string list"
  pr_perms :: "string list"

record claims =
  cl_sub :: string
  cl_email :: string
  cl_roles :: "string list"
  cl_perms :: "string list"
  cl_exp :: int
  cl_iat :: int

datatype auth_error =
    SecretRequired
  | InvalidToken
  | ExpiredToken
  | UnsupportedAlg "val option"
  | MarshalFailed string

record jwt_codec =
  jc_hmac :: "string \<Rightarrow> string \<Rightarrow> string"
  jc_marshal_claims :: "claims \<Rightarrow> string + string"
  jc_unmarshal_claims :: "string \<Rightarrow> claims option"
  jc_unmarshal_header :: "string \<Rightarrow> (string \<rightharpoonup> val) option"

definition b64url :: "string \<Rightarrow> string" where
  "b64url data = b64_encode url_alphabet data"

definition b64url_decode :: "string \<Rightarrow> string option" where
  "b64url_decode data = b64_decode url_alphabet data"

definition sign_hs256 :: "jwt_codec \<Rightarrow> string \<Rightarrow> string \<Rightarrow> string" where
  "sign_hs256 jc input secret = b64url (jc_hmac jc secret input)"

text \<open>The JSON text of the header, its keys in order.\<close>

definition header_json :: string where
  "header_json =
     [CHR ''{'', CHR 0x22] @ ''alg'' @ [CHR 0x22, CHR '':'', CHR 0x22] @ ''HS256'' @ [CHR 0x22, CHR '','', CHR 0x22]
     @ ''typ'' @ [CHR 0x22, CHR '':'', CHR 0x22] @ ''JWT'' @ [CHR 0x22, CHR ''}'']"

definition stamped :: "(int \<Rightarrow> int) \<Rightarrow> int \<Rightarrow> claims \<Rightarrow> int \<Rightarrow> claims" where
  "stamped seconds now c ttl =
     (let c = (if cl_iat c = 0 then c\<lparr>cl_iat := now\<rparr> else c)
      in if ttl > 0 then c\<lparr>cl_exp := now + seconds ttl\<rparr> else c)"

definition jwt_sign ::
  "jwt_codec \<Rightarrow> (int \<Rightarrow> int) \<Rightarrow> string \<Rightarrow> int \<Rightarrow> claims \<Rightarrow> int \<Rightarrow> auth_error + string" where
  "jwt_sign jc seconds secret now c ttl =
     (if secret = [] then Inl SecretRequired
      else
        (case jc_marshal_claims jc (stamped seconds now c ttl) of
           Inl e \<Rightarrow> Inl (MarshalFailed e)
         | Inr json \<Rightarrow>
             (let signing_input = b64url header_json @ ''.'' @ b64url json
              in Inr (signing_input @ ''.'' @ sign_hs256 jc signing_input secret))))"

definition jwt_verify :: "jwt_codec \<Rightarrow> string \<Rightarrow> int \<Rightarrow> string \<Rightarrow> auth_error + claims" where
  "jwt_verify jc secret now token =
     (if secret = [] then Inl SecretRequired
      else
        (case split_on (CHR ''.'') token of
           [header, payload, sig] \<Rightarrow>
             (let signing_input = header @ ''.'' @ payload in
              if sig \<noteq> sign_hs256 jc signing_input secret then Inl InvalidToken
              else
                (case Option.bind (b64url_decode header) (jc_unmarshal_header jc) of
                   None \<Rightarrow> Inl InvalidToken
                 | Some h \<Rightarrow>
                     if h ''alg'' \<noteq> Some (VStr ''HS256'') then Inl (UnsupportedAlg (h ''alg''))
                     else
                       (case Option.bind (b64url_decode payload) (jc_unmarshal_claims jc) of
                          None \<Rightarrow> Inl InvalidToken
                        | Some c \<Rightarrow> if cl_exp c > 0 \<and> now > cl_exp c then Inl ExpiredToken else Inr c)))
         | _ \<Rightarrow> Inl InvalidToken))"

section \<open>Guards\<close>

definition user_context_key :: string where "user_context_key = ''auth.principal''"

definition principal_any :: "principal \<Rightarrow> any" where
  "principal_any p = AnyStruct ''auth.Principal''
     [(''ID'', VStr (pr_id p)), (''Email'', VStr (pr_email p)),
      (''Roles'', VList (map VStr (pr_roles p))), (''Perms'', VList (map VStr (pr_perms p)))]"

fun string_items :: "val list \<Rightarrow> string list option" where
  "string_items [] = Some []"
| "string_items (VStr s # vs) = map_option (Cons s) (string_items vs)"
| "string_items (_ # vs) = None"

text \<open>The type assertion of \<open>FromCtx\<close>.\<close>

fun as_principal :: "any \<Rightarrow> principal option" where
  "as_principal (AnyStruct name [(f1, VStr i), (f2, VStr m), (f3, VList rs), (f4, VList ps)]) =
     (if name = ''auth.Principal'' \<and> [f1, f2, f3, f4] = [''ID'', ''Email'', ''Roles'', ''Perms'']
      then (case (string_items rs, string_items ps) of
              (Some roles, Some perms) \<Rightarrow> Some \<lparr>pr_id = i, pr_email = m, pr_roles = roles, pr_perms = perms\<rparr>
            | _ \<Rightarrow> None)
      else None)"
| "as_principal _ = None"

definition from_ctx :: "ctx \<Rightarrow> principal option" where
  "from_ctx c = Option.bind (ctx_get c user_context_key) as_principal"

definition bearer :: string where "bearer = ''Bearer ''"

lemma length_bearer: "length bearer = 7"
  by (simp add: bearer_def)

definition claims_principal :: "claims \<Rightarrow> principal" where
  "claims_principal c = \<lparr>pr_id = cl_sub c, pr_email = cl_email c, pr_roles = cl_roles c, pr_perms = cl_perms c\<rparr>"

text \<open>A manager is its secret, nil is \<open>None\<close>.\<close>

definition auth :: "jwt_codec \<Rightarrow> string option \<Rightarrow> int \<Rightarrow> 'w middleware" where
  "auth jc manager now next c s =
     (case manager of
        None \<Rightarrow> (Returned (Some (err_unauthorized ''auth manager is not configured'')), c, s)
      | Some secret \<Rightarrow>
          (let header = ctx_header c ''Authorization'' in
           if \<not> prefix bearer header
           then (Returned (Some (err_unauthorized ''missing bearer token'')), c, s)
           else
             (case jwt_verify jc secret now (trim_space (drop (length bearer) header)) of
                Inl e \<Rightarrow> (Returned (Some (err_unauthorized ''invalid token'')), c, s)
              | Inr cl \<Rightarrow> next (ctx_set user_context_key (principal_any (claims_principal cl)) c) s)))"

fun contains :: "string list \<Rightarrow> string \<Rightarrow> bool" where
  "contains [] target = False"
| "contains (item # items) target = (if item = target then True else contains items target)"

lemma contains_mem [simp]: "contains items target \<longleftrightarrow> target \<in> set items"
  by (induction items) auto

definition require_role :: "string \<Rightarrow> 'w middleware" where
  "require_role role next c s =
     (case from_ctx c of
        None \<Rightarrow> (Returned (Some (err_unauthorized ''authentication required'')), c, s)
      | Some p \<Rightarrow>
          if \<not> contains (pr_roles p) role
          then (Returned (Some (err_forbidden ''required role missing'')), c, s)
          else next c s)"

definition require_perm :: "string \<Rightarrow> 'w middleware" where
  "require_perm perm next c s =
     (case from_ctx c of
        None \<Rightarrow> (Returned (Some (err_unauthorized ''authentication required'')), c, s)
      | Some p \<Rightarrow>
          if \<not> contains (pr_perms p) perm
          then (Returned (Some (err_forbidden ''required permission missing'')), c, s)
          else next c s)"

section \<open>Tokens\<close>

lemma b64url_no_dot: "CHR ''.'' \<notin> set (b64url s)"
proof
  assume "CHR ''.'' \<in> set (b64url s)"
  then have "CHR ''.'' \<in> set url_alphabet"
    unfolding b64url_def by (rule b64_encode_chars [OF std_url_good(2)])
  moreover have "CHR ''.'' \<notin> set url_alphabet" by code_simp
  ultimately show False by simp
qed

lemma b64url_round_trip [simp]: "b64url_decode (b64url s) = Some s"
  by (simp add: b64url_decode_def b64url_def b64_round_trip std_url_good)

lemma token_parts:
  "split_on (CHR ''.'') ((b64url h @ ''.'' @ b64url p) @ ''.'' @ b64url s) = [b64url h, b64url p, b64url s]"
  using split_on_append [OF b64url_no_dot] split_on_clean [OF b64url_no_dot] by simp

text \<open>What \<open>encoding/json\<close> promises of the two types: encoding and decoding again is the identity.\<close>

definition codec_ok :: "jwt_codec \<Rightarrow> bool" where
  "codec_ok jc \<longleftrightarrow>
     (\<forall>c json. jc_marshal_claims jc c = Inr json \<longrightarrow> jc_unmarshal_claims jc json = Some c) \<and>
     (\<exists>h. jc_unmarshal_header jc header_json = Some h \<and> h ''alg'' = Some (VStr ''HS256''))"

lemma sign_verify:
  assumes "codec_ok jc" "jwt_sign jc seconds secret now c ttl = Inr token"
  shows "jwt_verify jc secret later token =
    (let c' = stamped seconds now c ttl
     in if cl_exp c' > 0 \<and> later > cl_exp c' then Inl ExpiredToken else Inr c')"
proof -
  let ?c = "stamped seconds now c ttl"
  from assms(2) obtain json where json: "secret \<noteq> []" "jc_marshal_claims jc ?c = Inr json"
      "token = (b64url header_json @ ''.'' @ b64url json) @ ''.'' @ sign_hs256 jc (b64url header_json @ ''.'' @ b64url json) secret"
    by (auto simp: jwt_sign_def Let_def split: if_splits sum.splits)
  from assms(1) json(2) have "jc_unmarshal_claims jc json = Some ?c" by (simp add: codec_ok_def)
  moreover from assms(1) obtain h where "jc_unmarshal_header jc header_json = Some h" "h ''alg'' = Some (VStr ''HS256'')"
    by (auto simp: codec_ok_def)
  moreover have "split_on (CHR ''.'') token
      = [b64url header_json, b64url json, sign_hs256 jc (b64url header_json @ ''.'' @ b64url json) secret]"
    unfolding json(3) sign_hs256_def by (rule token_parts)
  ultimately show ?thesis using json(1) by (simp add: jwt_verify_def Let_def)
qed


definition demo_codec :: jwt_codec where
  "demo_codec = \<lparr>jc_hmac = (\<lambda>k s. k @ s),
     jc_marshal_claims = (\<lambda>c. if c = \<lparr>cl_sub = ''u1'', cl_email = [], cl_roles = [''admin''], cl_perms = [], cl_exp = 160, cl_iat = 100\<rparr>
                               then Inr ''u1'' else Inl ''unknown''),
     jc_unmarshal_claims = (\<lambda>s. if s = ''u1'' then Some
        \<lparr>cl_sub = ''u1'', cl_email = [], cl_roles = [''admin''], cl_perms = [], cl_exp = 160, cl_iat = 100\<rparr> else None),
     jc_unmarshal_header = (\<lambda>s. if s = header_json then Some [''alg'' \<mapsto> VStr ''HS256''] else None)\<rparr>"

definition demo_claims :: claims where
  "demo_claims = \<lparr>cl_sub = ''u1'', cl_email = [], cl_roles = [''admin''], cl_perms = [], cl_exp = 0, cl_iat = 0\<rparr>"

definition demo_token :: string where
  "demo_token = (case jwt_sign demo_codec (\<lambda>ns. ns div 1000000000) ''k'' 100 demo_claims 60000000000 of Inr t \<Rightarrow> t | Inl e \<Rightarrow> [])"

lemma demo_codec_ok: "codec_ok demo_codec"
  by (auto simp: codec_ok_def demo_codec_def split: if_splits)

lemma demo_token_signed:
  "jwt_sign demo_codec (\<lambda>ns. ns div 1000000000) ''k'' 100 demo_claims 60000000000 = Inr demo_token"
  by (simp add: demo_token_def jwt_sign_def demo_codec_def stamped_def demo_claims_def Let_def)


text \<open>
  C8. Only signed tokens are accepted: an accepted token has three parts, the last of which
  is the keyed hash of the first two under the (not empty) secret, its header says HS256,
  the claims are those of its payload, and they have not expired.
\<close>

theorem accepted_token_is_signed:
  assumes "jwt_verify jc secret now token = Inr c"
  shows "\<exists>header payload. token = header @ ''.'' @ payload @ ''.'' @ sign_hs256 jc (header @ ''.'' @ payload) secret \<and>
    secret \<noteq> [] \<and>
    (\<exists>h. Option.bind (b64url_decode header) (jc_unmarshal_header jc) = Some h \<and> h ''alg'' = Some (VStr ''HS256'')) \<and>
    Option.bind (b64url_decode payload) (jc_unmarshal_claims jc) = Some c \<and>
    (cl_exp c \<le> 0 \<or> now \<le> cl_exp c)"
proof -
  have ne: "secret \<noteq> []" using assms by (auto simp: jwt_verify_def)
  have "length (split_on (CHR ''.'') token) = 3"
    using assms ne by (auto simp: jwt_verify_def split: list.splits)
  then obtain header payload sig where split: "split_on (CHR ''.'') token = [header, payload, sig]"
    by (auto simp: length_Suc_conv eval_nat_numeral)
  with assms ne have "sig = sign_hs256 jc (header @ ''.'' @ payload) secret"
    by (auto simp: jwt_verify_def Let_def split: if_splits)
  with assms ne split obtain h where parts: "secret \<noteq> []"
      "split_on (CHR ''.'') token = [header, payload, sign_hs256 jc (header @ ''.'' @ payload) secret]"
      "Option.bind (b64url_decode header) (jc_unmarshal_header jc) = Some h" "h ''alg'' = Some (VStr ''HS256'')"
      "Option.bind (b64url_decode payload) (jc_unmarshal_claims jc) = Some c" "cl_exp c \<le> 0 \<or> now \<le> cl_exp c"
    by (auto simp: jwt_verify_def Let_def split: if_splits option.splits)
  have "token = join ''.'' [header, payload, sign_hs256 jc (header @ ''.'' @ payload) secret]"
    using join_split_on [of "CHR ''.''" token] parts(2) by simp
  with parts show ?thesis by auto
qed

theorem accepted_token_is_signed_example:
  "cl_exp (demo_claims\<lparr>cl_exp := 160, cl_iat := 100\<rparr>) \<le> 0 \<or> 150 \<le> cl_exp (demo_claims\<lparr>cl_exp := 160, cl_iat := 100\<rparr>)"
proof -
  have "jwt_verify demo_codec ''k'' 150 demo_token = Inr (demo_claims\<lparr>cl_exp := 160, cl_iat := 100\<rparr>)"
    using sign_verify [OF demo_codec_ok demo_token_signed, of 150]
    by (simp add: stamped_def demo_claims_def Let_def)
  from accepted_token_is_signed [OF this] show ?thesis by blast
qed

section \<open>Guarded handlers\<close>

lemma string_items_map [simp]: "string_items (map VStr ss) = Some ss"
  by (induction ss) simp_all

lemma from_ctx_principal [simp]: "from_ctx (ctx_set user_context_key (principal_any p) c) = Some p"
  by (simp add: from_ctx_def principal_any_def)

text \<open>
  Behind \<open>Auth\<close> and \<open>RequireRole\<close> the handler runs only for a request whose bearer token
  verifies and whose claims list the role, and it then sees those claims; every other request
  is refused with 401 or 403 and nothing below the guards runs. \<open>RequirePerm\<close> is the same
  for permissions.
\<close>

theorem guarded_handler:
  "chain h [auth jc manager now, require_role role, require_perm perm] c s =
    (case manager of
       None \<Rightarrow> (Returned (Some (err_unauthorized ''auth manager is not configured'')), c, s)
     | Some secret \<Rightarrow>
         if \<not> prefix bearer (ctx_header c ''Authorization'')
         then (Returned (Some (err_unauthorized ''missing bearer token'')), c, s)
         else
           (case jwt_verify jc secret now (trim_space (drop 7 (ctx_header c ''Authorization''))) of
              Inl e \<Rightarrow> (Returned (Some (err_unauthorized ''invalid token'')), c, s)
            | Inr cl \<Rightarrow>
                (let c' = ctx_set user_context_key (principal_any (claims_principal cl)) c in
                 if role \<notin> set (cl_roles cl) then (Returned (Some (err_forbidden ''required role missing'')), c', s)
                 else if perm \<notin> set (cl_perms cl)
                 then (Returned (Some (err_forbidden ''required permission missing'')), c', s)
                 else h c' s)))"
proof (cases manager)
  case None
  then show ?thesis by (simp add: auth_def)
next
  case (Some secret)
  then show ?thesis
    by (cases "jwt_verify jc secret now (trim_space (drop 7 (ctx_header c ''Authorization'')))")
      (simp_all add: auth_def require_role_def require_perm_def Let_def claims_principal_def length_bearer)
qed

end
