(* ===== verification/Go_Url.thy ===== *)
theory Go_Url imports Go_Encoding begin

text \<open>
  The escapes of \<open>net/url\<close> the program uses: \<open>QueryEscape\<close> (where a blank becomes a plus),
  \<open>PathEscape\<close>, \<open>Values.Encode\<close>, and the decodings that belong to them.
\<close>

section \<open>Escaping\<close>

definition unreserved :: "char \<Rightarrow> bool" where
  "unreserved c \<longleftrightarrow> (CHR ''a'' \<le> c \<and> c \<le> CHR ''z'') \<or> (CHR ''A'' \<le> c \<and> c \<le> CHR ''Z'') \<or> is_digit c \<or>
     c \<in> set ''-_.~''"

definition upper_hex :: string where "upper_hex = ''0123456789ABCDEF''"

definition percent :: "char \<Rightarrow> string" where
  "percent c = [CHR ''%'', upper_hex ! (byte_val c div 16), upper_hex ! (byte_val c mod 16)]"

definition query_char :: "char \<Rightarrow> string" where
  "query_char c = (if unreserved c then [c] else if c = CHR '' '' then ''+'' else percent c)"

definition query_escape :: "string \<Rightarrow> string" where
  "query_escape s = concat (map query_char s)"

text \<open>A path segment keeps \<open>$&+:=@\<close> as well.\<close>

definition path_escape :: "string \<Rightarrow> string" where
  "path_escape s = concat (map (\<lambda>c. if unreserved c \<or> c \<in> set ''$&+:=@'' then [c] else percent c) s)"

text \<open>\<open>Values.Encode\<close> of values that were \<open>Set\<close>: one per key, in the order of the keys.\<close>

definition values_encode :: "(string \<times> string) list \<Rightarrow> string" where
  "values_encode m = join ''&'' (map (\<lambda>(k, v). query_escape k @ ''='' @ query_escape v) (sort_key fst m))"

section \<open>Decoding\<close>

definition hex_value :: "char \<Rightarrow> nat option" where
  "hex_value c = map_of (zip (upper_hex @ ''abcdef'') ([0..<16] @ [10..<16])) c"

text \<open>The argument says whether a plus is a blank, as in a query.\<close>

fun unescape :: "bool \<Rightarrow> string \<Rightarrow> string option" where
  "unescape blanks [] = Some []"
| "unescape blanks (c # cs) =
     (if c = CHR ''%'' then
        (case cs of
           a # b # rest \<Rightarrow>
             (case (hex_value a, hex_value b) of
                (Some x, Some y) \<Rightarrow> map_option (Cons (char_of (16 * x + y))) (unescape blanks rest)
              | _ \<Rightarrow> None)
         | _ \<Rightarrow> None)
      else map_option (Cons (if blanks \<and> c = CHR ''+'' then CHR '' '' else c)) (unescape blanks cs))"

lemma hex_value_upper: "n < 16 \<Longrightarrow> hex_value (upper_hex ! n) = Some n"
proof -
  have "\<forall>n\<in>set [0..<16]. hex_value (upper_hex ! n) = Some n" by code_simp
  then show "n < 16 \<Longrightarrow> hex_value (upper_hex ! n) = Some n" by simp
qed

lemma byte_digits: "byte_val c div 16 < 16" "byte_val c mod 16 < 16"
  by (rule less_mult_imp_div_less) simp_all

lemma unescape_percent: "unescape blanks (percent c @ s) = map_option (Cons c) (unescape blanks s)"
proof -
  have "char_of (16 * (byte_val c div 16) + byte_val c mod 16) = c" by (simp add: byte_val_def)
  then show ?thesis by (simp add: percent_def hex_value_upper byte_digits)
qed

lemma unreserved_marks [simp]: "unreserved c \<Longrightarrow> c \<noteq> CHR ''%''" "unreserved c \<Longrightarrow> c \<noteq> CHR ''+''"
  "\<not> unreserved (CHR '' '')"
  by (auto simp: unreserved_def is_digit_nat less_eq_char_def)

text \<open>What the two decodings make of an escaped query component.\<close>

lemma unescape_query: "unescape True (query_escape s) = Some s"
  by (induction s) (auto simp: query_escape_def query_char_def unescape_percent)

lemma unescape_query_plain:
  "unescape False (query_escape s) = Some (map (\<lambda>c. if c = CHR '' '' then CHR ''+'' else c) s)"
  by (induction s) (auto simp: query_escape_def query_char_def unescape_percent)

lemma unescape_path: "unescape False (path_escape s) = Some s"
  by (induction s) (auto simp: path_escape_def unescape_percent)

lemma upper_hex_char: "n < 16 \<Longrightarrow> upper_hex ! n \<in> set upper_hex"
  by (rule nth_mem) (simp add: upper_hex_def)

definition escape_char :: "char \<Rightarrow> bool" where
  "escape_char c \<longleftrightarrow> unreserved c \<or> c \<in> set ''%+''"

lemma percent_chars: "x \<in> set (percent c) \<Longrightarrow> x = CHR ''%'' \<or> unreserved x"
proof -
  have "list_all unreserved upper_hex" by code_simp
  then have "unreserved (upper_hex ! (byte_val c div 16))" "unreserved (upper_hex ! (byte_val c mod 16))"
    using upper_hex_char byte_digits by (auto simp: list_all_iff)
  then show "x \<in> set (percent c) \<Longrightarrow> x = CHR ''%'' \<or> unreserved x" by (auto simp: percent_def)
qed

lemma query_escape_chars: "c \<in> set (query_escape s) \<Longrightarrow> escape_char c"
  by (auto simp: query_escape_def query_char_def escape_char_def dest: percent_chars split: if_splits)

lemma path_escape_chars: "c \<in> set (path_escape s) \<Longrightarrow> unreserved c \<or> c \<in> set ''%$&+:=@''"
  by (auto simp: path_escape_def dest: percent_chars split: if_splits)

lemma escape_char_marks: "escape_char c \<Longrightarrow> c \<notin> set '':@/?#&=''"
  by (auto simp: escape_char_def unreserved_def is_digit_nat less_eq_char_def)

lemma query_escape_clean: "d \<in> set '':@/?#&='' \<Longrightarrow> d \<notin> set (query_escape s)"
  using query_escape_chars escape_char_marks by blast

section \<open>Forms\<close>

text \<open>The reader of a form: pairs between ampersands, cut at the first equals sign.\<close>

definition read_pair :: "string \<Rightarrow> (string \<times> string) option" where
  "read_pair p =
     (case cut_at (CHR ''='') p of
        (k, v, found) \<Rightarrow>
          (case (unescape True k, unescape True v) of (Some a, Some b) \<Rightarrow> Some (a, b) | _ \<Rightarrow> None))"

definition read_form :: "string \<Rightarrow> (string \<times> string) option list" where
  "read_form s = (if s = [] then [] else map read_pair (split_on (CHR ''&'') s))"

lemma read_pair_escaped: "read_pair (query_escape k @ ''='' @ query_escape v) = Some (k, v)"
  using cut_at_found [of "CHR ''=''" "query_escape k" "query_escape v"] query_escape_clean [of "CHR ''=''" k]
  by (simp add: read_pair_def unescape_query)

lemma read_form_encode: "read_form (values_encode m) = map Some (sort_key fst m)"
proof (cases "m = []")
  case True
  then show ?thesis by (simp add: read_form_def values_encode_def)
next
  case False
  let ?f = "\<lambda>(k, v). query_escape k @ ''='' @ query_escape v"
  have "CHR ''&'' \<notin> set (?f p)" for p
    using query_escape_clean [of "CHR ''&''"] by (cases p) simp
  then have s: "split_on (CHR ''&'') (values_encode m) = map ?f (sort_key fst m)"
    using False unfolding values_encode_def by (intro split_on_join) auto
  have "sort_key fst m \<noteq> []" using False by simp
  then obtain p ps where "sort_key fst m = p # ps" by (meson neq_Nil_conv)
  then have "values_encode m \<noteq> []" by (cases p) (simp add: values_encode_def join_Cons)
  moreover have "read_pair (?f p) = Some p" for p
    using read_pair_escaped [of "fst p" "snd p"] by (simp add: case_prod_beta)
  ultimately show ?thesis by (simp add: read_form_def s comp_def)
qed

end
