(* ===== verification/Go_Json.thy ===== *)
theory Go_Json imports Go_Prelude begin

text \<open>
  Values of \<open>encoding/json\<close> decoded into \<open>any\<close>: numbers are floating point, of an arbitrary type
  \<open>'f\<close>; an object is its entries, keys distinct.
\<close>

datatype 'f json =
    JNull
  | JBool bool
  | JNum 'f
  | JInt int
  | JStr string
  | JArr "'f json list"
  | JObj "(string \<times> 'f json) list"

type_synonym 'f json_map = "(string \<times> 'f json) list"

end
