(* ===== verification/Auth_Oidc.thy ===== *)
theory Auth_Oidc imports Auth Go_Url Go_Json begin

text \<open>
  Package \<open>auth\<close>, oauth_oidc.go. The HTTP client is the interface of the source, a function on
  an arbitrary state \<open>'s\<close>; the JSON decoder, the URL parser and printer and the truncation of a
  floating-point number (of type \<open>'f\<close>) are arguments.
\<close>

section \<open>Data\<close>

record oauth_config =
  oa_client_id :: string
  oa_client_secret :: string
  oa_redirect_url :: string
  oa_scopes :: "string list"
  oa_auth_url :: string
  oa_token_url :: string
  oa_user_info_url :: string

record oauth_token =
  ot_access_token :: string
  ot_token_type :: string
  ot_refresh_token :: string
  ot_id_token :: string
  ot_expires_in :: int
  ot_scope :: string

record http_request =
  hr_method :: string
  hr_url :: string
  hr_header :: "(string \<times> string) list"
  hr_body :: string

record http_response =
  hs_status :: int
  hs_body :: string

record 's http_client =
  hc_new_request :: "string \<Rightarrow> string option"
  hc_do :: "http_request \<Rightarrow> 's \<Rightarrow> (string + http_response) \<times> 's"

datatype oauth_error =
    AuthUrlRequired
  | TokenUrlRequired
  | UserInfoUrlMissing
  | BadUrl string
  | HttpFailed string
  | BadStatus int string
  | BadJson string
  | MissingAccessToken
  | IncompleteDiscovery
  | IdTokenInvalid
  | IssuerMismatch
  | AudienceMismatch
  | IdTokenExpired

section \<open>Authorization requests\<close>

text \<open>\<open>url.Values\<close> and its \<open>Set\<close>; \<open>Encode\<close> writes the keys in order, each with all its values.\<close>

type_synonym url_values = "(string \<times> string list) list"

fun values_set :: "string \<Rightarrow> string \<Rightarrow> url_values \<Rightarrow> url_values" where
  "values_set k v [] = [(k, [v])]"
| "values_set k v ((k', vs) # q) = (if k' = k then (k, [v]) # q else (k', vs) # values_set k v q)"

definition flat_values :: "url_values \<Rightarrow> (string \<times> string) list" where
  "flat_values q = concat (map (\<lambda>(k, vs). map (Pair k) vs) (sort_key fst q))"

definition encode_values :: "url_values \<Rightarrow> string" where
  "encode_values q = join ''&'' (map (\<lambda>(k, v). query_escape k @ ''='' @ query_escape v) (flat_values q))"

text \<open>A parsed URL: what is in front of its query, the query, and how both print.\<close>

record url_reader =
  ur_parse :: "string \<Rightarrow> string + string \<times> url_values"
  ur_string :: "string \<Rightarrow> string \<Rightarrow> string"

fun set_extra :: "(string \<times> string) list \<Rightarrow> url_values \<Rightarrow> url_values" where
  "set_extra [] q = q"
| "set_extra ((k, v) # extra) q = (if trim_space k = [] then set_extra extra q else set_extra extra (values_set k v q))"

definition auth_query :: "oauth_config \<Rightarrow> string \<Rightarrow> (string \<times> string) list \<Rightarrow> url_values \<Rightarrow> url_values" where
  "auth_query cfg state extra q =
     (let q = values_set ''response_type'' ''code'' q;
          q = values_set ''client_id'' (oa_client_id cfg) q;
          q = values_set ''redirect_uri'' (oa_redirect_url cfg) q;
          q = (if state \<noteq> [] then values_set ''state'' state q else q);
          q = (if oa_scopes cfg \<noteq> [] then values_set ''scope'' (join '' '' (oa_scopes cfg)) q else q)
      in set_extra extra q)"

definition auth_code_url ::
  "url_reader \<Rightarrow> oauth_config \<Rightarrow> string \<Rightarrow> (string \<times> string) list \<Rightarrow> oauth_error + string" where
  "auth_code_url ur cfg state extra =
     (if oa_auth_url cfg = [] then Inl AuthUrlRequired
      else
        (case ur_parse ur (oa_auth_url cfg) of
           Inl e \<Rightarrow> Inl (BadUrl e)
         | Inr (base, q) \<Rightarrow> Inr (ur_string ur base (encode_values (auth_query cfg state extra q)))))"

section \<open>Requests\<close>

definition ok_status :: "int \<Rightarrow> bool" where
  "ok_status code \<longleftrightarrow> 200 \<le> code \<and> code < 300"

text \<open>The request is built and sent; every caller then looks at the status.\<close>

definition send :: "'s http_client \<Rightarrow> http_request \<Rightarrow> 's \<Rightarrow> (oauth_error + http_response) \<times> 's" where
  "send hc r s =
     (case hc_new_request hc (hr_url r) of
        Some e \<Rightarrow> (Inl (BadUrl e), s)
      | None \<Rightarrow>
          (case hc_do hc r s of
             (Inl e, s') \<Rightarrow> (Inl (HttpFailed e), s')
           | (Inr resp, s') \<Rightarrow> (Inr resp, s')))"

definition token_request :: "oauth_config \<Rightarrow> string \<Rightarrow> http_request" where
  "token_request cfg code =
     \<lparr>hr_method = ''POST'', hr_url = oa_token_url cfg,
      hr_header = [(''Content-Type'', ''application/x-www-form-urlencoded'')],
      hr_body = values_encode
        [(''grant_type'', ''authorization_code''), (''code'', code), (''redirect_uri'', oa_redirect_url cfg),
         (''client_id'', oa_client_id cfg), (''client_secret'', oa_client_secret cfg)]\<rparr>"

definition exchange_code ::
  "'s http_client \<Rightarrow> (string \<Rightarrow> string + oauth_token) \<Rightarrow> oauth_config \<Rightarrow> string \<Rightarrow> 's \<Rightarrow>
   (oauth_error + oauth_token) \<times> 's" where
  "exchange_code hc decode cfg code s =
     (if oa_token_url cfg = [] then (Inl TokenUrlRequired, s)
      else
        (case send hc (token_request cfg code) s of
           (Inl e, s') \<Rightarrow> (Inl e, s')
         | (Inr resp, s') \<Rightarrow>
             if \<not> ok_status (hs_status resp)
             then (Inl (BadStatus (hs_status resp) (trim_space (take 1024 (hs_body resp)))), s')
             else
               (case decode (hs_body resp) of
                  Inl e \<Rightarrow> (Inl (BadJson e), s')
                | Inr token \<Rightarrow>
                    if ot_access_token token = [] then (Inl MissingAccessToken, s') else (Inr token, s'))))"

definition fetch_user_info ::
  "'s http_client \<Rightarrow> (string \<Rightarrow> string + 'f json_map) \<Rightarrow> oauth_config \<Rightarrow> string \<Rightarrow> 's \<Rightarrow>
   (oauth_error + 'f json_map) \<times> 's" where
  "fetch_user_info hc decode cfg access_token s =
     (if oa_user_info_url cfg = [] then (Inl UserInfoUrlMissing, s)
      else
        (case send hc \<lparr>hr_method = ''GET'', hr_url = oa_user_info_url cfg,
                       hr_header = [(''Authorization'', ''Bearer '' @ access_token)], hr_body = []\<rparr> s of
           (Inl e, s') \<Rightarrow> (Inl e, s')
         | (Inr resp, s') \<Rightarrow>
             if \<not> ok_status (hs_status resp)
             then (Inl (BadStatus (hs_status resp) (trim_space (take 1024 (hs_body resp)))), s')
             else (case decode (hs_body resp) of Inl e \<Rightarrow> (Inl (BadJson e), s') | Inr m \<Rightarrow> (Inr m, s'))))"

section \<open>OpenID Connect\<close>

record discovery_doc =
  dd_issuer :: string
  dd_authorization :: string
  dd_token :: string
  dd_user_info :: string
  dd_jwks_uri :: string
  dd_algs :: "string list"

record oidc_provider =
  op_issuer :: string
  op_oauth :: oauth_config
  op_jwks :: string

definition discovery_url :: "string \<Rightarrow> string" where
  "discovery_url issuer =
     rev (dropWhile (\<lambda>c. c = CHR ''/'') (rev issuer)) @ ''/.well-known/openid-configuration''"

definition discover_oidc ::
  "'s http_client \<Rightarrow> (string \<Rightarrow> string + discovery_doc) \<Rightarrow> string \<Rightarrow> 's \<Rightarrow> (oauth_error + discovery_doc) \<times> 's" where
  "discover_oidc hc decode issuer s =
     (case send hc \<lparr>hr_method = ''GET'', hr_url = discovery_url issuer, hr_header = [], hr_body = []\<rparr> s of
        (Inl e, s') \<Rightarrow> (Inl e, s')
      | (Inr resp, s') \<Rightarrow>
          if \<not> ok_status (hs_status resp) then (Inl (BadStatus (hs_status resp) []), s')
          else
            (case decode (hs_body resp) of
               Inl e \<Rightarrow> (Inl (BadJson e), s')
             | Inr doc \<Rightarrow>
                 if dd_issuer doc = [] \<or> dd_authorization doc = [] \<or> dd_token doc = []
                 then (Inl IncompleteDiscovery, s')
                 else (Inr doc, s')))"

definition new_oidc_provider :: "discovery_doc \<Rightarrow> oauth_config \<Rightarrow> oidc_provider" where
  "new_oidc_provider doc cfg =
     \<lparr>op_issuer = dd_issuer doc,
      op_oauth = cfg\<lparr>oa_auth_url := dd_authorization doc, oa_token_url := dd_token doc,
                     oa_user_info_url := dd_user_info doc\<rparr>,
      op_jwks = dd_jwks_uri doc\<rparr>"

definition oidc_auth_code_url :: "url_reader \<Rightarrow> oidc_provider \<Rightarrow> string \<Rightarrow> string \<Rightarrow> oauth_error + string" where
  "oidc_auth_code_url ur p state nonce =
     auth_code_url ur (op_oauth p) state (if nonce \<noteq> [] then [(''nonce'', nonce)] else [])"

text \<open>The provider exchanges and asks as its OAuth configuration does, with the endpoints of the document.\<close>

definition oidc_exchange_code ::
  "'s http_client \<Rightarrow> (string \<Rightarrow> string + oauth_token) \<Rightarrow> oidc_provider \<Rightarrow> string \<Rightarrow> 's \<Rightarrow>
   (oauth_error + oauth_token) \<times> 's" where
  "oidc_exchange_code hc decode p code s = exchange_code hc decode (op_oauth p) code s"

definition oidc_fetch_user_info ::
  "'s http_client \<Rightarrow> (string \<Rightarrow> string + 'f json_map) \<Rightarrow> oidc_provider \<Rightarrow> string \<Rightarrow> 's \<Rightarrow>
   (oauth_error + 'f json_map) \<times> 's" where
  "oidc_fetch_user_info hc decode p access_token s = fetch_user_info hc decode (op_oauth p) access_token s"

definition json_string :: "'f json option \<Rightarrow> string" where
  "json_string v = (case v of Some (JStr s) \<Rightarrow> s | _ \<Rightarrow> [])"

definition audience_contains :: "'f json option \<Rightarrow> string \<Rightarrow> bool" where
  "audience_contains raw audience =
     (case raw of
        Some (JStr s) \<Rightarrow> s = audience
      | Some (JArr vs) \<Rightarrow> list_ex (\<lambda>v. case v of JStr s \<Rightarrow> s = audience | _ \<Rightarrow> False) vs
      | _ \<Rightarrow> False)"

definition json_int64 :: "('f \<Rightarrow> int) \<Rightarrow> 'f json option \<Rightarrow> int option" where
  "json_int64 to_int v = (case v of Some (JNum x) \<Rightarrow> Some (to_int x) | Some (JInt i) \<Rightarrow> Some i | _ \<Rightarrow> None)"

definition parse_id_token_claims ::
  "(string \<Rightarrow> 'f json_map option) \<Rightarrow> ('f \<Rightarrow> int) \<Rightarrow> oidc_provider \<Rightarrow> int \<Rightarrow> string \<Rightarrow> string \<Rightarrow>
   oauth_error + 'f json_map" where
  "parse_id_token_claims decode to_int p now id_token expected_audience =
     (case split_on (CHR ''.'') id_token of
        [header, payload, sig] \<Rightarrow>
          (case Option.bind (b64url_decode payload) decode of
             None \<Rightarrow> Inl IdTokenInvalid
           | Some claims \<Rightarrow>
               if op_issuer p \<noteq> [] \<and> json_string (map_of claims ''iss'') \<noteq> op_issuer p then Inl IssuerMismatch
               else if expected_audience \<noteq> [] \<and> \<not> audience_contains (map_of claims ''aud'') expected_audience
               then Inl AudienceMismatch
               else
                 (case json_int64 to_int (map_of claims ''exp'') of
                    Some exp \<Rightarrow> if now > exp then Inl IdTokenExpired else Inr claims
                  | None \<Rightarrow> Inr claims))
      | _ \<Rightarrow> Inl IdTokenInvalid)"

section \<open>What the requests carry\<close>

lemma values_set_get: "map_of (values_set k v q) k' = (if k' = k then Some [v] else map_of q k')"
  by (induction q) auto

lemma set_extra_get:
  "k \<notin> fst ` set extra \<Longrightarrow> map_of (set_extra extra q) k = map_of q k"
  by (induction extra arbitrary: q) (auto simp: values_set_get)

lemma read_form_escaped:
  "read_form (join ''&'' (map (\<lambda>(k, v). query_escape k @ ''='' @ query_escape v) kvs)) = map Some kvs"
proof (cases "kvs = []")
  case True
  then show ?thesis by (simp add: read_form_def)
next
  case False
  let ?f = "\<lambda>(k, v). query_escape k @ ''='' @ query_escape v"
  have "CHR ''&'' \<notin> set (?f p)" for p
    using query_escape_clean [of "CHR ''&''"] by (cases p) simp
  then have "split_on (CHR ''&'') (join ''&'' (map ?f kvs)) = map ?f kvs"
    using False by (intro split_on_join) auto
  moreover have "join ''&'' (map ?f kvs) \<noteq> []" using False by (cases kvs) (auto simp: join_Cons)
  moreover have "read_pair (?f p) = Some p" for p
    using read_pair_escaped [of "fst p" "snd p"] by (simp add: case_prod_beta)
  ultimately show ?thesis by (simp add: read_form_def comp_def)
qed

lemma read_encode_values: "read_form (encode_values q) = map Some (flat_values q)"
  unfolding encode_values_def by (rule read_form_escaped)

text \<open>
  An authorization URL carries what was configured, whatever the provider's own URL has in
  its query: read back as a form, the query is the flattened values, in which the code flow, the
  client, the redirect target and the state are single values that nothing overrides, and the
  nonce is there when it was given.
\<close>

theorem authorization_url_parameters:
  assumes "oidc_auth_code_url ur p state nonce = Inr u" "state \<noteq> []"
  shows "\<exists>base q0 q. ur_parse ur (oa_auth_url (op_oauth p)) = Inr (base, q0) \<and>
    u = ur_string ur base (encode_values q) \<and> read_form (encode_values q) = map Some (flat_values q) \<and>
    map_of q ''response_type'' = Some [''code''] \<and> map_of q ''client_id'' = Some [oa_client_id (op_oauth p)] \<and>
    map_of q ''redirect_uri'' = Some [oa_redirect_url (op_oauth p)] \<and> map_of q ''state'' = Some [state] \<and>
    map_of q ''nonce'' = (if nonce = [] then map_of q0 ''nonce'' else Some [nonce])"
proof -
  let ?extra = "if nonce \<noteq> [] then [(''nonce'', nonce)] else []"
  obtain base q0 where u: "ur_parse ur (oa_auth_url (op_oauth p)) = Inr (base, q0)"
    "u = ur_string ur base (encode_values (auth_query (op_oauth p) state ?extra q0))"
    using assms(1) by (auto simp: oidc_auth_code_url_def auth_code_url_def split: if_splits sum.splits prod.splits)
  have t: "trim_space ''nonce'' = ''nonce''" by code_simp
  have "map_of (auth_query (op_oauth p) state ?extra q0) ''nonce'' =
      (if nonce = [] then map_of q0 ''nonce'' else Some [nonce])"
    by (simp add: auth_query_def Let_def values_set_get t)
  moreover have "map_of (auth_query (op_oauth p) state ?extra q0) ''response_type'' = Some [''code'']"
    "map_of (auth_query (op_oauth p) state ?extra q0) ''client_id'' = Some [oa_client_id (op_oauth p)]"
    "map_of (auth_query (op_oauth p) state ?extra q0) ''redirect_uri'' = Some [oa_redirect_url (op_oauth p)]"
    "map_of (auth_query (op_oauth p) state ?extra q0) ''state'' = Some [state]"
    using assms(2) by (simp_all add: auth_query_def Let_def set_extra_get values_set_get)
  ultimately show ?thesis using u read_encode_values by blast
qed

lemma audience_in_list:
  "list_ex (\<lambda>v. case v of JStr s \<Rightarrow> s = audience | _ \<Rightarrow> False) vs \<longleftrightarrow> JStr audience \<in> set vs"
  by (induction vs) (auto split: json.splits)

text \<open>
  C38. An accepted ID token is one for this client: its payload decodes to the claims, the
  issuer is the one discovered (never empty, so the check is never skipped), the expected
  audience is the audience or one of its list, and the expiry, when it is a number, has not
  passed. Neither the signature nor the presence of an expiry is checked.
\<close>

theorem accepted_id_token:
  assumes "discover_oidc hc decode_doc issuer s = (Inr doc, s')"
    and "parse_id_token_claims decode to_int (new_oidc_provider doc cfg) now id_token audience = Inr cs"
  shows "\<exists>header payload sig. id_token = header @ ''.'' @ payload @ ''.'' @ sig \<and>
    Option.bind (b64url_decode payload) decode = Some cs \<and>
    dd_issuer doc \<noteq> [] \<and> map_of cs ''iss'' = Some (JStr (dd_issuer doc)) \<and>
    (audience = [] \<or> map_of cs ''aud'' = Some (JStr audience) \<or>
      (\<exists>vs. map_of cs ''aud'' = Some (JArr vs) \<and> JStr audience \<in> set vs)) \<and>
    (case map_of cs ''exp'' of Some (JNum x) \<Rightarrow> now \<le> to_int x | Some (JInt i) \<Rightarrow> now \<le> i | _ \<Rightarrow> True)"
proof -
  have i: "dd_issuer doc \<noteq> []"
    using assms(1) by (auto simp: discover_oidc_def split: sum.splits prod.splits if_splits)
  obtain header payload sig where parts: "split_on (CHR ''.'') id_token = [header, payload, sig]"
    and c: "Option.bind (b64url_decode payload) decode = Some cs"
    and iss: "json_string (map_of cs ''iss'') = dd_issuer doc"
    and aud: "audience = [] \<or> audience_contains (map_of cs ''aud'') audience"
    and exp: "case json_int64 to_int (map_of cs ''exp'') of Some e \<Rightarrow> now \<le> e | None \<Rightarrow> True"
    using assms(2) i unfolding parse_id_token_claims_def new_oidc_provider_def
    by (auto split: list.splits option.splits if_splits)
  have "id_token = header @ ''.'' @ payload @ ''.'' @ sig"
    using join_split_on [of "CHR ''.''" id_token] by (simp add: parts)
  moreover have "map_of cs ''iss'' = Some (JStr (dd_issuer doc))"
    using iss i by (auto simp: json_string_def split: option.splits json.splits)
  moreover have "audience = [] \<or> map_of cs ''aud'' = Some (JStr audience) \<or>
      (\<exists>vs. map_of cs ''aud'' = Some (JArr vs) \<and> JStr audience \<in> set vs)"
    using aud by (auto simp: audience_contains_def audience_in_list split: option.splits json.splits)
  moreover have "case map_of cs ''exp'' of Some (JNum x) \<Rightarrow> now \<le> to_int x | Some (JInt i) \<Rightarrow> now \<le> i | _ \<Rightarrow> True"
    using exp by (auto simp: json_int64_def split: option.splits json.splits)
  ultimately show ?thesis using c i by blast
qed

text \<open>
  A token comes from the token endpoint's answer to the code that was given: the one
  request is a form that reads back as the grant, the code and the client's credentials,
  whatever characters these have; the answer had a status between 200 and 299 and its access
  token is not empty.
\<close>

theorem exchanged_token:
  assumes "exchange_code hc decode cfg code s = (Inr token, s')"
  shows "\<exists>r resp. hc_do hc r s = (Inr resp, s') \<and> hr_method r = ''POST'' \<and> hr_url r = oa_token_url cfg \<and>
    read_form (hr_body r) =
      [Some (''client_id'', oa_client_id cfg), Some (''client_secret'', oa_client_secret cfg), Some (''code'', code),
       Some (''grant_type'', ''authorization_code''), Some (''redirect_uri'', oa_redirect_url cfg)] \<and>
    200 \<le> hs_status resp \<and> hs_status resp < 300 \<and> decode (hs_body resp) = Inr token \<and> ot_access_token token \<noteq> []"
proof -
  let ?r = "token_request cfg code"
  obtain resp where "hc_do hc ?r s = (Inr resp, s')" "ok_status (hs_status resp)"
    "decode (hs_body resp) = Inr token" "ot_access_token token \<noteq> []"
    using assms by (auto simp: exchange_code_def send_def split: if_splits sum.splits prod.splits option.splits)
  moreover have "read_form (hr_body ?r) =
      [Some (''client_id'', oa_client_id cfg), Some (''client_secret'', oa_client_secret cfg), Some (''code'', code),
       Some (''grant_type'', ''authorization_code''), Some (''redirect_uri'', oa_redirect_url cfg)]"
    by (simp add: token_request_def read_form_encode)
  ultimately show ?thesis unfolding ok_status_def by (intro exI [of _ ?r]) (simp add: token_request_def)
qed

text \<open>
  After a discovery the code and the client's secret are sent to the token endpoint of the document
  found, whatever endpoint the configuration named.
\<close>

lemma discovered_provider_exchanges:
  assumes "discover_oidc hc decode_doc issuer s0 = (Inr doc, s)"
    and "oidc_exchange_code hc decode (new_oidc_provider doc cfg) code s = (Inr token, s')"
  shows "\<exists>r resp. hc_do hc r s = (Inr resp, s') \<and> hr_method r = ''POST'' \<and> hr_url r = dd_token doc \<and> dd_token doc \<noteq> [] \<and>
    Some (''code'', code) \<in> set (read_form (hr_body r)) \<and>
    Some (''client_secret'', oa_client_secret cfg) \<in> set (read_form (hr_body r))"
proof -
  let ?cfg = "op_oauth (new_oidc_provider doc cfg)"
  have "dd_token doc \<noteq> []"
    using assms(1) by (auto simp: discover_oidc_def split: if_splits sum.splits prod.splits)
  moreover obtain resp where "hc_do hc (token_request ?cfg code) s = (Inr resp, s')"
    using assms(2)
    by (auto simp: oidc_exchange_code_def exchange_code_def send_def split: if_splits sum.splits prod.splits option.splits)
  ultimately show ?thesis
    by (intro exI [of _ "token_request ?cfg code"]) (simp add: token_request_def read_form_encode new_oidc_provider_def)
qed

section \<open>Examples\<close>

definition demo_oauth :: oauth_config where
  "demo_oauth =
     \<lparr>oa_client_id = ''app'', oa_client_secret = ''s&cret=1'', oa_redirect_url = ''https://app/cb'',
      oa_scopes = [''openid'', ''email''], oa_auth_url = [], oa_token_url = ''https://idp/token'', oa_user_info_url = []\<rparr>"

definition demo_doc :: discovery_doc where
  "demo_doc = \<lparr>dd_issuer = ''https://idp'', dd_authorization = ''https://idp/auth?client_id=x'',
     dd_token = ''https://idp/token'', dd_user_info = [], dd_jwks_uri = [], dd_algs = []\<rparr>"

definition demo_reader :: url_reader where
  "demo_reader =
     \<lparr>ur_parse = (\<lambda>u. Inr (''https://idp/auth'', [(''client_id'', [''x''])])),
      ur_string = (\<lambda>base query. base @ ''?'' @ query)\<rparr>"

definition demo_client :: "unit http_client" where
  "demo_client =
     \<lparr>hc_new_request = (\<lambda>u. None), hc_do = (\<lambda>r s. (Inr \<lparr>hs_status = 200, hs_body = ''doc''\<rparr>, s))\<rparr>"

theorem authorization_url_parameters_example:
  "\<exists>q. oidc_auth_code_url demo_reader (new_oidc_provider demo_doc demo_oauth) ''xyz'' ''n1''
      = Inr (''https://idp/auth?'' @ encode_values q) \<and>
    map_of q ''client_id'' = Some [''app''] \<and> map_of q ''state'' = Some [''xyz'']"
proof -
  obtain u where u: "oidc_auth_code_url demo_reader (new_oidc_provider demo_doc demo_oauth) ''xyz'' ''n1'' = Inr u"
    by (simp add: oidc_auth_code_url_def auth_code_url_def demo_reader_def new_oidc_provider_def demo_doc_def)
  from authorization_url_parameters [OF u] show ?thesis
    unfolding u by (auto simp: demo_reader_def new_oidc_provider_def demo_oauth_def)
qed

definition demo_token_claims :: "int json_map" where
  "demo_token_claims =
     [(''iss'', JStr ''https://idp''), (''aud'', JArr [JStr ''other'', JStr ''app'']), (''exp'', JNum 200)]"

theorem accepted_id_token_example:
  "map_of demo_token_claims ''iss'' = Some (JStr (dd_issuer demo_doc)) \<and>
   (case map_of demo_token_claims ''exp'' of Some (JNum x) \<Rightarrow> 150 \<le> id x | Some (JInt i) \<Rightarrow> 150 \<le> i | _ \<Rightarrow> True)"
proof -
  have d: "discover_oidc demo_client (\<lambda>body. Inr demo_doc) ''https://idp/'' () = (Inr demo_doc, ())"
    by (simp add: discover_oidc_def send_def demo_client_def ok_status_def demo_doc_def)
  let ?payload = "b64url ''ab''"
  have s: "split_on (CHR ''.'') (''h'' @ CHR ''.'' # ?payload @ CHR ''.'' # ''s'') = [''h'', ?payload, ''s'']"
    using b64url_no_dot [of "''ab''"] by (simp add: split_on_append)
  have p: "parse_id_token_claims (\<lambda>payload. Some demo_token_claims) id (new_oidc_provider demo_doc demo_oauth) 150
      (''h'' @ CHR ''.'' # ?payload @ CHR ''.'' # ''s'') ''app'' = Inr demo_token_claims"
    unfolding parse_id_token_claims_def s
    by (simp add: b64url_round_trip demo_token_claims_def new_oidc_provider_def demo_doc_def json_string_def
        audience_contains_def json_int64_def)
  from accepted_id_token [OF d p] show ?thesis by blast
qed

theorem exchanged_token_example:
  "\<exists>r :: http_request. hr_method r = ''POST'' \<and> read_form (hr_body r) =
     [Some (''client_id'', ''app''), Some (''client_secret'', ''s&cret=1''), Some (''code'', ''c+1''),
      Some (''grant_type'', ''authorization_code''), Some (''redirect_uri'', ''https://app/cb'')]"
proof -
  let ?t = "\<lparr>ot_access_token = ''at'', ot_token_type = [], ot_refresh_token = [], ot_id_token = [],
    ot_expires_in = 0, ot_scope = []\<rparr>"
  have "exchange_code demo_client (\<lambda>body. Inr ?t) demo_oauth ''c+1'' () = (Inr ?t, ())"
    by (simp add: exchange_code_def send_def demo_client_def ok_status_def demo_oauth_def)
  from exchanged_token [OF this] show ?thesis unfolding demo_oauth_def oauth_config.simps by blast
qed

end
