(* ===== verification/Jobs_Queue.thy ===== *)
theory Jobs_Queue imports Go_Prelude begin

text \<open>
  Package \<open>jobs\<close>, queue.go: the in-memory queue. The queue is a Go channel, a flag and a
  lock; goroutines run \<open>Enqueue\<close>, \<open>RunWorker\<close> and \<open>Close\<close> at the same time. A step of the
  relation is what happens between two points where another goroutine can run: \<open>Enqueue\<close>
  reads the flag in one step and sends in another, and a cancelled context may win the
  \<open>select\<close> instead.
\<close>

record message =
  msg_name :: string
  msg_payload :: string

text \<open>
  The channel with its buffer, the flag, the messages whose \<open>Enqueue\<close> has passed the check
  and has not sent yet, and, as history, what was sent and received so far. \<open>panicked\<close> is
  the send on a closed channel.
\<close>

record mem_queue =
  mq_capacity :: nat
  mq_buffer :: "message list"
  mq_chan_closed :: bool
  mq_closed :: bool
  mq_sending :: "message list"
  mq_sent :: "message list"
  mq_received :: "message list"
  mq_panicked :: bool

definition new_in_memory_queue :: "int \<Rightarrow> mem_queue" where
  "new_in_memory_queue buffer =
     (let buffer = (if buffer < 1 then 1 else buffer)
      in \<lparr>mq_capacity = nat buffer, mq_buffer = [], mq_chan_closed = False, mq_closed = False,
          mq_sending = [], mq_sent = [], mq_received = [], mq_panicked = False\<rparr>)"

text \<open>What a call returns, or that it goes on.\<close>

datatype enqueue_result = EnqueueOk | QueueClosed | ContextDone | EnqueuePanic

definition enqueue_check :: "message \<Rightarrow> mem_queue \<Rightarrow> enqueue_result option \<times> mem_queue" where
  "enqueue_check m q =
     (if mq_closed q then (Some QueueClosed, q)
      else (None, q\<lparr>mq_sending := mq_sending q @ [m]\<rparr>))"

text \<open>The send of the \<open>select\<close>; it blocks (\<open>None\<close>) while the buffer is full.\<close>

definition enqueue_send :: "message \<Rightarrow> mem_queue \<Rightarrow> (enqueue_result \<times> mem_queue) option" where
  "enqueue_send m q =
     (let q = q\<lparr>mq_sending := remove1 m (mq_sending q)\<rparr> in
      if mq_chan_closed q then Some (EnqueuePanic, q\<lparr>mq_panicked := True\<rparr>)
      else if length (mq_buffer q) < mq_capacity q
      then Some (EnqueueOk, q\<lparr>mq_buffer := mq_buffer q @ [m], mq_sent := mq_sent q @ [m]\<rparr>)
      else None)"

definition enqueue_cancel :: "message \<Rightarrow> mem_queue \<Rightarrow> enqueue_result \<times> mem_queue" where
  "enqueue_cancel m q = (ContextDone, q\<lparr>mq_sending := remove1 m (mq_sending q)\<rparr>)"

text \<open>One turn of the worker's loop: a message for the handler, the end, or blocked.\<close>

datatype worker_turn = Handle message | WorkerEnds

definition worker_receive :: "mem_queue \<Rightarrow> (worker_turn \<times> mem_queue) option" where
  "worker_receive q =
     (case mq_buffer q of
        m # ms \<Rightarrow> Some (Handle m, q\<lparr>mq_buffer := ms, mq_received := mq_received q @ [m]\<rparr>)
      | [] \<Rightarrow> if mq_chan_closed q then Some (WorkerEnds, q) else None)"

definition queue_close :: "mem_queue \<Rightarrow> mem_queue" where
  "queue_close q = (if mq_closed q then q else q\<lparr>mq_closed := True, mq_chan_closed := True\<rparr>)"

inductive queue_step :: "mem_queue \<Rightarrow> mem_queue \<Rightarrow> bool" where
  step_check: "enqueue_check m q = (r, q') \<Longrightarrow> queue_step q q'"
| step_send: "m \<in> set (mq_sending q) \<Longrightarrow> enqueue_send m q = Some (r, q') \<Longrightarrow> queue_step q q'"
| step_cancel: "m \<in> set (mq_sending q) \<Longrightarrow> enqueue_cancel m q = (r, q') \<Longrightarrow> queue_step q q'"
| step_receive: "worker_receive q = Some (t, q') \<Longrightarrow> queue_step q q'"
| step_close: "queue_step q (queue_close q)"

inductive_cases queue_stepE: "queue_step q q'"

section \<open>Invariant\<close>

definition queue_inv :: "mem_queue \<Rightarrow> bool" where
  "queue_inv q \<longleftrightarrow> mq_sent q = mq_received q @ mq_buffer q \<and> length (mq_buffer q) \<le> mq_capacity q \<and>
     0 < mq_capacity q \<and> mq_chan_closed q = mq_closed q \<and> (mq_panicked q \<longrightarrow> mq_chan_closed q)"

lemma queue_inv_new: "queue_inv (new_in_memory_queue b)"
  by (simp add: queue_inv_def new_in_memory_queue_def)

lemma queue_step_inv: "queue_step q q' \<Longrightarrow> queue_inv q \<Longrightarrow> queue_inv q'"
  by (erule queue_stepE)
    (auto simp: queue_inv_def enqueue_check_def enqueue_send_def enqueue_cancel_def worker_receive_def
      queue_close_def Let_def split: if_splits list.splits)

lemma queue_steps_inv: "queue_step\<^sup>*\<^sup>* q q' \<Longrightarrow> queue_inv q \<Longrightarrow> queue_inv q'"
  by (induction rule: rtranclp_induct) (auto intro: queue_step_inv)


definition job :: "string \<Rightarrow> message" where
  "job name = \<lparr>msg_name = name, msg_payload = []\<rparr>"

definition one_sent :: mem_queue where
  "one_sent = (case enqueue_send (job ''a'') (snd (enqueue_check (job ''a'') (new_in_memory_queue 2))) of
     Some (r, q) \<Rightarrow> q | None \<Rightarrow> new_in_memory_queue 2)"

lemma one_sent_reachable: "queue_step\<^sup>*\<^sup>* (new_in_memory_queue 2) one_sent"
proof -
  let ?q = "snd (enqueue_check (job ''a'') (new_in_memory_queue 2))"
  have "queue_step (new_in_memory_queue 2) ?q" by (rule step_check) (rule prod.collapse [symmetric])
  moreover have "queue_step ?q one_sent"
    by (rule step_send [where m = "job ''a''" and r = EnqueueOk])
      (simp_all add: one_sent_def enqueue_check_def enqueue_send_def new_in_memory_queue_def)
  ultimately show ?thesis by auto
qed


definition crashed :: "int \<Rightarrow> mem_queue \<times> mem_queue" where
  "crashed b =
     (let q1 = snd (enqueue_check (job ''a'') (new_in_memory_queue b)); q2 = queue_close q1
      in (q2, q2\<lparr>mq_sending := [], mq_panicked := True\<rparr>))"

lemma crashed_reachable:
  "queue_step\<^sup>*\<^sup>* (new_in_memory_queue b) (fst (crashed b)) \<and> queue_step (fst (crashed b)) (snd (crashed b)) \<and>
   \<not> mq_panicked (fst (crashed b)) \<and> mq_panicked (snd (crashed b))"
proof -
  let ?q1 = "snd (enqueue_check (job ''a'') (new_in_memory_queue b))"
  have "queue_step (new_in_memory_queue b) ?q1" by (rule step_check) (rule prod.collapse [symmetric])
  moreover have "queue_step ?q1 (queue_close ?q1)" by (rule step_close)
  ultimately have "queue_step\<^sup>*\<^sup>* (new_in_memory_queue b) (fst (crashed b))" by (auto simp: crashed_def Let_def)
  moreover have "queue_step (fst (crashed b)) (snd (crashed b))"
    by (rule step_send [where m = "job ''a''" and r = EnqueuePanic])
      (simp_all add: crashed_def enqueue_check_def enqueue_send_def new_in_memory_queue_def queue_close_def Let_def)
  ultimately show ?thesis
    by (simp add: crashed_def enqueue_check_def new_in_memory_queue_def queue_close_def Let_def)
qed

text \<open>
  C25. \<open>Close\<close> can crash a producer, whatever the size of the buffer: a reachable run ends in a
  panic. It takes exactly a call of \<open>Enqueue\<close> that passed its check before the queue was closed
  and sends after it; nothing else the queue does panics.
\<close>

theorem close_races_with_enqueue:
  assumes "queue_step q0 q" "\<not> mq_panicked q0" "mq_panicked q"
  shows "(\<exists>m. m \<in> set (mq_sending q0) \<and> mq_chan_closed q0 \<and> enqueue_send m q0 = Some (EnqueuePanic, q)) \<and>
    (\<exists>q. queue_step\<^sup>*\<^sup>* (new_in_memory_queue b) q \<and> mq_panicked q)"
proof
  show "\<exists>m. m \<in> set (mq_sending q0) \<and> mq_chan_closed q0 \<and> enqueue_send m q0 = Some (EnqueuePanic, q)"
    using assms
    by (auto elim!: queue_stepE simp: enqueue_check_def enqueue_send_def enqueue_cancel_def worker_receive_def
      queue_close_def Let_def split: if_splits list.splits)
  show "\<exists>q. queue_step\<^sup>*\<^sup>* (new_in_memory_queue b) q \<and> mq_panicked q"
    using crashed_reachable [of b] by (meson rtranclp.rtrancl_into_rtrancl)
qed

theorem close_races_with_enqueue_example:
  "mq_chan_closed (fst (crashed 1))"
  using close_races_with_enqueue [of "fst (crashed 1)" "snd (crashed 1)"] crashed_reachable [of 1] by blast

end
