(* ===== verification/Jobs_Sql.thy ===== *)
theory Jobs_Sql imports Jobs_Queue Go_Encoding Db begin

text \<open>
  Package \<open>jobs\<close>, distributed.go: the queue in a shared SQL table. Every process has a
  backend of its own (its configuration and whether it has created the table); they share
  the database. Random bytes and the clock (milliseconds) are arguments.
\<close>

record sql_config =
  sc_table :: string
  sc_dialect :: string
  sc_node_id :: string
  sc_poll_interval :: int
  sc_retry_delay :: int

text \<open>\<open>randHex\<close>: random bytes, or, when there are none, the bytes of a clock text.\<close>

definition rand_hex :: "nat list option \<Rightarrow> string \<Rightarrow> string" where
  "rand_hex rand clock_text =
     (case rand of Some bytes \<Rightarrow> hex_text bytes | None \<Rightarrow> hex_text (map byte_val clock_text))"

text \<open>\<open>NewSQLBackend\<close>: defaults, intervals in nanoseconds, \<open>rand\<close> is \<open>randHex(4)\<close>.\<close>

definition new_sql_backend :: "string \<Rightarrow> sql_config \<Rightarrow> sql_config" where
  "new_sql_backend rand cfg =
     (let cfg = (if sc_table cfg = [] then cfg\<lparr>sc_table := ''elgon_jobs''\<rparr> else cfg);
          cfg = (if sc_poll_interval cfg \<le> 0 then cfg\<lparr>sc_poll_interval := 250 * 1000000\<rparr> else cfg);
          cfg = (if sc_retry_delay cfg \<le> 0 then cfg\<lparr>sc_retry_delay := 2 * 1000000000\<rparr> else cfg)
      in if sc_node_id cfg = [] then cfg\<lparr>sc_node_id := ''node_'' @ rand\<rparr> else cfg)"

definition jobs_ph :: "sql_config \<Rightarrow> nat \<Rightarrow> string" where
  "jobs_ph cfg n =
     (if equal_fold (sc_dialect cfg) ''postgres'' \<or> equal_fold (sc_dialect cfg) ''pg''
      then ''$'' @ show_nat n else ''?'')"

interpretation jobs_ph: placeholder_style "jobs_ph cfg" "numbered_dialect (sc_dialect cfg)" for cfg
  by unfold_locales (auto simp: jobs_ph_def numbered_dialect_def)

section \<open>Statements\<close>

definition quote :: string where "quote = [CHR 0x27]"

definition queued :: string where "queued = ''queued''"
definition processing :: string where "processing = ''processing''"

text \<open>A new line and a tab, in the text of the table.\<close>

definition line_break :: string where "line_break = [CHR 0x0A, CHR 0x09]"

definition create_jobs_statement :: "sql_config \<Rightarrow> string" where
  "create_jobs_statement cfg = ''CREATE TABLE IF NOT EXISTS '' @ sc_table cfg @
     '' ('' @ line_break @ join ('','' @ line_break)
     [''id TEXT PRIMARY KEY'',
      ''name TEXT NOT NULL'',
      ''payload_b64 TEXT NOT NULL'',
      ''status TEXT NOT NULL'',
      ''attempts INTEGER NOT NULL'',
      ''available_at_ms BIGINT NOT NULL'',
      ''reserved_by TEXT'',
      ''reserved_at_ms BIGINT'',
      ''created_at_ms BIGINT NOT NULL''] @ [CHR 0x0A] @ '')''"

definition insert_job_statement :: "sql_config \<Rightarrow> string" where
  "insert_job_statement cfg = ''INSERT INTO '' @ sc_table cfg @
     '' (id, name, payload_b64, status, attempts, available_at_ms, created_at_ms) VALUES ('' @
     jobs_ph cfg 1 @ '', '' @ jobs_ph cfg 2 @ '', '' @ jobs_ph cfg 3 @ '', '' @ quote @ queued @ quote @ '', 0, '' @
     jobs_ph cfg 4 @ '', '' @ jobs_ph cfg 5 @ '')''"

definition select_job_statement :: "sql_config \<Rightarrow> string" where
  "select_job_statement cfg = ''SELECT id, name, payload_b64 FROM '' @ sc_table cfg @
     '' WHERE status='' @ quote @ queued @ quote @ '' AND available_at_ms <= '' @ jobs_ph cfg 1 @
     '' ORDER BY created_at_ms ASC LIMIT 1''"

definition claim_job_statement :: "sql_config \<Rightarrow> string" where
  "claim_job_statement cfg = ''UPDATE '' @ sc_table cfg @ '' SET status='' @ quote @ processing @ quote @
     '', reserved_by='' @ jobs_ph cfg 1 @ '', reserved_at_ms='' @ jobs_ph cfg 2 @
     '', attempts=attempts+1 WHERE id='' @ jobs_ph cfg 3 @ '' AND status='' @ quote @ queued @ quote"

definition ack_statement :: "sql_config \<Rightarrow> string" where
  "ack_statement cfg = ''DELETE FROM '' @ sc_table cfg @ '' WHERE id='' @ jobs_ph cfg 1"

definition retry_statement :: "sql_config \<Rightarrow> string" where
  "retry_statement cfg = ''UPDATE '' @ sc_table cfg @ '' SET status='' @ quote @ queued @ quote @
     '', available_at_ms='' @ jobs_ph cfg 1 @ '' WHERE id='' @ jobs_ph cfg 2"

section \<open>Operations\<close>

datatype job_error = JobDb string | JobScan | JobPayload

definition run_exec :: "'d adapter \<Rightarrow> string \<Rightarrow> val list \<Rightarrow> 'd \<Rightarrow> (job_error + db_result) \<times> 'd" where
  "run_exec a q args d =
     (case eq_exec (ad_db a) q args d of (Inl e, d') \<Rightarrow> (Inl (JobDb e), d') | (Inr r, d') \<Rightarrow> (Inr r, d'))"

text \<open>
  \<open>ensureTable\<close>: the statement runs on the first call only, and only that call reports its
  error. The first component of the state is the \<open>sync.Once\<close>.
\<close>

definition sql_ensure_table :: "sql_config \<Rightarrow> 'd adapter \<Rightarrow> bool \<times> 'd \<Rightarrow> job_error option \<times> bool \<times> 'd" where
  "sql_ensure_table cfg a st =
     (case st of (once, d) \<Rightarrow>
        if once then (None, True, d)
        else
          (case run_exec a (create_jobs_statement cfg) [] d of
             (Inl e, d') \<Rightarrow> (Some e, True, d')
           | (Inr r, d') \<Rightarrow> (None, True, d')))"

definition sql_enqueue ::
  "sql_config \<Rightarrow> 'd adapter \<Rightarrow> string \<Rightarrow> int \<Rightarrow> message \<Rightarrow> bool \<times> 'd \<Rightarrow> job_error option \<times> bool \<times> 'd" where
  "sql_enqueue cfg a job_id now m st =
     (case sql_ensure_table cfg a st of
        (Some e, st') \<Rightarrow> (Some e, st')
      | (None, once, d) \<Rightarrow>
          (case run_exec a (insert_job_statement cfg)
                  [VStr job_id, VStr (msg_name m), VStr (b64_encode std_alphabet (msg_payload m)), VInt now, VInt now] d of
             (Inl e, d') \<Rightarrow> (Some e, once, d')
           | (Inr r, d') \<Rightarrow> (None, once, d')))"

text \<open>
  \<open>claimNext\<close> in its two statements, other workers may run between them: choosing a row, and
  claiming it. Nothing chosen, or a row that someone else claimed, is \<open>Inr None\<close>.
\<close>

definition claim_select ::
  "sql_config \<Rightarrow> 'd adapter \<Rightarrow> int \<Rightarrow> 'd \<Rightarrow> (job_error + (string \<times> string \<times> string) option) \<times> 'd" where
  "claim_select cfg a now d =
     (case eq_query (ad_db a) (select_job_statement cfg) [VInt now] d of
        (Inl e, d') \<Rightarrow> (Inl (JobDb e), d')
      | (Inr rows, d') \<Rightarrow>
          (case rows_data rows of
             [] \<Rightarrow> (case rows_err rows of Some e \<Rightarrow> (Inl (JobDb e), d') | None \<Rightarrow> (Inr None, d'))
           | Inl e # rest \<Rightarrow> (Inl (JobDb e), d')
           | Inr [VStr job_id, VStr name, VStr payload_b64] # rest \<Rightarrow> (Inr (Some (job_id, name, payload_b64)), d')
           | Inr vs # rest \<Rightarrow> (Inl JobScan, d')))"

definition claim_update ::
  "sql_config \<Rightarrow> 'd adapter \<Rightarrow> int \<Rightarrow> string \<times> string \<times> string \<Rightarrow> 'd \<Rightarrow> (job_error + (string \<times> message) option) \<times> 'd" where
  "claim_update cfg a now row d =
     (case row of (job_id, name, payload_b64) \<Rightarrow>
        (case run_exec a (claim_job_statement cfg) [VStr (sc_node_id cfg), VInt now, VStr job_id] d of
           (Inl e, d') \<Rightarrow> (Inl e, d')
         | (Inr res, d') \<Rightarrow>
             if rows_affected res \<noteq> Inr 1 then (Inr None, d')
             else
               (case b64_decode std_alphabet payload_b64 of
                  None \<Rightarrow> (Inl JobPayload, d')
                | Some payload \<Rightarrow> (Inr (Some (job_id, \<lparr>msg_name = name, msg_payload = payload\<rparr>)), d'))))"

definition claim_next ::
  "sql_config \<Rightarrow> 'd adapter \<Rightarrow> int \<Rightarrow> bool \<times> 'd \<Rightarrow> (job_error + (string \<times> message) option) \<times> bool \<times> 'd" where
  "claim_next cfg a now st =
     (case sql_ensure_table cfg a st of
        (Some e, st') \<Rightarrow> (Inl e, st')
      | (None, once, d) \<Rightarrow>
          (case claim_select cfg a now d of
             (Inl e, d') \<Rightarrow> (Inl e, once, d')
           | (Inr None, d') \<Rightarrow> (Inr None, once, d')
           | (Inr (Some row), d') \<Rightarrow> (case claim_update cfg a now row d' of (r, d'') \<Rightarrow> (r, once, d''))))"

definition sql_ack :: "sql_config \<Rightarrow> 'd adapter \<Rightarrow> string \<Rightarrow> 'd \<Rightarrow> job_error option \<times> 'd" where
  "sql_ack cfg a job_id d =
     (case run_exec a (ack_statement cfg) [VStr job_id] d of (Inl e, d') \<Rightarrow> (Some e, d') | (Inr r, d') \<Rightarrow> (None, d'))"

text \<open>\<open>now_ns\<close> is the clock in nanoseconds.\<close>

definition sql_retry :: "sql_config \<Rightarrow> 'd adapter \<Rightarrow> int \<Rightarrow> string \<Rightarrow> 'd \<Rightarrow> job_error option \<times> 'd" where
  "sql_retry cfg a now_ns job_id d =
     (let next = (now_ns + sc_retry_delay cfg) div 1000000 in
      case run_exec a (retry_statement cfg) [VInt next, VStr job_id] d of (Inl e, d') \<Rightarrow> (Some e, d') | (Inr r, d') \<Rightarrow> (None, d'))"

text \<open>One tick of \<open>RunWorker\<close>; the handler answers whether it failed and may change the database.\<close>

definition worker_tick ::
  "sql_config \<Rightarrow> 'd adapter \<Rightarrow> int \<Rightarrow> int \<Rightarrow> (message \<Rightarrow> 'd \<Rightarrow> bool \<times> 'd) \<Rightarrow> bool \<times> 'd \<Rightarrow> bool \<times> 'd" where
  "worker_tick cfg a now now_ns handler st =
     (case claim_next cfg a now st of
        (Inr (Some (job_id, m)), once, d) \<Rightarrow>
          (case handler m d of
             (True, d') \<Rightarrow> (once, snd (sql_retry cfg a now_ns job_id d'))
           | (False, d') \<Rightarrow> (once, snd (sql_ack cfg a job_id d')))
      | (_, st') \<Rightarrow> st')"

section \<open>Closing\<close>

text \<open>
  The turns of \<open>RunWorker\<close>: the \<open>select\<close> takes any case that is ready. \<open>None\<close> is the end of the
  loop; the other result is whether the tick ran. A closed backend or a cancelled context that is
  ready together with the ticker may still lose against it.
\<close>

datatype worker_event = ContextIsDone | BackendClosed | TickerFired

definition event_ready :: "bool \<Rightarrow> bool \<Rightarrow> bool \<Rightarrow> worker_event \<Rightarrow> bool" where
  "event_ready ctx_done closed ticked ev =
     (case ev of ContextIsDone \<Rightarrow> ctx_done | BackendClosed \<Rightarrow> closed | TickerFired \<Rightarrow> ticked)"

definition worker_select ::
  "sql_config \<Rightarrow> 'd adapter \<Rightarrow> int \<Rightarrow> int \<Rightarrow> (message \<Rightarrow> 'd \<Rightarrow> bool \<times> 'd) \<Rightarrow> worker_event \<Rightarrow> bool \<times> 'd \<Rightarrow>
   (bool \<times> 'd) option" where
  "worker_select cfg a now now_ns handler ev st =
     (if ev = TickerFired then Some (worker_tick cfg a now now_ns handler st) else None)"

text \<open>
  \<open>Close\<close> looks at the channel and closes it in two steps; closing it twice panics. The state is
  whether the channel is closed and how many calls are between the two steps.
\<close>

record closing =
  cs_closed :: bool
  cs_closing :: nat
  cs_panicked :: bool

definition close_check :: "closing \<Rightarrow> closing" where
  "close_check c = (if cs_closed c then c else c\<lparr>cs_closing := Suc (cs_closing c)\<rparr>)"

definition close_channel :: "closing \<Rightarrow> closing" where
  "close_channel c =
     (if cs_closing c = 0 then c
      else if cs_closed c then c\<lparr>cs_closing := cs_closing c - 1, cs_panicked := True\<rparr>
      else c\<lparr>cs_closing := cs_closing c - 1, cs_closed := True\<rparr>)"

text \<open>One call after the other closes once; two calls whose checks both come first panic.\<close>

lemma close_twice:
  assumes "\<not> cs_panicked c" "cs_closing c = 0"
  shows "\<not> cs_panicked (close_channel (close_check (close_channel (close_check c))))"
    and "\<not> cs_closed c \<Longrightarrow> cs_panicked (close_channel (close_channel (close_check (close_check c))))"
  using assms by (simp_all add: close_check_def close_channel_def)

end
