(* ===== verification/Jobs_Workers.thy ===== *)
theory Jobs_Workers imports Jobs_Sql begin

text \<open>
  Workers of the SQL queue running at the same time, statement by statement. What they rely
  on from the database is stated in \<open>job_store\<close>, for the statements of distributed.go and the
  status column of the table they name.
\<close>

section \<open>What the database promises\<close>

text \<open>A statement takes effect, or fails, and then nobody can say whether it did.\<close>

definition effect :: "('d \<Rightarrow> 's) \<Rightarrow> (string + db_result) \<times> 'd \<Rightarrow> 's \<Rightarrow> 's \<Rightarrow> bool" where
  "effect status r before after =
     (case r of (Inl e, d') \<Rightarrow> status d' \<in> {before, after} | (Inr res, d') \<Rightarrow> status d' = after)"

definition set_queued :: "(string \<rightharpoonup> string) \<Rightarrow> string \<Rightarrow> (string \<rightharpoonup> string)" where
  "set_queued st i = (if st i = None then st else st(i \<mapsto> queued))"

definition set_claimed :: "(string \<rightharpoonup> string) \<Rightarrow> string \<Rightarrow> (string \<rightharpoonup> string)" where
  "set_claimed st i = (if st i = Some queued then st(i \<mapsto> processing) else st)"

definition job_store :: "'d adapter \<Rightarrow> sql_config \<Rightarrow> ('d \<Rightarrow> string \<rightharpoonup> string) \<Rightarrow> bool" where
  "job_store a cfg status \<longleftrightarrow>
     (\<forall>now d. status (snd (eq_query (ad_db a) (select_job_statement cfg) [VInt now] d)) = status d) \<and>
     (\<forall>node now i d. let r = eq_exec (ad_db a) (claim_job_statement cfg) [VStr node, VInt now, VStr i] d in
        effect status r (status d) (set_claimed (status d) i) \<and>
        (\<forall>res. fst r = Inr res \<longrightarrow> rows_affected res = Inr (if status d i = Some queued then 1 else 0))) \<and>
     (\<forall>i d. effect status (eq_exec (ad_db a) (ack_statement cfg) [VStr i] d) (status d) ((status d)(i := None))) \<and>
     (\<forall>t i d. effect status (eq_exec (ad_db a) (retry_statement cfg) [VInt t, VStr i] d) (status d) (set_queued (status d) i)) \<and>
     (\<forall>i n p t d. let r = eq_exec (ad_db a) (insert_job_statement cfg) [VStr i, VStr n, VStr p, VInt t, VInt t] d in
        if status d i = None then effect status r (status d) ((status d)(i \<mapsto> queued))
        else status (snd r) = status d)"

lemma job_storeD:
  assumes "job_store a cfg status"
  shows "claim_select cfg a now d = (r1, d1) \<Longrightarrow> status d1 = status d"
    "claim_update cfg a now (i, n, p) d = (r2, d2) \<Longrightarrow>
       (status d2 = status d \<or> status d2 = set_claimed (status d) i) \<and>
       (\<forall>x. r2 = Inr (Some x) \<longrightarrow> fst x = i \<and> status d i = Some queued \<and> status d2 = (status d)(i \<mapsto> processing))"
    "sql_ack cfg a i d = (r3, d3) \<Longrightarrow> status d3 = status d \<or> status d3 = (status d)(i := None)"
    "sql_retry cfg a t i d = (r4, d4) \<Longrightarrow> status d4 = status d \<or> status d4 = set_queued (status d) i"
    "run_exec a (insert_job_statement cfg) [VStr i, VStr n, VStr p, VInt t, VInt t] d = (r5, d5) \<Longrightarrow>
       status d5 = status d \<or> (status d i = None \<and> status d5 = (status d)(i \<mapsto> queued))"
proof -
  have sel: "status (snd (eq_query (ad_db a) (select_job_statement cfg) [VInt now] d)) = status d" for now d
    using assms by (simp add: job_store_def)
  have claim: "effect status (eq_exec (ad_db a) (claim_job_statement cfg) [VStr node, VInt now, VStr i] d)
        (status d) (set_claimed (status d) i) \<and>
      (\<forall>res. fst (eq_exec (ad_db a) (claim_job_statement cfg) [VStr node, VInt now, VStr i] d) = Inr res \<longrightarrow>
        rows_affected res = Inr (if status d i = Some queued then 1 else 0))" for node now i d
    using assms by (simp add: job_store_def Let_def)
  have ack: "effect status (eq_exec (ad_db a) (ack_statement cfg) [VStr i] d) (status d) ((status d)(i := None))" for i d
    using assms by (simp add: job_store_def)
  have retry: "effect status (eq_exec (ad_db a) (retry_statement cfg) [VInt t, VStr i] d) (status d) (set_queued (status d) i)" for t i d
    using assms by (simp add: job_store_def)
  have ins: "if status d i = None
      then effect status (eq_exec (ad_db a) (insert_job_statement cfg) [VStr i, VStr n, VStr p, VInt t, VInt t] d)
             (status d) ((status d)(i \<mapsto> queued))
      else status (snd (eq_exec (ad_db a) (insert_job_statement cfg) [VStr i, VStr n, VStr p, VInt t, VInt t] d)) = status d"
    for i n p t d
    using assms by (simp add: job_store_def Let_def)
  show "claim_select cfg a now d = (r1, d1) \<Longrightarrow> status d1 = status d"
    using sel [of now d]
    by (cases "eq_query (ad_db a) (select_job_statement cfg) [VInt now] d")
      (auto simp: claim_select_def split: sum.splits list.splits option.splits val.splits)
  show "(status d2 = status d \<or> status d2 = set_claimed (status d) i) \<and>
       (\<forall>x. r2 = Inr (Some x) \<longrightarrow> fst x = i \<and> status d i = Some queued \<and> status d2 = (status d)(i \<mapsto> processing))"
    if "claim_update cfg a now (i, n, p) d = (r2, d2)"
    using that claim [of "sc_node_id cfg" now i d]
    by (cases "eq_exec (ad_db a) (claim_job_statement cfg) [VStr (sc_node_id cfg), VInt now, VStr i] d")
      (auto simp: claim_update_def run_exec_def effect_def set_claimed_def split: sum.splits option.splits if_splits)
  show "sql_ack cfg a i d = (r3, d3) \<Longrightarrow> status d3 = status d \<or> status d3 = (status d)(i := None)"
    using ack [of i d] by (auto simp: sql_ack_def run_exec_def effect_def split: sum.splits prod.splits)
  show "sql_retry cfg a t i d = (r4, d4) \<Longrightarrow> status d4 = status d \<or> status d4 = set_queued (status d) i"
    using retry [of "(t + sc_retry_delay cfg) div 1000000" i d]
    by (auto simp: sql_retry_def run_exec_def effect_def Let_def split: sum.splits prod.splits)
  show "run_exec a (insert_job_statement cfg) [VStr i, VStr n, VStr p, VInt t, VInt t] d = (r5, d5) \<Longrightarrow>
       status d5 = status d \<or> (status d i = None \<and> status d5 = (status d)(i \<mapsto> queued))"
    using ins [of d i n p t] by (auto simp: run_exec_def effect_def split: sum.splits prod.splits if_splits)
qed

section \<open>Workers\<close>

datatype phase =
    Idle
  | Selected string string string
  | Working string message

record 'd workers =
  wk_db :: 'd
  wk_phase :: "nat \<Rightarrow> phase"

text \<open>
  The points of \<open>RunWorker\<close>: choosing a row, claiming it, and then, with the handler's result,
  \<open>ack\<close> or \<open>retry\<close>. A process may die anywhere. \<open>cfg\<close> gives the configuration of each worker.
\<close>

inductive workers_step :: "'d adapter \<Rightarrow> (nat \<Rightarrow> sql_config) \<Rightarrow> 'd workers \<Rightarrow> 'd workers \<Rightarrow> bool" for a cfg where
  ws_enqueue: "run_exec a (insert_job_statement (cfg w)) [VStr i, VStr n, VStr p, VInt t, VInt t] (wk_db s) = (r, d) \<Longrightarrow>
    workers_step a cfg s (s\<lparr>wk_db := d\<rparr>)"
| ws_select: "wk_phase s w = Idle \<Longrightarrow> claim_select (cfg w) a now (wk_db s) = (Inr (Some (i, n, p)), d) \<Longrightarrow>
    workers_step a cfg s (s\<lparr>wk_db := d, wk_phase := (wk_phase s)(w := Selected i n p)\<rparr>)"
| ws_claim: "wk_phase s w = Selected i n p \<Longrightarrow> claim_update (cfg w) a now (i, n, p) (wk_db s) = (Inr (Some (j, m)), d) \<Longrightarrow>
    workers_step a cfg s (s\<lparr>wk_db := d, wk_phase := (wk_phase s)(w := Working j m)\<rparr>)"
| ws_miss: "wk_phase s w = Selected i n p \<Longrightarrow> claim_update (cfg w) a now (i, n, p) (wk_db s) = (r, d) \<Longrightarrow>
    r = Inr None \<or> isl r \<Longrightarrow> workers_step a cfg s (s\<lparr>wk_db := d, wk_phase := (wk_phase s)(w := Idle)\<rparr>)"
| ws_ack: "wk_phase s w = Working i m \<Longrightarrow> sql_ack (cfg w) a i (wk_db s) = (r, d) \<Longrightarrow>
    workers_step a cfg s (s\<lparr>wk_db := d, wk_phase := (wk_phase s)(w := Idle)\<rparr>)"
| ws_retry: "wk_phase s w = Working i m \<Longrightarrow> sql_retry (cfg w) a t i (wk_db s) = (r, d) \<Longrightarrow>
    workers_step a cfg s (s\<lparr>wk_db := d, wk_phase := (wk_phase s)(w := Idle)\<rparr>)"
| ws_crash: "workers_step a cfg s (s\<lparr>wk_phase := (wk_phase s)(w := Idle)\<rparr>)"

definition working_on :: "'d workers \<Rightarrow> nat \<Rightarrow> string \<Rightarrow> bool" where
  "working_on s w i \<longleftrightarrow> (\<exists>m. wk_phase s w = Working i m)"

definition exclusive :: "('d \<Rightarrow> string \<rightharpoonup> string) \<Rightarrow> 'd workers \<Rightarrow> bool" where
  "exclusive status s \<longleftrightarrow>
     (\<forall>w i. working_on s w i \<longrightarrow> status (wk_db s) i = Some processing) \<and>
     (\<forall>w w' i. working_on s w i \<and> working_on s w' i \<longrightarrow> w = w')"

lemma queued_processing [simp]: "queued \<noteq> processing" "processing \<noteq> queued"
  by (simp_all add: queued_def processing_def)

text \<open>What a step does to the status column and to who works on what.\<close>

lemma workers_step_status:
  assumes "workers_step a cfg s s'" "\<forall>w. job_store a (cfg w) status"
  obtains
    (same) "status (wk_db s') = status (wk_db s)" "\<forall>w i. working_on s' w i \<longrightarrow> working_on s w i"
  | (put) i where "status (wk_db s) i = None" "status (wk_db s') = (status (wk_db s))(i \<mapsto> queued)"
      "\<forall>w i. working_on s' w i \<longrightarrow> working_on s w i"
  | (claim) w i where "status (wk_db s) i = Some queued" "status (wk_db s') = (status (wk_db s))(i \<mapsto> processing)"
      "\<forall>w' j. working_on s' w' j \<longrightarrow> working_on s w' j \<or> (w' = w \<and> j = i)" "\<not> working_on s w i"
  | (release) w i where "working_on s w i"
      "status (wk_db s') = (status (wk_db s))(i := None) \<or> status (wk_db s') = set_queued (status (wk_db s)) i"
      "\<forall>w' j. working_on s' w' j \<longrightarrow> working_on s w' j \<and> w' \<noteq> w"
  using assms(1)
proof cases
  case (ws_enqueue w i n p t r d)
  then show ?thesis
    using job_storeD(5) [OF spec [OF assms(2)] ws_enqueue(2)] same put by (auto simp: working_on_def)
next
  case (ws_select w now i n p d)
  then show ?thesis
    using job_storeD(1) [OF spec [OF assms(2)] ws_select(3)] by (intro same) (auto simp: working_on_def)
next
  case (ws_claim w i n p now j m d)
  then show ?thesis
    using job_storeD(2) [OF spec [OF assms(2)] ws_claim(3)] by (intro claim [of j w]) (auto simp: working_on_def split: if_splits)
next
  case (ws_miss w i n p now r d)
  then have "working_on s' w' j \<longrightarrow> working_on s w' j" for w' j by (auto simp: working_on_def split: if_splits)
  moreover have "status d = status (wk_db s) \<or> status d = set_claimed (status (wk_db s)) i"
    using job_storeD(2) [OF spec [OF assms(2)] ws_miss(3)] by simp
  ultimately show ?thesis
    using ws_miss same claim [of i w] by (auto simp: set_claimed_def working_on_def split: if_splits)
next
  case (ws_ack w i m r d)
  then show ?thesis
    using job_storeD(3) [OF spec [OF assms(2)] ws_ack(3)] same release [of w i]
    by (auto simp: working_on_def split: if_splits)
next
  case (ws_retry w i m t r d)
  then show ?thesis
    using job_storeD(4) [OF spec [OF assms(2)] ws_retry(3)] same release [of w i]
    by (auto simp: working_on_def split: if_splits)
next
  case (ws_crash w)
  then show ?thesis by (intro same) (auto simp: working_on_def split: if_splits)
qed

lemma exclusive_keep:
  assumes "exclusive status s"
    and "\<And>w i. working_on s' w i \<Longrightarrow> working_on s w i \<and> status (wk_db s') i = status (wk_db s) i"
  shows "exclusive status s'"
  using assms unfolding exclusive_def by metis

lemma exclusive_step:
  assumes "workers_step a cfg s s'" "\<forall>w. job_store a (cfg w) status" "exclusive status s"
  shows "exclusive status s'"
  using assms(1,2)
proof (cases rule: workers_step_status)
  case same
  with assms(3) show ?thesis by (auto intro: exclusive_keep)
next
  case (put i)
  have "\<not> working_on s w i" for w using put(1) assms(3) by (auto simp: exclusive_def)
  then have "working_on s w j \<and> j \<noteq> i" if "working_on s' w j" for w j
    using that put(3) by metis
  then show ?thesis using put(2) by (intro exclusive_keep [OF assms(3)]) (simp only: fun_upd_apply if_False simp_thms)
next
  case (claim w i)
  have "\<not> working_on s w' i" for w' using claim(1) assms(3) by (auto simp: exclusive_def)
  with claim assms(3) show ?thesis unfolding exclusive_def by (metis fun_upd_apply)
next
  case (release w i)
  have "j \<noteq> i" if "working_on s' w' j" for w' j
    using that release(1,3) assms(3) unfolding exclusive_def by metis
  then have "working_on s w' j \<and> j \<noteq> i" if "working_on s' w' j" for w' j
    using that release(3) by metis
  moreover have "status (wk_db s') j = status (wk_db s) j" if "j \<noteq> i" for j
    using release(2) that by (auto simp: set_queued_def)
  ultimately show ?thesis by (intro exclusive_keep [OF assms(3)]) simp
qed

lemma exclusive_steps:
  "(workers_step a cfg)\<^sup>*\<^sup>* s s' \<Longrightarrow> \<forall>w. job_store a (cfg w) status \<Longrightarrow> exclusive status s \<Longrightarrow> exclusive status s'"
  by (induction rule: rtranclp_induct) (auto intro: exclusive_step)

definition all_idle :: "'d \<Rightarrow> 'd workers" where
  "all_idle d = \<lparr>wk_db = d, wk_phase = (\<lambda>w. Idle)\<rparr>"

section \<open>A table in memory\<close>

text \<open>Rows are id, status, name and payload; a database for the examples.\<close>

type_synonym job_rows = "(string \<times> string \<times> string \<times> string) list"

definition rows_status :: "job_rows \<Rightarrow> string \<rightharpoonup> string" where
  "rows_status rows i = map_option fst (map_of rows i)"

definition set_status :: "string \<Rightarrow> string \<Rightarrow> job_rows \<Rightarrow> job_rows" where
  "set_status i st rows = map (\<lambda>(j, s, rest). (j, if j = i then st else s, rest)) rows"

fun text_of :: "val \<Rightarrow> string" where
  "text_of (VStr s) = s"
| "text_of _ = []"

definition job_exec :: "sql_config \<Rightarrow> string \<Rightarrow> val list \<Rightarrow> job_rows \<Rightarrow> (string + db_result) \<times> job_rows" where
  "job_exec cfg q args rows =
     (if q = claim_job_statement cfg \<and> length args = 3 then
        (let i = text_of (args ! 2) in
         if rows_status rows i = Some queued
         then (Inr \<lparr>rows_affected = Inr 1, last_insert_id = Inr 0\<rparr>, set_status i processing rows)
         else (Inr \<lparr>rows_affected = Inr 0, last_insert_id = Inr 0\<rparr>, rows))
      else if q = ack_statement cfg \<and> length args = 1
      then (Inr \<lparr>rows_affected = Inr 1, last_insert_id = Inr 0\<rparr>, filter (\<lambda>r. fst r \<noteq> text_of (args ! 0)) rows)
      else if q = retry_statement cfg \<and> length args = 2
      then (Inr \<lparr>rows_affected = Inr 1, last_insert_id = Inr 0\<rparr>, set_status (text_of (args ! 1)) queued rows)
      else if q = insert_job_statement cfg \<and> length args = 5 \<and> rows_status rows (text_of (args ! 0)) = None
      then (Inr \<lparr>rows_affected = Inr 1, last_insert_id = Inr 0\<rparr>,
            (text_of (args ! 0), queued, text_of (args ! 1), text_of (args ! 2)) # rows)
      else (Inl ''refused'', rows))"

definition job_query :: "string \<Rightarrow> val list \<Rightarrow> job_rows \<Rightarrow> (string + db_rows) \<times> job_rows" where
  "job_query q args rows =
     (Inr \<lparr>rows_columns = None,
           rows_data = map (\<lambda>(i, st, n, p). Inr [VStr i, VStr n, VStr p])
             (take 1 (filter (\<lambda>(i, st, n, p). st = queued) rows)),
           rows_err = None\<rparr>, rows)"

definition job_adapter :: "sql_config \<Rightarrow> job_rows adapter" where
  "job_adapter cfg =
     (let eq = \<lparr>eq_exec = job_exec cfg, eq_query = job_query\<rparr>
      in \<lparr>ad_db = eq, ad_tx = eq, ad_begin = (\<lambda>d. (Inl ''no transactions'', d)),
          ad_commit = (\<lambda>d. (None, d)), ad_rollback = (\<lambda>d. (None, d))\<rparr>)"

lemma rows_status_set:
  "rows_status (set_status i st rows) =
     (if rows_status rows i = None then rows_status rows else (rows_status rows)(i \<mapsto> st))"
proof -
  have "map_of (set_status i st rows) j = map_option (\<lambda>(s, rest). (if j = i then st else s, rest)) (map_of rows j)" for j
    by (induction rows) (auto simp: set_status_def)
  then have "rows_status (set_status i st rows) j =
      (if j = i then map_option (\<lambda>s. st) (rows_status rows j) else rows_status rows j)" for j
    by (cases "map_of rows j") (auto simp: rows_status_def)
  then show ?thesis by (auto simp: fun_eq_iff)
qed

lemma rows_status_filter: "rows_status (filter (\<lambda>r. fst r \<noteq> i) rows) = (rows_status rows)(i := None)"
proof -
  have "map_of (filter (\<lambda>r. fst r \<noteq> i) rows) j = (if j = i then None else map_of rows j)" for j
    by (induction rows) auto
  then show ?thesis by (simp add: rows_status_def fun_eq_iff)
qed

lemma job_adapter_store: "job_store (job_adapter cfg) cfg rows_status"
proof -
  have "rows_status ((i, queued, n, p) # rows) = (rows_status rows)(i \<mapsto> queued)" for i n p rows
    by (simp add: rows_status_def fun_eq_iff)
  then show ?thesis
    by (simp add: job_store_def job_adapter_def job_query_def job_exec_def effect_def Let_def rows_status_set
        rows_status_filter set_claimed_def set_queued_def)
qed

section \<open>Guarantees\<close>

text \<open>
  C7. A job runs on one worker at a time: however the statements of the workers interleave,
  and wherever they crash, no two of them ever work on the same job, and a job that is worked
  on is marked as such in the table.
\<close>

theorem job_runs_on_one_worker:
  assumes "\<forall>w. job_store a (cfg w) status" "(workers_step a cfg)\<^sup>*\<^sup>* (all_idle d) s"
    and "wk_phase s w = Working i m"
  shows "status (wk_db s) i = Some processing \<and> (\<forall>w' m'. w' = w \<or> wk_phase s w' \<noteq> Working i m')"
proof -
  have "exclusive status (all_idle d)" by (simp add: exclusive_def all_idle_def working_on_def)
  then have "exclusive status s" by (rule exclusive_steps [OF assms(2,1)])
  with assms(3) show ?thesis unfolding exclusive_def working_on_def by blast
qed

definition demo_cfg :: sql_config where
  "demo_cfg = new_sql_backend ''0a1b2c3d'' \<lparr>sc_table = [], sc_dialect = ''sqlite'', sc_node_id = [], sc_poll_interval = 0, sc_retry_delay = 0\<rparr>"

definition claimed_state :: "job_rows workers" where
  "claimed_state = \<lparr>wk_db = [(''j1'', processing, ''mail'', [])],
     wk_phase = (\<lambda>w. Idle)(0 := Working ''j1'' \<lparr>msg_name = ''mail'', msg_payload = []\<rparr>)\<rparr>"

lemma claimed_reachable:
  "(workers_step (job_adapter demo_cfg) (\<lambda>w. demo_cfg))\<^sup>*\<^sup>* (all_idle [(''j1'', queued, ''mail'', [])]) claimed_state"
proof -
  let ?s0 = "all_idle [(''j1'', queued, ''mail'', [] :: string)]"
  let ?s1 = "?s0\<lparr>wk_db := [(''j1'', queued, ''mail'', [] :: string)], wk_phase := (wk_phase ?s0)(0 := Selected ''j1'' ''mail'' [])\<rparr>"
  have "workers_step (job_adapter demo_cfg) (\<lambda>w. demo_cfg) ?s0 ?s1"
    by (rule ws_select [where now = 5]) (simp_all add: all_idle_def claim_select_def job_adapter_def job_query_def Let_def)
  moreover have "workers_step (job_adapter demo_cfg) (\<lambda>w. demo_cfg) ?s1
      (?s1\<lparr>wk_db := [(''j1'', processing, ''mail'', [])],
           wk_phase := (wk_phase ?s1)(0 := Working ''j1'' \<lparr>msg_name = ''mail'', msg_payload = []\<rparr>)\<rparr>)"
    by (rule ws_claim [where now = 5 and i = "''j1''" and n = "''mail''" and p = "[]"])
      (simp_all add: all_idle_def claim_update_def run_exec_def job_adapter_def Let_def job_exec_def rows_status_def set_status_def b64_decode_def)
  moreover have "?s1\<lparr>wk_db := [(''j1'', processing, ''mail'', [])],
           wk_phase := (wk_phase ?s1)(0 := Working ''j1'' \<lparr>msg_name = ''mail'', msg_payload = []\<rparr>)\<rparr> = claimed_state"
    by (simp add: claimed_state_def all_idle_def)
  ultimately show ?thesis by auto
qed

theorem job_runs_on_one_worker_example:
  "rows_status (wk_db claimed_state) ''j1'' = Some processing"
proof -
  have "wk_phase claimed_state 0 = Working ''j1'' \<lparr>msg_name = ''mail'', msg_payload = []\<rparr>"
    by (simp add: claimed_state_def)
  moreover have "\<forall>w. job_store (job_adapter demo_cfg) ((\<lambda>w. demo_cfg) (w :: nat)) rows_status"
    by (simp add: job_adapter_store)
  ultimately show ?thesis using job_runs_on_one_worker [OF _ claimed_reachable] by blast
qed

text \<open>
  A job whose worker dies is lost: once a job is marked as processing and nobody works
  on it, no step of any worker or producer ever changes that again.
\<close>

theorem abandoned_job_is_stuck:
  assumes "\<forall>w. job_store a (cfg w) status" "(workers_step a cfg)\<^sup>*\<^sup>* s s'"
    and "status (wk_db s) i = Some processing" "\<forall>w. \<not> working_on s w i"
  shows "status (wk_db s') i = Some processing \<and> (\<forall>w. \<not> working_on s' w i)"
  using assms(2)
proof (induction rule: rtranclp_induct)
  case base
  with assms(3,4) show ?case by simp
next
  case (step s1 s2)
  from step(2) assms(1) show ?case
  proof (cases rule: workers_step_status)
    case same
    with step.IH show ?thesis by metis
  next
    case (put j)
    with step.IH show ?thesis by (metis fun_upd_apply option.distinct(1))
  next
    case (claim w j)
    with step.IH have "j \<noteq> i" by auto
    with claim step.IH show ?thesis by (metis fun_upd_apply)
  next
    case (release w j)
    with step.IH have "j \<noteq> i" by auto
    with release step.IH show ?thesis by (auto simp: set_queued_def)
  qed
qed

theorem abandoned_job_is_stuck_example:
  "rows_status (wk_db (claimed_state\<lparr>wk_phase := (\<lambda>w. Idle)\<rparr>)) ''j1'' = Some processing"
proof -
  let ?s = "claimed_state\<lparr>wk_phase := (\<lambda>w. Idle)\<rparr>"
  have "rows_status (wk_db ?s) ''j1'' = Some processing" by (simp add: claimed_state_def rows_status_def)
  moreover have "\<forall>w. \<not> working_on ?s w ''j1''" by (simp add: working_on_def)
  moreover have "\<forall>w. job_store (job_adapter demo_cfg) ((\<lambda>w. demo_cfg) (w :: nat)) rows_status"
    by (simp add: job_adapter_store)
  ultimately show ?thesis using abandoned_job_is_stuck [OF _ rtranclp.rtrancl_refl] by blast
qed

end
