(* ===== verification/Jobs_Cron.thy ===== *)
theory Jobs_Cron imports Go_Strconv begin

text \<open>
  Package \<open>jobs\<close>, cron.go: schedules of recurring tasks. A task is named by what it does
  (the type \<open>'t\<close>); \<open>Start\<close> takes a copy of the entries and runs one ticker for each, until the
  context is done. A ticker of a duration that is not positive panics, as \<open>time.NewTicker\<close>
  does.
\<close>

datatype spec_error = InvalidSchedule string | ScheduleNotPositive

definition every :: string where "every = ''@every ''"

definition parse_spec :: "(nat \<Rightarrow> nat \<Rightarrow> nat \<Rightarrow> nat) \<Rightarrow> string \<Rightarrow> spec_error + int" where
  "parse_spec frac spec =
     (let spec = trim_space spec;
          spec = (if prefix every spec then trim_space (drop (length every) spec) else spec)
      in case parse_duration frac spec of
           None \<Rightarrow> Inl (InvalidSchedule spec)
         | Some d \<Rightarrow> if d \<le> 0 then Inl ScheduleNotPositive else Inr d)"

record 't schedule_entry =
  se_name :: string
  se_interval :: int
  se_task :: 't

text \<open>\<open>Scheduler\<close> is its entries; \<open>Add\<close> changes them under the lock, in one step.\<close>

type_synonym 't scheduler = "'t schedule_entry list"

definition new_scheduler :: "'t scheduler" where
  "new_scheduler = []"

definition scheduler_add ::
  "(nat \<Rightarrow> nat \<Rightarrow> nat \<Rightarrow> nat) \<Rightarrow> string \<Rightarrow> string \<Rightarrow> 't \<Rightarrow> 't scheduler \<Rightarrow> 't scheduler \<times> spec_error option" where
  "scheduler_add frac name spec task s =
     (case parse_spec frac spec of
        Inl e \<Rightarrow> (s, Some e)
      | Inr interval \<Rightarrow> (s @ [\<lparr>se_name = name, se_interval = interval, se_task = task\<rparr>], None))"

text \<open>
  A started scheduler: the copy of the entries, what the tickers of the copy have fired so
  far, and whether a ticker panicked. A step starts the tickers, adds an entry to the
  scheduler, or fires one ticker.
\<close>

record 't running =
  rn_scheduler :: "'t scheduler"
  rn_copy :: "'t scheduler option"
  rn_fired :: "'t list"
  rn_panicked :: bool

definition start_tickers :: "'t running \<Rightarrow> 't running" where
  "start_tickers r =
     r\<lparr>rn_copy := Some (rn_scheduler r),
       rn_panicked := (rn_panicked r \<or> (\<exists>e\<in>set (rn_scheduler r). se_interval e \<le> 0))\<rparr>"

inductive scheduler_step :: "(nat \<Rightarrow> nat \<Rightarrow> nat \<Rightarrow> nat) \<Rightarrow> 't running \<Rightarrow> 't running \<Rightarrow> bool"
  for frac where
  step_add: "scheduler_add frac name spec task (rn_scheduler r) = (s', err) \<Longrightarrow>
    scheduler_step frac r (r\<lparr>rn_scheduler := s'\<rparr>)"
| step_start: "rn_copy r = None \<Longrightarrow> scheduler_step frac r (start_tickers r)"
| step_fire: "rn_copy r = Some es \<Longrightarrow> e \<in> set es \<Longrightarrow>
    scheduler_step frac r (r\<lparr>rn_fired := rn_fired r @ [se_task e]\<rparr>)"

inductive_cases scheduler_stepE: "scheduler_step frac r r'"

definition not_started :: "'t running" where
  "not_started = \<lparr>rn_scheduler = new_scheduler, rn_copy = None, rn_fired = [], rn_panicked = False\<rparr>"

section \<open>Specifications\<close>

lemma parse_spec_positive: "parse_spec frac spec = Inr d \<Longrightarrow> 0 < d \<and> d < 2 ^ 63"
  by (auto simp: parse_spec_def Let_def split: option.splits if_splits dest: parse_duration_bounds)

lemma units_text_Cons: "units_text ((n, u) # ts) = show_nat n @ u @ units_text ts"
  by (simp add: units_text_def)

text \<open>Text that starts with a digit and ends in the \<open>s\<close>, \<open>m\<close> or \<open>h\<close> of a unit is not trimmed.\<close>

lemma unit_map_last: "unit_map u = Some w \<Longrightarrow> u \<noteq> [] \<and> last u \<in> set ''smh''"
  by (auto simp: unit_map_def split: if_splits)

lemma clear_of_hd: "(\<And>e. e \<in> set es \<Longrightarrow> e \<noteq> [] \<Longrightarrow> hd e \<noteq> c) \<Longrightarrow> clear_of es (c # cs)"
  by (fastforce simp: clear_of_def prefix_Cons)

lemma trim_units:
  assumes "s \<noteq> []" "is_digit (hd s)" "last s \<in> set ''smh''"
  shows "trim_space s = s"
proof (rule trim_space_id)
  show "clear_of space_codes s"
    using assms(1,2) by (cases s) (auto intro!: clear_of_hd simp: space_codes_def is_digit_nat)
  obtain d ds where r: "rev s = d # ds" using assms(1) by (cases "rev s") auto
  then have "d \<in> set ''smh''" using assms(1,3) by (metis hd_rev list.sel(1))
  then show "clear_of (map rev space_codes) (rev s)"
    unfolding r by (intro clear_of_hd) (auto simp: space_codes_def)
qed

lemma units_text_ends:
  assumes "\<forall>(n, u)\<in>set ts. unit_map u \<noteq> None" "ts \<noteq> []"
  shows "units_text ts \<noteq> [] \<and> is_digit (hd (units_text ts)) \<and> last (units_text ts) \<in> set ''smh''"
  using assms(2,1)
proof (induction ts rule: list_nonempty_induct)
  case (single t)
  then show ?case using unit_map_last by (fastforce simp: units_text_def hd_show_nat_digit)
next
  case (cons t ts)
  then show ?case by (auto simp: units_text_def hd_show_nat_digit)
qed

lemma not_every: "is_digit (hd s) \<Longrightarrow> \<not> prefix every s"
  by (cases s) (auto simp: every_def is_digit_nat)


text \<open>
  A schedule of whole units reads back as their sum, with or without \<open>@every\<close>, and whatever
  white space is around it.
\<close>

lemma parse_spec_units:
  assumes "\<forall>(n, u)\<in>set ts. unit_map u \<noteq> None" "0 < units_value ts" "units_value ts < 2 ^ 63"
  shows "parse_spec frac (units_text ts) = Inr (int (units_value ts)) \<and>
    parse_spec frac (every @ units_text ts) = Inr (int (units_value ts))"
proof -
  have ne: "ts \<noteq> []" using assms(2) by (auto simp: units_value_def)
  note ends = units_text_ends [OF assms(1) ne]
  have t: "trim_space (units_text ts) = units_text ts"
    using ends by (intro trim_units) auto
  have "trim_space (every @ units_text ts) = every @ units_text ts"
  proof (rule trim_space_id)
    show "clear_of space_codes (every @ units_text ts)"
      unfolding every_def append_Cons by (rule clear_of_hd) (auto simp: space_codes_def)
    have "clear_of (map rev space_codes) (rev (units_text ts))"
      using trim_space_clear [of "units_text ts"] t by simp
    moreover obtain d ds where "rev (units_text ts) = d # ds" using ends by (cases "rev (units_text ts)") auto
    moreover have "d \<in> set ''smh''" using calculation(2) ends by (metis hd_rev list.sel(1))
    ultimately show "clear_of (map rev space_codes) (rev (every @ units_text ts))"
      by (auto intro!: clear_of_hd simp: space_codes_def)
  qed
  then show ?thesis
    using t parse_duration_whole [OF assms(1) ne assms(3), of frac] assms(2) not_every ends
    by (simp add: parse_spec_def)
qed

section \<open>Running\<close>

definition entries_ok :: "'t scheduler \<Rightarrow> bool" where
  "entries_ok s \<longleftrightarrow> (\<forall>e\<in>set s. 0 < se_interval e \<and> se_interval e < 2 ^ 63)"

lemma scheduler_add_ok: "entries_ok s \<Longrightarrow> scheduler_add frac name spec task s = (s', err) \<Longrightarrow> entries_ok s'"
  by (auto simp: scheduler_add_def entries_ok_def split: sum.splits dest!: parse_spec_positive)

definition running_ok :: "'t running \<Rightarrow> bool" where
  "running_ok r \<longleftrightarrow> entries_ok (rn_scheduler r) \<and> \<not> rn_panicked r \<and>
     set (rn_fired r) \<subseteq> se_task ` (case rn_copy r of None \<Rightarrow> {} | Some es \<Rightarrow> set es)"

lemma scheduler_step_ok: "scheduler_step frac r r' \<Longrightarrow> running_ok r \<Longrightarrow> running_ok r'"
  by (erule scheduler_stepE)
    (auto simp: running_ok_def start_tickers_def dest: scheduler_add_ok, auto simp: entries_ok_def)

lemma scheduler_steps_ok:
  assumes "(scheduler_step frac)\<^sup>*\<^sup>* not_started r"
  shows "running_ok r"
  using assms
proof (induction rule: rtranclp_induct)
  case base
  then show ?case by (simp add: running_ok_def not_started_def new_scheduler_def entries_ok_def)
next
  case (step r r')
  then show ?case by (blast intro: scheduler_step_ok)
qed

section \<open>What schedules guarantee\<close>

text \<open>
  A schedule of whole units means the sum of its terms, in nanoseconds: \<open>1h30m\<close> and
  \<open>@every 1h30m\<close> are the same interval, and no sum within 64 bits is misread.
\<close>

theorem schedule_reads_back:
  assumes "\<forall>(n, u)\<in>set ts. unit_map u \<noteq> None" "0 < units_value ts" "units_value ts < 2 ^ 63"
  shows "parse_spec frac (units_text ts) = Inr (int (units_value ts)) \<and>
    parse_spec frac (every @ units_text ts) = Inr (int (units_value ts))"
  by (rule parse_spec_units [OF assms])

theorem schedule_reads_back_example:
  "parse_spec (\<lambda>f k unit. f * unit div 10 ^ k) ''@every 1h30m'' = Inr 5400000000000"
proof -
  have t: "units_text [(1, ''h''), (30, ''m'')] = ''1h30m''" by code_simp
  have v: "units_value [(1, ''h''), (30, ''m'')] = 5400000000000" by (simp add: units_value_def unit_map_def)
  show ?thesis
    using schedule_reads_back [of "[(1, ''h''), (30, ''m'')]", unfolded t v] by (simp add: unit_map_def every_def)
qed

text \<open>
  C40. The tickers of a scheduler never panic: in every reachable state every interval is
  positive and fits a duration, however the specifications were written, and only tasks of the
  entries present at the start ever run.
\<close>

theorem schedules_stay_positive:
  assumes "(scheduler_step frac)\<^sup>*\<^sup>* not_started r"
  shows "\<not> rn_panicked r \<and> (\<forall>e\<in>set (rn_scheduler r). 0 < se_interval e \<and> se_interval e < 2 ^ 63) \<and>
    set (rn_fired r) \<subseteq> se_task ` (case rn_copy r of None \<Rightarrow> {} | Some es \<Rightarrow> set es)"
  using scheduler_steps_ok [OF assms] unfolding running_ok_def entries_ok_def by blast

definition late_entry :: "string running" where
  "late_entry =
     (let add = (\<lambda>name spec r. r\<lparr>rn_scheduler :=
        fst (scheduler_add (\<lambda>f k unit. f * unit div 10 ^ k) name spec name (rn_scheduler r))\<rparr>)
      in add ''late'' ''1s'' (start_tickers (add ''tick'' ''@every 1.5h'' not_started)))"

lemma late_entry_reachable: "(scheduler_step (\<lambda>f k unit. f * unit div 10 ^ k))\<^sup>*\<^sup>* not_started late_entry"
proof -
  let ?f = "\<lambda>f k unit. f * unit div 10 ^ k :: nat"
  have add: "scheduler_step ?f r (r\<lparr>rn_scheduler := fst (scheduler_add ?f name spec name (rn_scheduler r))\<rparr>)"
    for r :: "string running" and name spec
    by (rule step_add) (rule prod.collapse [symmetric])
  have "rn_copy (r\<lparr>rn_scheduler := s\<rparr>) = rn_copy r" for r :: "string running" and s by simp
  then have start: "scheduler_step ?f (not_started\<lparr>rn_scheduler := s\<rparr>) (start_tickers (not_started\<lparr>rn_scheduler := s\<rparr>))"
    for s :: "string scheduler"
    by (intro step_start) (simp add: not_started_def)
  let ?add = "\<lambda>name spec r. r\<lparr>rn_scheduler := fst (scheduler_add ?f name spec name (rn_scheduler r))\<rparr> :: string running"
  have "(scheduler_step ?f)\<^sup>*\<^sup>* not_started (start_tickers (?add ''tick'' ''@every 1.5h'' not_started))"
    by (rule converse_rtranclp_into_rtranclp, rule add) (rule r_into_rtranclp, rule start)
  then show ?thesis unfolding late_entry_def Let_def by (rule rtranclp.rtrancl_into_rtrancl) (rule add)
qed

theorem schedules_stay_positive_example: "\<not> rn_panicked late_entry"
  using schedules_stay_positive [OF late_entry_reachable] by blast

end
