(* ===== verification/Jobs_Brokers.thy ===== *)
theory Jobs_Brokers imports Jobs_Queue Go_Encoding "HOL-Library.Sublist" begin

text \<open>
  Package \<open>jobs\<close>: the queues on Redis (redis.go) and Kafka (kafka.go), and the interface
  \<open>Queue\<close> (queue.go) as a locale that they and the in-memory queue implement. The clients are
  parameters over a state of their own, and \<open>encoding/json\<close> is a pair of functions. A worker is
  said by one turn of its loop; the flag of a turn is whether the context is done.
\<close>

datatype broker_error = ClientNil | EncodeFailed string | BrokerFailed string
datatype loop_turn = LoopEnds | LoopBacksOff | LoopSkips | LoopHandles message

section \<open>Redis\<close>

record 's redis_client =
  rc_lpush :: "string \<Rightarrow> string \<Rightarrow> 's \<Rightarrow> string option \<times> 's"
  rc_brpop :: "int \<Rightarrow> string \<Rightarrow> 's \<Rightarrow> (string + string) \<times> 's"
  rc_close :: "'s \<Rightarrow> string option \<times> 's"

record redis_config =
  rq_key :: string
  rq_pop_timeout :: int
  rq_poll_backoff :: int

record 's redis_queue =
  rq_client :: "'s redis_client option"
  rq_cfg :: redis_config

definition second :: int where "second = 1000000000"

definition new_redis_queue :: "'s redis_client option \<Rightarrow> redis_config \<Rightarrow> 's redis_queue" where
  "new_redis_queue client cfg =
     \<lparr>rq_client = client,
      rq_cfg = \<lparr>rq_key = (if rq_key cfg = [] then ''elgon:jobs'' else rq_key cfg),
        rq_pop_timeout = (if rq_pop_timeout cfg \<le> 0 then second else rq_pop_timeout cfg),
        rq_poll_backoff = (if rq_poll_backoff cfg \<le> 0 then 100 * 1000000 else rq_poll_backoff cfg)\<rparr>\<rparr>"

definition redis_enqueue ::
  "(message \<Rightarrow> string + string) \<Rightarrow> 's redis_queue \<Rightarrow> message \<Rightarrow> 's \<Rightarrow> broker_error option \<times> 's" where
  "redis_enqueue encode q m s =
     (case rq_client q of
        None \<Rightarrow> (Some ClientNil, s)
      | Some rc \<Rightarrow>
          (case encode m of
             Inl e \<Rightarrow> (Some (EncodeFailed e), s)
           | Inr b \<Rightarrow> (case rc_lpush rc (rq_key (rq_cfg q)) b s of (err, s') \<Rightarrow> (map_option BrokerFailed err, s'))))"

definition redis_turn ::
  "(string \<Rightarrow> message option) \<Rightarrow> 's redis_queue \<Rightarrow> bool \<Rightarrow> 's \<Rightarrow> loop_turn \<times> 's" where
  "redis_turn decode q done_ctx s =
     (case rq_client q of
        None \<Rightarrow> (LoopEnds, s)
      | Some rc \<Rightarrow>
          if done_ctx then (LoopEnds, s)
          else
            (case rc_brpop rc (rq_pop_timeout (rq_cfg q)) (rq_key (rq_cfg q)) s of
               (Inl err, s') \<Rightarrow> (LoopBacksOff, s')
             | (Inr raw, s') \<Rightarrow> (case decode raw of None \<Rightarrow> (LoopSkips, s') | Some m \<Rightarrow> (LoopHandles m, s'))))"

definition redis_close :: "'s redis_queue \<Rightarrow> 's \<Rightarrow> 's" where
  "redis_close q s = (case rq_client q of None \<Rightarrow> s | Some rc \<Rightarrow> snd (rc_close rc s))"

section \<open>Kafka\<close>

record 's kafka_producer =
  kp_publish :: "string \<Rightarrow> string \<Rightarrow> string \<Rightarrow> 's \<Rightarrow> string option \<times> 's"
  kp_close :: "'s \<Rightarrow> string option \<times> 's"

record 's kafka_consumer =
  kc_poll :: "int \<Rightarrow> 's \<Rightarrow> (string + string) \<times> 's"
  kc_close :: "'s \<Rightarrow> string option \<times> 's"

record kafka_config =
  kq_topic :: string
  kq_poll_timeout :: int

record 's kafka_queue =
  kq_producer :: "'s kafka_producer option"
  kq_consumer :: "'s kafka_consumer option"
  kq_cfg :: kafka_config

definition new_kafka_queue ::
  "'s kafka_producer option \<Rightarrow> 's kafka_consumer option \<Rightarrow> kafka_config \<Rightarrow> 's kafka_queue" where
  "new_kafka_queue producer consumer cfg =
     \<lparr>kq_producer = producer, kq_consumer = consumer,
      kq_cfg = \<lparr>kq_topic = (if kq_topic cfg = [] then ''elgon.jobs'' else kq_topic cfg),
        kq_poll_timeout = (if kq_poll_timeout cfg \<le> 0 then second else kq_poll_timeout cfg)\<rparr>\<rparr>"

definition kafka_enqueue ::
  "(message \<Rightarrow> string + string) \<Rightarrow> 's kafka_queue \<Rightarrow> message \<Rightarrow> 's \<Rightarrow> broker_error option \<times> 's" where
  "kafka_enqueue encode q m s =
     (case kq_producer q of
        None \<Rightarrow> (Some ClientNil, s)
      | Some kp \<Rightarrow>
          (case encode m of
             Inl e \<Rightarrow> (Some (EncodeFailed e), s)
           | Inr v \<Rightarrow>
               (case kp_publish kp (kq_topic (kq_cfg q)) (msg_name m) v s of
                  (err, s') \<Rightarrow> (map_option BrokerFailed err, s'))))"

definition kafka_turn ::
  "(string \<Rightarrow> message option) \<Rightarrow> 's kafka_queue \<Rightarrow> bool \<Rightarrow> 's \<Rightarrow> loop_turn \<times> 's" where
  "kafka_turn decode q done_ctx s =
     (case kq_consumer q of
        None \<Rightarrow> (LoopEnds, s)
      | Some kc \<Rightarrow>
          if done_ctx then (LoopEnds, s)
          else
            (case kc_poll kc (kq_poll_timeout (kq_cfg q)) s of
               (Inl err, s') \<Rightarrow> (LoopSkips, s')
             | (Inr payload, s') \<Rightarrow>
                 (case decode payload of None \<Rightarrow> (LoopSkips, s') | Some m \<Rightarrow> (LoopHandles m, s'))))"

definition kafka_close :: "'s kafka_queue \<Rightarrow> 's \<Rightarrow> 's" where
  "kafka_close q s =
     (let s = (case kq_producer q of None \<Rightarrow> s | Some kp \<Rightarrow> snd (kp_close kp s))
      in case kq_consumer q of None \<Rightarrow> s | Some kc \<Rightarrow> snd (kc_close kc s))"

section \<open>The interface\<close>

text \<open>
  A history of calls: \<open>Enqueue\<close>, and turns of one worker. The result is what \<open>Enqueue\<close>
  accepted and what the handler was given.
\<close>

datatype queue_action = Put message | Turn bool

fun run_queue ::
  "(message \<Rightarrow> 's \<Rightarrow> 'e option \<times> 's) \<Rightarrow> (bool \<Rightarrow> 's \<Rightarrow> loop_turn \<times> 's) \<Rightarrow> queue_action list \<Rightarrow> 's \<Rightarrow>
   message list \<times> message list \<times> 's" where
  "run_queue enq turn [] s = ([], [], s)"
| "run_queue enq turn (Put m # acts) s =
     (case enq m s of
        (err, s1) \<Rightarrow>
          (case run_queue enq turn acts s1 of
             (acc, hnd, s2) \<Rightarrow> ((if err = None then m # acc else acc), hnd, s2)))"
| "run_queue enq turn (Turn d # acts) s =
     (case turn d s of
        (t, s1) \<Rightarrow>
          (case run_queue enq turn acts s1 of
             (acc, hnd, s2) \<Rightarrow> (acc, (case t of LoopHandles m \<Rightarrow> m # hnd | _ \<Rightarrow> hnd), s2)))"

fun puts :: "queue_action list \<Rightarrow> message list" where
  "puts [] = []"
| "puts (Put m # acts) = m # puts acts"
| "puts (Turn d # acts) = puts acts"

text \<open>
  The contract: messages wait in lanes; \<open>Enqueue\<close> puts a message at the end of its lane, and
  when it fails it may have done so or not; a turn takes the first of some lane.
\<close>

locale message_queue =
  fixes enq :: "message \<Rightarrow> 's \<Rightarrow> 'e option \<times> 's"
    and turn :: "bool \<Rightarrow> 's \<Rightarrow> loop_turn \<times> 's"
    and waiting :: "'s \<Rightarrow> 'l \<Rightarrow> message list"
    and lane :: "message \<Rightarrow> 'l"
    and good :: "message \<Rightarrow> bool"
    and valid :: "'s \<Rightarrow> bool"
  assumes enq_law: "valid s \<Longrightarrow> good m \<Longrightarrow> enq m s = (err, s') \<Longrightarrow>
      valid s' \<and> (waiting s' = (waiting s)(lane m := waiting s (lane m) @ [m]) \<or>
        err \<noteq> None \<and> waiting s' = waiting s)"
    and turn_law: "valid s \<Longrightarrow> turn d s = (t, s') \<Longrightarrow>
      valid s' \<and> (case t of LoopHandles m \<Rightarrow> waiting s = (waiting s')(lane m := m # waiting s' (lane m))
        | _ \<Rightarrow> waiting s' = waiting s)"
begin

text \<open>
  What entered lies between what was accepted and what was asked for; each lane hands over,
  in order, what was waiting and what entered.
\<close>

lemma order_kept:
  "run_queue enq turn acts s = (acc, hnd, s') \<Longrightarrow> valid s \<Longrightarrow> list_all good (puts acts) \<Longrightarrow>
     \<exists>entered. subseq acc entered \<and> subseq entered (puts acts) \<and>
       (\<forall>l. waiting s l @ filter (\<lambda>m. lane m = l) entered = filter (\<lambda>m. lane m = l) hnd @ waiting s' l)"
proof (induction acts arbitrary: s acc hnd)
  case Nil
  then show ?case by auto
next
  case (Cons act acts)
  show ?case
  proof (cases act)
    case (Put m)
    obtain err s1 where e: "enq m s = (err, s1)" by (cases "enq m s")
    obtain acc1 hnd1 where r: "run_queue enq turn acts s1 = (acc1, hnd1, s')"
      and acc: "acc = (if err = None then m # acc1 else acc1)" "hnd = hnd1"
      using Cons.prems(1) Put e by (auto split: prod.splits if_splits)
    have law: "valid s1" "waiting s1 = (waiting s)(lane m := waiting s (lane m) @ [m]) \<or>
        err \<noteq> None \<and> waiting s1 = waiting s"
      using enq_law [OF Cons.prems(2) _ e] Cons.prems(3) Put by auto
    obtain entered where en: "subseq acc1 entered" "subseq entered (puts acts)"
      "\<And>l. waiting s1 l @ filter (\<lambda>m. lane m = l) entered = filter (\<lambda>m. lane m = l) hnd1 @ waiting s' l"
      using Cons.IH [OF r law(1)] Cons.prems(3) Put by auto
    from law(2) show ?thesis
    proof
      assume w: "waiting s1 = (waiting s)(lane m := waiting s (lane m) @ [m])"
      show ?thesis
      proof (intro exI [of _ "m # entered"] conjI allI)
        show "subseq acc (m # entered)" using en(1) acc by (auto intro: subseq_Cons')
        show "subseq (m # entered) (puts (act # acts))" using en(2) Put by simp
        show "waiting s l @ filter (\<lambda>m. lane m = l) (m # entered) = filter (\<lambda>m. lane m = l) hnd @ waiting s' l" for l
          using en(3) [of l] w acc by auto
      qed
    next
      assume "err \<noteq> None \<and> waiting s1 = waiting s"
      then show ?thesis using en acc Put by (intro exI [of _ entered]) (auto intro: subseq_Cons')
    qed
  next
    case (Turn d)
    obtain t s1 where e: "turn d s = (t, s1)" by (cases "turn d s")
    obtain hnd1 where r: "run_queue enq turn acts s1 = (acc, hnd1, s')"
      and hnd: "hnd = (case t of LoopHandles m \<Rightarrow> m # hnd1 | _ \<Rightarrow> hnd1)"
      using Cons.prems(1) Turn e by (auto split: prod.splits)
    note law = turn_law [OF Cons.prems(2) e]
    obtain entered where en: "subseq acc entered" "subseq entered (puts acts)"
      "\<And>l. waiting s1 l @ filter (\<lambda>m. lane m = l) entered = filter (\<lambda>m. lane m = l) hnd1 @ waiting s' l"
      using Cons.IH [OF r] law Cons.prems(3) Turn by auto
    have "waiting s l @ filter (\<lambda>m. lane m = l) entered = filter (\<lambda>m. lane m = l) hnd @ waiting s' l" for l
      using en(3) [of l] law hnd by (cases t) auto
    then show ?thesis using en(1,2) Turn by auto
  qed
qed

end

section \<open>The in-memory queue as a \<open>Queue\<close>\<close>

text \<open>
  One call of \<open>Enqueue\<close> with nothing in between: a full buffer makes it wait until its context
  is done. A worker that finds the buffer empty waits.
\<close>

definition mem_enqueue :: "message \<Rightarrow> mem_queue \<Rightarrow> enqueue_result option \<times> mem_queue" where
  "mem_enqueue m q =
     (case enqueue_check m q of
        (Some r, q1) \<Rightarrow> (Some r, q1)
      | (None, q1) \<Rightarrow>
          (case enqueue_send m q1 of
             Some (r, q2) \<Rightarrow> (if r = EnqueueOk then None else Some r, q2)
           | None \<Rightarrow> (case enqueue_cancel m q1 of (r, q2) \<Rightarrow> (Some r, q2))))"

definition mem_turn :: "bool \<Rightarrow> mem_queue \<Rightarrow> loop_turn \<times> mem_queue" where
  "mem_turn d q =
     (case worker_receive q of
        None \<Rightarrow> (LoopBacksOff, q)
      | Some (Handle m, q') \<Rightarrow> (LoopHandles m, q')
      | Some (WorkerEnds, q') \<Rightarrow> (LoopEnds, q'))"

interpretation mem: message_queue mem_enqueue mem_turn "\<lambda>q (l :: unit). mq_buffer q" "\<lambda>m. ()" "\<lambda>m. True"
  "\<lambda>q. mq_sending q = []"
  by unfold_locales
    (auto simp: mem_enqueue_def enqueue_check_def enqueue_send_def enqueue_cancel_def mem_turn_def
      worker_receive_def fun_eq_iff Let_def split: if_splits list.splits)

section \<open>Clients and codecs\<close>

text \<open>
  What the queues rely on: \<open>LPUSH\<close> puts a value in front of a list, \<open>BRPOP\<close> takes its last one,
  and a call that fails may have been carried out when it was a push; a Kafka topic keeps the
  values of a key in order; and \<open>encoding/json\<close> reads back the messages it writes (those of
  \<open>good\<close>: a name that is not UTF-8 is changed).
\<close>

definition redis_laws :: "'s redis_client \<Rightarrow> ('s \<Rightarrow> string \<Rightarrow> string list) \<Rightarrow> bool" where
  "redis_laws rc items \<longleftrightarrow>
     (\<forall>key v s err s'. rc_lpush rc key v s = (err, s') \<longrightarrow>
        items s' key = v # items s key \<or> err \<noteq> None \<and> items s' key = items s key) \<and>
     (\<forall>t key s r s'. rc_brpop rc t key s = (r, s') \<longrightarrow>
        (case r of Inl e \<Rightarrow> items s' key = items s key | Inr v \<Rightarrow> items s key = items s' key @ [v]))"

definition kafka_laws ::
  "'s kafka_producer \<Rightarrow> 's kafka_consumer \<Rightarrow> string \<Rightarrow> ('s \<Rightarrow> string \<Rightarrow> string list) \<Rightarrow> bool" where
  "kafka_laws kp kc topic contents \<longleftrightarrow>
     (\<forall>key v s err s'. kp_publish kp topic key v s = (err, s') \<longrightarrow>
        contents s' = (contents s)(key := contents s key @ [v]) \<or> err \<noteq> None \<and> contents s' = contents s) \<and>
     (\<forall>t s r s'. kc_poll kc t s = (r, s') \<longrightarrow>
        (case r of Inl e \<Rightarrow> contents s' = contents s
         | Inr v \<Rightarrow> \<exists>key. contents s = (contents s')(key := v # contents s' key)))"

definition codec_laws ::
  "(message \<Rightarrow> string + string) \<Rightarrow> (string \<Rightarrow> message option) \<Rightarrow> (message \<Rightarrow> bool) \<Rightarrow> bool" where
  "codec_laws encode decode good \<longleftrightarrow> (\<forall>m. good m \<longrightarrow> (\<exists>v. encode m = Inr v \<and> decode v = Some m))"

definition decoded :: "(string \<Rightarrow> message option) \<Rightarrow> string list \<Rightarrow> message list" where
  "decoded decode vs = List.map_filter decode vs"

lemma decoded_simps [simp]:
  "decoded decode [] = []"
  "decoded decode (v # vs) = (case decode v of None \<Rightarrow> decoded decode vs | Some m \<Rightarrow> m # decoded decode vs)"
  "decoded decode (vs @ ws) = decoded decode vs @ decoded decode ws"
  by (auto simp: decoded_def map_filter_simps List.map_filter_def split: option.split)

lemma redis_message_queue:
  assumes "rq_client q = Some rc" "redis_laws rc items" "codec_laws encode decode good"
  shows "message_queue (redis_enqueue encode q) (redis_turn decode q)
    (\<lambda>s (l :: unit). decoded decode (rev (items s (rq_key (rq_cfg q))))) (\<lambda>m. ()) good (\<lambda>s. True)"
proof
  fix s m err s' assume "good m" and e: "redis_enqueue encode q m s = (err, s')"
  then obtain v where v: "encode m = Inr v" "decode v = Some m" using assms(3) by (auto simp: codec_laws_def)
  obtain err0 where push: "rc_lpush rc (rq_key (rq_cfg q)) v s = (err0, s')" "err = map_option BrokerFailed err0"
    using e v assms(1) by (auto simp: redis_enqueue_def split: prod.splits)
  then have "items s' (rq_key (rq_cfg q)) = v # items s (rq_key (rq_cfg q)) \<or>
      err0 \<noteq> None \<and> items s' (rq_key (rq_cfg q)) = items s (rq_key (rq_cfg q))"
    using assms(2) unfolding redis_laws_def by blast
  then show "True \<and> ((\<lambda>l :: unit. decoded decode (rev (items s' (rq_key (rq_cfg q))))) =
      (\<lambda>l. decoded decode (rev (items s (rq_key (rq_cfg q)))))
        (() := decoded decode (rev (items s (rq_key (rq_cfg q)))) @ [m]) \<or>
      err \<noteq> None \<and> (\<lambda>l :: unit. decoded decode (rev (items s' (rq_key (rq_cfg q))))) =
        (\<lambda>l. decoded decode (rev (items s (rq_key (rq_cfg q))))))"
    using v push(2) by (auto simp: fun_eq_iff)
next
  fix s d t s' assume e: "redis_turn decode q d s = (t, s')"
  show "True \<and> (case t of
      LoopHandles m \<Rightarrow> (\<lambda>l :: unit. decoded decode (rev (items s (rq_key (rq_cfg q))))) =
        (\<lambda>l. decoded decode (rev (items s' (rq_key (rq_cfg q)))))
          (() := m # decoded decode (rev (items s' (rq_key (rq_cfg q)))))
    | _ \<Rightarrow> (\<lambda>l :: unit. decoded decode (rev (items s' (rq_key (rq_cfg q))))) =
        (\<lambda>l. decoded decode (rev (items s (rq_key (rq_cfg q))))))"
  proof (cases d)
    case True
    then show ?thesis using e assms(1) by (auto simp: redis_turn_def)
  next
    case False
    obtain r where pop: "rc_brpop rc (rq_pop_timeout (rq_cfg q)) (rq_key (rq_cfg q)) s = (r, s')"
      using e assms(1) False by (auto simp: redis_turn_def split: prod.splits sum.splits option.splits)
    then have "case r of Inl e \<Rightarrow> items s' (rq_key (rq_cfg q)) = items s (rq_key (rq_cfg q))
        | Inr v \<Rightarrow> items s (rq_key (rq_cfg q)) = items s' (rq_key (rq_cfg q)) @ [v]"
      using assms(2) unfolding redis_laws_def by blast
    then show ?thesis using e assms(1) False pop
      by (auto simp: redis_turn_def fun_eq_iff split: sum.splits option.splits)
  qed
qed

text \<open>On Kafka the lanes are the names of the messages, which are the keys of their values.\<close>

definition named_values :: "(string \<Rightarrow> message option) \<Rightarrow> (string \<Rightarrow> string list) \<Rightarrow> bool" where
  "named_values decode f \<longleftrightarrow> (\<forall>key v m. v \<in> set (f key) \<and> decode v = Some m \<longrightarrow> msg_name m = key)"

lemma kafka_message_queue:
  assumes "kq_producer q = Some kp" "kq_consumer q = Some kc" "kafka_laws kp kc (kq_topic (kq_cfg q)) contents"
    and "codec_laws encode decode good"
  shows "message_queue (kafka_enqueue encode q) (kafka_turn decode q)
    (\<lambda>s l. decoded decode (contents s l)) msg_name good (\<lambda>s. named_values decode (contents s))"
proof
  fix s m err s' assume named: "named_values decode (contents s)" and "good m"
    and e: "kafka_enqueue encode q m s = (err, s')"
  then obtain v where v: "encode m = Inr v" "decode v = Some m" using assms(4) by (auto simp: codec_laws_def)
  obtain err0 where pub: "kp_publish kp (kq_topic (kq_cfg q)) (msg_name m) v s = (err0, s')"
    "err = map_option BrokerFailed err0"
    using e v assms(1) by (auto simp: kafka_enqueue_def split: prod.splits)
  then have law: "contents s' = (contents s)(msg_name m := contents s (msg_name m) @ [v]) \<or>
      err0 \<noteq> None \<and> contents s' = contents s"
    using assms(3) unfolding kafka_laws_def by blast
  then have "named_values decode (contents s')"
    using v named by (auto simp: named_values_def split: if_splits)
  with law show "named_values decode (contents s') \<and> ((\<lambda>l. decoded decode (contents s' l)) =
      (\<lambda>l. decoded decode (contents s l))(msg_name m := decoded decode (contents s (msg_name m)) @ [m]) \<or>
      err \<noteq> None \<and> (\<lambda>l. decoded decode (contents s' l)) = (\<lambda>l. decoded decode (contents s l)))"
    using v pub(2) by (auto simp: fun_eq_iff)
next
  fix s d t s' assume named: "named_values decode (contents s)" and e: "kafka_turn decode q d s = (t, s')"
  show "named_values decode (contents s') \<and> (case t of
      LoopHandles m \<Rightarrow> (\<lambda>l. decoded decode (contents s l)) =
        (\<lambda>l. decoded decode (contents s' l))(msg_name m := m # decoded decode (contents s' (msg_name m)))
    | _ \<Rightarrow> (\<lambda>l. decoded decode (contents s' l)) = (\<lambda>l. decoded decode (contents s l)))"
  proof (cases d)
    case True
    then show ?thesis using e assms(2) named by (auto simp: kafka_turn_def)
  next
    case False
    obtain r where poll: "kc_poll kc (kq_poll_timeout (kq_cfg q)) s = (r, s')"
      using e assms(2) False by (auto simp: kafka_turn_def split: prod.splits sum.splits option.splits)
    then have law: "case r of Inl e \<Rightarrow> contents s' = contents s
        | Inr v \<Rightarrow> \<exists>key. contents s = (contents s')(key := v # contents s' key)"
      using assms(3) unfolding kafka_laws_def by blast
    show ?thesis
    proof (cases r)
      case (Inl err)
      then show ?thesis using e assms(2) False poll law named by (auto simp: kafka_turn_def)
    next
      case (Inr v)
      then obtain key where key: "contents s = (contents s')(key := v # contents s' key)" using law by auto
      then have named': "named_values decode (contents s')" "decode v = Some m \<Longrightarrow> msg_name m = key" for m
        using named unfolding named_values_def by (metis fun_upd_apply list.set_intros)+
      show ?thesis using e assms(2) False poll Inr key named'
        by (cases "decode v") (auto simp: kafka_turn_def fun_eq_iff)
    qed
  qed
qed

section \<open>Clients that keep the laws\<close>

definition list_redis :: "(string \<Rightarrow> string list) redis_client" where
  "list_redis =
     \<lparr>rc_lpush = (\<lambda>key v s. (None, s(key := v # s key))),
      rc_brpop = (\<lambda>t key s. if s key = [] then (Inl ''timeout'', s) else (Inr (last (s key)), s(key := butlast (s key)))),
      rc_close = (\<lambda>s. (None, s))\<rparr>"

definition log_producer :: "(string \<times> string) list kafka_producer" where
  "log_producer = \<lparr>kp_publish = (\<lambda>topic key v s. (None, s @ [(key, v)])), kp_close = (\<lambda>s. (None, s))\<rparr>"

definition log_consumer :: "(string \<times> string) list kafka_consumer" where
  "log_consumer =
     \<lparr>kc_poll = (\<lambda>t s. case s of [] \<Rightarrow> (Inl ''timeout'', []) | kv # s' \<Rightarrow> (Inr (snd kv), s')),
      kc_close = (\<lambda>s. (None, s))\<rparr>"

definition log_contents :: "(string \<times> string) list \<Rightarrow> string \<Rightarrow> string list" where
  "log_contents s key = map snd (filter (\<lambda>kv. fst kv = key) s)"

definition plain_encode :: "message \<Rightarrow> string + string" where
  "plain_encode m = Inr (b64_encode url_alphabet (msg_name m) @ ''.'' @ b64_encode url_alphabet (msg_payload m))"

definition plain_decode :: "string \<Rightarrow> message option" where
  "plain_decode v =
     (case split_on (CHR ''.'') v of
        [a, b] \<Rightarrow>
          (case (b64_decode url_alphabet a, b64_decode url_alphabet b) of
             (Some name, Some payload) \<Rightarrow> Some \<lparr>msg_name = name, msg_payload = payload\<rparr>
           | _ \<Rightarrow> None)
      | _ \<Rightarrow> None)"

lemma plain_codec: "codec_laws plain_encode plain_decode (\<lambda>m. True)"
proof -
  have no_dot: "CHR ''.'' \<notin> set (b64_encode url_alphabet s)" for s
  proof -
    have "CHR ''.'' \<notin> set url_alphabet" by code_simp
    then show ?thesis using b64_encode_chars [OF std_url_good(2)] by blast
  qed
  have "plain_decode (b64_encode url_alphabet (msg_name m) @ ''.'' @ b64_encode url_alphabet (msg_payload m)) = Some m"
    for m
    using split_on_append [OF no_dot] split_on_clean [OF no_dot] b64_round_trip [OF std_url_good(2)]
    by (simp add: plain_decode_def)
  then show ?thesis by (simp add: codec_laws_def plain_encode_def)
qed

lemma list_redis_laws: "redis_laws list_redis (\<lambda>s. s)"
  by (auto simp: redis_laws_def list_redis_def)

lemma log_laws: "kafka_laws log_producer log_consumer topic log_contents"
  by (auto simp: kafka_laws_def log_producer_def log_consumer_def log_contents_def fun_eq_iff split: list.splits)

definition demo_redis :: "(string \<Rightarrow> string list) redis_queue" where
  "demo_redis = new_redis_queue (Some list_redis) \<lparr>rq_key = [], rq_pop_timeout = 0, rq_poll_backoff = 0\<rparr>"

definition demo_kafka :: "(string \<times> string) list kafka_queue" where
  "demo_kafka = new_kafka_queue (Some log_producer) (Some log_consumer) \<lparr>kq_topic = [], kq_poll_timeout = 0\<rparr>"

interpretation redis: message_queue "redis_enqueue plain_encode demo_redis" "redis_turn plain_decode demo_redis"
  "\<lambda>s (l :: unit). decoded plain_decode (rev (s (rq_key (rq_cfg demo_redis))))" "\<lambda>m. ()" "\<lambda>m. True" "\<lambda>s. True"
  by (rule redis_message_queue [OF _ list_redis_laws plain_codec]) (simp add: demo_redis_def new_redis_queue_def)

interpretation kafka: message_queue "kafka_enqueue plain_encode demo_kafka" "kafka_turn plain_decode demo_kafka"
  "\<lambda>s l. decoded plain_decode (log_contents s l)" msg_name "\<lambda>m. True" "\<lambda>s. named_values plain_decode (log_contents s)"
  by (rule kafka_message_queue [OF _ _ log_laws plain_codec]) (simp_all add: demo_kafka_def new_kafka_queue_def)

section \<open>Properties\<close>

text \<open>
  The Redis queue is first in, first out and loses nothing on the way to the worker: in any
  history of calls, the messages waiting before and those that entered are, in order, the
  messages handled and those waiting after. What entered includes everything \<open>Enqueue\<close>
  accepted, and nothing it was not asked for.
\<close>

theorem redis_keeps_order:
  assumes "rq_client q = Some rc" "redis_laws rc items" "codec_laws encode decode good"
    and "list_all good (puts acts)"
    and "run_queue (redis_enqueue encode q) (redis_turn decode q) acts s = (accepted, handled, s')"
  shows "\<exists>entered. subseq accepted entered \<and> subseq entered (puts acts) \<and>
    decoded decode (rev (items s (rq_key (rq_cfg q)))) @ entered =
      handled @ decoded decode (rev (items s' (rq_key (rq_cfg q))))"
  using message_queue.order_kept [OF redis_message_queue [OF assms(1,2,3)] assms(5) TrueI assms(4)] by auto

theorem redis_keeps_order_example:
  "\<exists>s'. run_queue (redis_enqueue plain_encode demo_redis) (redis_turn plain_decode demo_redis)
      [Put (job ''a''), Put (job ''b''), Turn False] (\<lambda>key. []) = ([job ''a'', job ''b''], [job ''a''], s') \<and>
     decoded plain_decode (rev (s' ''elgon:jobs'')) = [job ''b'']"
proof -
  let ?r = "run_queue (redis_enqueue plain_encode demo_redis) (redis_turn plain_decode demo_redis)
      [Put (job ''a''), Put (job ''b''), Turn False] (\<lambda>key. [])"
  have r: "fst ?r = [job ''a'', job ''b'']" "fst (snd ?r) = [job ''a'']" by code_simp+
  obtain s' where s': "?r = ([job ''a'', job ''b''], [job ''a''], s')" using r by (metis prod.collapse)
  have "rq_client demo_redis = Some list_redis" "rq_key (rq_cfg demo_redis) = ''elgon:jobs''"
    by (simp_all add: demo_redis_def new_redis_queue_def)
  then have "\<exists>entered. subseq [job ''a'', job ''b''] entered \<and> subseq entered [job ''a'', job ''b''] \<and>
      decoded plain_decode (rev ((\<lambda>key. []) ''elgon:jobs'')) @ entered =
        [job ''a''] @ decoded plain_decode (rev (s' ''elgon:jobs''))"
    using redis_keeps_order [OF _ list_redis_laws plain_codec _ s'] by simp
  then have "decoded plain_decode (rev (s' ''elgon:jobs'')) = [job ''b'']"
    using subseq_order.antisym by fastforce
  then show ?thesis using s' by blast
qed

text \<open>
  The Kafka queue keeps the order of the messages of one name, whatever the names of the
  others and the order in which the broker serves its partitions, and loses none.
\<close>

theorem kafka_keeps_order_per_name:
  assumes "kq_producer q = Some kp" "kq_consumer q = Some kc" "kafka_laws kp kc (kq_topic (kq_cfg q)) contents"
    and "codec_laws encode decode good" "list_all good (puts acts)" "named_values decode (contents s)"
    and "run_queue (kafka_enqueue encode q) (kafka_turn decode q) acts s = (accepted, handled, s')"
  shows "\<exists>entered. subseq accepted entered \<and> subseq entered (puts acts) \<and>
    (\<forall>name. decoded decode (contents s name) @ filter (\<lambda>m. msg_name m = name) entered =
      filter (\<lambda>m. msg_name m = name) handled @ decoded decode (contents s' name))"
  using message_queue.order_kept [OF kafka_message_queue [OF assms(1,2,3,4)] assms(7,6,5)] by auto

theorem kafka_keeps_order_per_name_example:
  "\<exists>acc hnd s'. run_queue (kafka_enqueue plain_encode demo_kafka) (kafka_turn plain_decode demo_kafka)
      [Put (job ''a''), Put (job ''b''), Turn False] [] = (acc, hnd, s') \<and> subseq acc [job ''a'', job ''b'']"
proof -
  obtain acc hnd s' where r: "run_queue (kafka_enqueue plain_encode demo_kafka) (kafka_turn plain_decode demo_kafka)
      [Put (job ''a''), Put (job ''b''), Turn False] [] = (acc, hnd, s')" by (metis surj_pair)
  have "kq_producer demo_kafka = Some log_producer" "kq_consumer demo_kafka = Some log_consumer"
    by (simp_all add: demo_kafka_def new_kafka_queue_def)
  from kafka_keeps_order_per_name [OF this log_laws plain_codec _ _ r]
  have "subseq acc [job ''a'', job ''b'']"
    by (auto simp: named_values_def log_contents_def dest: subseq_order.trans)
  then show ?thesis using r by blast
qed

end
