(* ===== verification/Jobs_Adapters.thy ===== *)
theory Jobs_Adapters imports Jobs_Brokers begin

text \<open>
  The clients of the Redis and Kafka queues (jobs/redisadapter/redisadapter.go and
  jobs/kafkaadapter/kafkaadapter.go), which put go-redis and kafka-go behind the interfaces of
  package \<open>jobs\<close>. The two libraries are records of functions on a state of theirs; what the
  queues need of a client is derived from what the documentation of these libraries says.
\<close>

section \<open>Redis\<close>

record redis_adapter_config =
  rac_addr :: string
  rac_addrs :: "string list"
  rac_username :: string
  rac_password :: string
  rac_db :: int

record redis_options =
  ro_addrs :: "string list"
  ro_username :: string
  ro_password :: string
  ro_db :: int

text \<open>A \<open>UniversalClient\<close>: \<open>BRPOP\<close> answers the list of the key and the value.\<close>

record 's go_redis =
  gr_ping :: "'s \<Rightarrow> string option \<times> 's"
  gr_lpush :: "string \<Rightarrow> string \<Rightarrow> 's \<Rightarrow> string option \<times> 's"
  gr_brpop :: "int \<Rightarrow> string \<Rightarrow> 's \<Rightarrow> (string + string list) \<times> 's"
  gr_close :: "'s \<Rightarrow> string option \<times> 's"

definition redis_nil :: string where "redis_nil = ''redis: nil''"

definition redis_adapter_options :: "redis_adapter_config \<Rightarrow> redis_options" where
  "redis_adapter_options cfg =
     (let addrs = rac_addrs cfg;
          addr = (if rac_addr cfg = [] then ''127.0.0.1:6379'' else rac_addr cfg)
      in \<lparr>ro_addrs = (if addrs = [] then [addr] else addrs), ro_username = rac_username cfg,
          ro_password = rac_password cfg, ro_db = rac_db cfg\<rparr>)"

text \<open>The operations of \<open>Client\<close>; \<open>New\<close> closes a client that does not answer a ping.\<close>

definition adapter_lpush :: "'s go_redis \<Rightarrow> string \<Rightarrow> string \<Rightarrow> 's \<Rightarrow> string option \<times> 's" where
  "adapter_lpush c key v s = gr_lpush c key v s"

definition adapter_brpop :: "'s go_redis \<Rightarrow> int \<Rightarrow> string \<Rightarrow> 's \<Rightarrow> (string + string) \<times> 's" where
  "adapter_brpop c timeout key s =
     (case gr_brpop c timeout key s of
        (Inl e, s') \<Rightarrow> (Inl e, s')
      | (Inr vals, s') \<Rightarrow> (if length vals < 2 then Inl redis_nil else Inr (vals ! 1), s'))"

definition adapter_close :: "'s go_redis \<Rightarrow> 's \<Rightarrow> string option \<times> 's" where
  "adapter_close c s = gr_close c s"

definition redis_adapter :: "'s go_redis \<Rightarrow> 's redis_client" where
  "redis_adapter c = \<lparr>rc_lpush = adapter_lpush c, rc_brpop = adapter_brpop c, rc_close = adapter_close c\<rparr>"

definition new_redis_adapter ::
  "(redis_options \<Rightarrow> 's go_redis) \<Rightarrow> redis_adapter_config \<Rightarrow> 's \<Rightarrow> (string + 's redis_client) \<times> 's" where
  "new_redis_adapter connect cfg s =
     (let uc = connect (redis_adapter_options cfg) in
      case gr_ping uc s of
        (Some e, s1) \<Rightarrow> (Inl e, snd (gr_close uc s1))
      | (None, s1) \<Rightarrow> (Inr (redis_adapter uc), s1))"

definition redis_adapter_from :: "'s go_redis option \<Rightarrow> string + 's redis_client" where
  "redis_adapter_from c = (case c of None \<Rightarrow> Inl ''redisadapter: client is nil'' | Some uc \<Rightarrow> Inr (redis_adapter uc))"

section \<open>Kafka\<close>

record producer_config =
  prc_brokers :: "string list"
  prc_dialer :: "nat option"

record consumer_config =
  cc_brokers :: "string list"
  cc_topic :: string
  cc_group_id :: string
  cc_min_bytes :: int
  cc_max_bytes :: int
  cc_commit_interval :: int
  cc_dialer :: "nat option"

text \<open>
  The dialer of a configuration is a pointer that is only handed on. The writer and the reader of
  kafka-go are made of the configuration; the writer has the balancer \<open>LeastBytes\<close>, which does not
  look at the key of a message, and takes the time of a message from its own clock.
\<close>

record 's kafka_writer =
  kw_write :: "string \<Rightarrow> string \<Rightarrow> string \<Rightarrow> 's \<Rightarrow> string option \<times> 's"
  kw_close :: "'s \<Rightarrow> string option \<times> 's"

text \<open>\<open>kr_read\<close> with the deadline of its context, if it has one, answers the value of a message.\<close>

record 's kafka_reader =
  kr_read :: "int option \<Rightarrow> 's \<Rightarrow> (string + string) \<times> 's"
  kr_close :: "'s \<Rightarrow> string option \<times> 's"

definition no_brokers :: string where "no_brokers = ''kafkaadapter: at least one broker is required''"
definition no_topic :: string where "no_topic = ''kafkaadapter: topic is required''"

definition producer_publish :: "'s kafka_writer \<Rightarrow> string \<Rightarrow> string \<Rightarrow> string \<Rightarrow> 's \<Rightarrow> string option \<times> 's" where
  "producer_publish w topic key v s = (if topic = [] then (Some no_topic, s) else kw_write w topic key v s)"

definition producer_close :: "'s kafka_writer \<Rightarrow> 's \<Rightarrow> string option \<times> 's" where
  "producer_close w s = kw_close w s"

definition kafka_producer_adapter :: "'s kafka_writer \<Rightarrow> 's kafka_producer" where
  "kafka_producer_adapter w = \<lparr>kp_publish = producer_publish w, kp_close = producer_close w\<rparr>"

definition new_producer :: "(producer_config \<Rightarrow> 's kafka_writer) \<Rightarrow> producer_config \<Rightarrow> string + 's kafka_producer" where
  "new_producer new_writer cfg =
     (if prc_brokers cfg = [] then Inl no_brokers else Inr (kafka_producer_adapter (new_writer cfg)))"

definition consumer_defaults :: "consumer_config \<Rightarrow> consumer_config" where
  "consumer_defaults cfg =
     (let cfg = (if cc_min_bytes cfg = 0 then cfg\<lparr>cc_min_bytes := 1\<rparr> else cfg)
      in if cc_max_bytes cfg = 0 then cfg\<lparr>cc_max_bytes := 10000000\<rparr> else cfg)"

definition consumer_poll :: "'s kafka_reader \<Rightarrow> int \<Rightarrow> 's \<Rightarrow> (string + string) \<times> 's" where
  "consumer_poll r timeout s = kr_read r (if timeout > 0 then Some timeout else None) s"

definition consumer_close :: "'s kafka_reader \<Rightarrow> 's \<Rightarrow> string option \<times> 's" where
  "consumer_close r s = kr_close r s"

definition kafka_consumer_adapter :: "'s kafka_reader \<Rightarrow> 's kafka_consumer" where
  "kafka_consumer_adapter r = \<lparr>kc_poll = consumer_poll r, kc_close = consumer_close r\<rparr>"

definition new_consumer :: "(consumer_config \<Rightarrow> 's kafka_reader) \<Rightarrow> consumer_config \<Rightarrow> string + 's kafka_consumer" where
  "new_consumer new_reader cfg =
     (if cc_brokers cfg = [] then Inl no_brokers
      else if cc_topic cfg = [] then Inl no_topic
      else Inr (kafka_consumer_adapter (new_reader (consumer_defaults cfg))))"

section \<open>What the queues need\<close>

text \<open>
  go-redis carries \<open>LPUSH\<close> and \<open>BRPOP\<close> out on a list: a pop answers the key and the last value, or
  an error without a change; a push that fails may have been carried out.
\<close>

definition go_redis_laws :: "'s go_redis \<Rightarrow> ('s \<Rightarrow> string \<Rightarrow> string list) \<Rightarrow> bool" where
  "go_redis_laws c items \<longleftrightarrow>
     (\<forall>key v s err s'. gr_lpush c key v s = (err, s') \<longrightarrow>
        items s' key = v # items s key \<or> err \<noteq> None \<and> items s' key = items s key) \<and>
     (\<forall>t key s r s'. gr_brpop c t key s = (r, s') \<longrightarrow>
        (case r of
           Inl e \<Rightarrow> items s' key = items s key
         | Inr vals \<Rightarrow> \<exists>v. vals = [key, v] \<and> items s key = items s' key @ [v]))"

lemma redis_adapter_laws:
  assumes "go_redis_laws c items"
  shows "redis_laws (redis_adapter c) items"
  unfolding redis_laws_def
proof (intro conjI allI impI)
  fix key v s err s'
  assume "rc_lpush (redis_adapter c) key v s = (err, s')"
  with assms show "items s' key = v # items s key \<or> err \<noteq> None \<and> items s' key = items s key"
    by (simp add: redis_adapter_def adapter_lpush_def go_redis_laws_def)
next
  fix t key s r s'
  assume r: "rc_brpop (redis_adapter c) t key s = (r, s')"
  obtain q s1 where q: "gr_brpop c t key s = (q, s1)" by (metis prod.exhaust)
  with assms have law: "case q of Inl e \<Rightarrow> items s1 key = items s key
      | Inr vals \<Rightarrow> \<exists>v. vals = [key, v] \<and> items s key = items s1 key @ [v]"
    unfolding go_redis_laws_def by blast
  from r q law show "case r of Inl e \<Rightarrow> items s' key = items s key | Inr v \<Rightarrow> items s key = items s' key @ [v]"
    by (cases q) (auto simp: redis_adapter_def adapter_brpop_def)
qed

text \<open>Every value a pop takes off the list reaches the queue: the adapter drops none.\<close>

lemma adapter_drops_nothing:
  assumes "go_redis_laws c items" "adapter_brpop c t key s = (Inl e, s')"
  shows "items s' key = items s key"
  using redis_adapter_laws [OF assms(1)] assms(2) unfolding redis_laws_def redis_adapter_def by fastforce

text \<open>The defaults make every consumer positive in what it fetches, and a client has an address.\<close>

lemma consumer_defaults_positive:
  "0 \<le> cc_min_bytes cfg \<Longrightarrow> 0 \<le> cc_max_bytes cfg \<Longrightarrow>
   0 < cc_min_bytes (consumer_defaults cfg) \<and> 0 < cc_max_bytes (consumer_defaults cfg)"
  by (simp add: consumer_defaults_def Let_def)

lemma redis_adapter_addresses: "ro_addrs (redis_adapter_options cfg) \<noteq> []"
  by (simp add: redis_adapter_options_def Let_def)


definition list_go_redis :: "(string \<Rightarrow> string list) go_redis" where
  "list_go_redis =
     \<lparr>gr_ping = (\<lambda>s. (None, s)),
      gr_lpush = (\<lambda>key v s. (None, s(key := v # s key))),
      gr_brpop = (\<lambda>t key s. if s key = [] then (Inl redis_nil, s)
                    else (Inr [key, last (s key)], s(key := butlast (s key)))),
      gr_close = (\<lambda>s. (None, s))\<rparr>"

definition opened_queue :: "(string \<Rightarrow> string list) redis_queue" where
  "opened_queue = new_redis_queue (Some (redis_adapter list_go_redis)) \<lparr>rq_key = [], rq_pop_timeout = 0, rq_poll_backoff = 0\<rparr>"


end
