(* ===== verification/Db_Sql.thy ===== *)
theory Db_Sql imports Db Db_Dsn begin

text \<open>
  Package \<open>db\<close>, sql.go: the adapter around \<open>database/sql\<close>, and the functions of drivers.go that
  open one. The handles of \<open>database/sql\<close> are a record of functions on its state; \<open>sql.Open\<close>
  answers a handle for a driver's name and a connection string.
\<close>

record 'd sql_handle =
  sh_exec :: "string \<Rightarrow> val list \<Rightarrow> 'd \<Rightarrow> (string + db_result) \<times> 'd"
  sh_query :: "string \<Rightarrow> val list \<Rightarrow> 'd \<Rightarrow> (string + db_rows) \<times> 'd"
  sh_begin :: "'d \<Rightarrow> string option \<times> 'd"
  st_exec :: "string \<Rightarrow> val list \<Rightarrow> 'd \<Rightarrow> (string + db_result) \<times> 'd"
  st_query :: "string \<Rightarrow> val list \<Rightarrow> 'd \<Rightarrow> (string + db_rows) \<times> 'd"
  st_commit :: "'d \<Rightarrow> string option \<times> 'd"
  st_rollback :: "'d \<Rightarrow> string option \<times> 'd"

definition sql_tx :: "'d sql_handle \<Rightarrow> 'd exec_querier" where
  "sql_tx h = \<lparr>eq_exec = st_exec h, eq_query = st_query h\<rparr>"

definition begin_tx :: "'d sql_handle \<Rightarrow> 'd \<Rightarrow> (string + bool) \<times> 'd" where
  "begin_tx h d = (case sh_begin h d of (Some err, d') \<Rightarrow> (Inl err, d') | (None, d') \<Rightarrow> (Inr True, d'))"

definition sql_adapter :: "'d sql_handle \<Rightarrow> 'd adapter" where
  "sql_adapter h =
     \<lparr>ad_db = \<lparr>eq_exec = sh_exec h, eq_query = sh_query h\<rparr>, ad_tx = sql_tx h, ad_begin = begin_tx h,
      ad_commit = st_commit h, ad_rollback = st_rollback h\<rparr>"

definition open_sql :: "(string \<Rightarrow> string \<Rightarrow> string + 'd sql_handle) \<Rightarrow> string \<Rightarrow> string \<Rightarrow> string + 'd adapter" where
  "open_sql sql_open driver dsn =
     (case sql_open driver dsn of Inl err \<Rightarrow> Inl err | Inr h \<Rightarrow> Inr (sql_adapter h))"

text \<open>\<open>MustOpen\<close>; \<open>Inl\<close> is the text of its panic.\<close>

definition must_open :: "(string \<Rightarrow> string \<Rightarrow> string + 'd sql_handle) \<Rightarrow> string \<Rightarrow> string \<Rightarrow> string + 'd adapter" where
  "must_open sql_open driver dsn =
     (case open_sql sql_open driver dsn of Inl err \<Rightarrow> Inl (''db: open failed: '' @ err) | Inr a \<Rightarrow> Inr a)"

definition open_postgres :: "(string \<Rightarrow> string \<Rightarrow> string + 'd sql_handle) \<Rightarrow> postgres_config \<Rightarrow> string + 'd adapter" where
  "open_postgres sql_open cfg = open_sql sql_open ''pgx'' (postgres_dsn cfg)"

definition open_mysql :: "(string \<Rightarrow> string \<Rightarrow> string + 'd sql_handle) \<Rightarrow> mysql_config \<Rightarrow> string + 'd adapter" where
  "open_mysql sql_open cfg = open_sql sql_open ''mysql'' (mysql_dsn cfg)"

definition open_sqlite :: "(string \<Rightarrow> string \<Rightarrow> string + 'd sql_handle) \<Rightarrow> string \<Rightarrow> string + 'd adapter" where
  "open_sqlite sql_open path = open_sql sql_open ''sqlite'' (sqlite_dsn path)"

text \<open>
  What else the adapter has of the handle. \<open>SetPool\<close> makes two calls in this order, which the handle
  takes as they come: \<open>SetMaxOpenConns\<close> lowers the idle connections to the open ones when it is
  smaller, and \<open>SetMaxIdleConns\<close> the idle ones to the open ones allowed, where 0 open connections
  mean no limit.
\<close>

record 'd sql_pool = "'d sql_handle" +
  sp_ping :: "'d \<Rightarrow> string option \<times> 'd"
  sp_close :: "'d \<Rightarrow> string option \<times> 'd"
  sp_set_max_open :: "int \<Rightarrow> 'd \<Rightarrow> 'd"
  sp_set_max_idle :: "int \<Rightarrow> 'd \<Rightarrow> 'd"

definition ping :: "'d sql_pool \<Rightarrow> 'd \<Rightarrow> string option \<times> 'd" where
  "ping h d = sp_ping h d"

definition close_db :: "'d sql_pool \<Rightarrow> 'd \<Rightarrow> string option \<times> 'd" where
  "close_db h d = sp_close h d"

definition set_pool :: "'d sql_pool \<Rightarrow> int \<Rightarrow> int \<Rightarrow> 'd \<Rightarrow> 'd" where
  "set_pool h max_open max_idle d = sp_set_max_idle h max_idle (sp_set_max_open h max_open d)"

text \<open>
  The adapter adds nothing to the isolation \<open>database/sql\<close> promises and takes nothing from it;
  a transaction it begins is never nil, so the paths without a transaction are only taken when
  \<open>BeginTx\<close> fails.
\<close>

lemma sql_adapter_isolated:
  "tx_isolated (sql_adapter h) view \<longleftrightarrow>
     (\<forall>d. view (snd (sh_begin h d)) = view d) \<and>
     (\<forall>q args d. view (snd (st_exec h q args d)) = view d) \<and>
     (\<forall>q args d. view (snd (st_query h q args d)) = view d) \<and>
     (\<forall>d. view (snd (st_rollback h d)) = view d) \<and>
     (\<forall>d e d'. st_commit h d = (Some e, d') \<longrightarrow> view d' = view d)"
proof -
  have "view (snd (begin_tx h d)) = view (snd (sh_begin h d))" for d
    by (simp add: begin_tx_def split: prod.split option.split)
  then show ?thesis by (simp add: tx_isolated_def sql_adapter_def sql_tx_def)
qed

lemma begin_tx_not_nil: "begin_tx h d \<noteq> (Inr False, d')"
  by (simp add: begin_tx_def split: prod.split option.split)

text \<open>
  The two limits of a pool as \<open>database/sql\<close> documents its setters. The order of the calls in
  \<open>SetPool\<close> is the one that takes effect for every pool before: the limits are those asked for, the
  idle one cut to the open one; in the other order a limit that was there would cut the idle one.
\<close>

definition max_open_call :: "int \<Rightarrow> int \<times> int \<Rightarrow> int \<times> int" where
  "max_open_call n p = (let open_limit = max n 0 in (open_limit, if 0 < open_limit \<and> open_limit < snd p then open_limit else snd p))"

definition max_idle_call :: "int \<Rightarrow> int \<times> int \<Rightarrow> int \<times> int" where
  "max_idle_call n p = (fst p, if 0 < fst p \<and> fst p < n then fst p else max n 0)"

lemma set_pool_limits:
  assumes "sp_set_max_open h = max_open_call" "sp_set_max_idle h = max_idle_call"
  shows "set_pool h max_open max_idle p =
    (max max_open 0, if 0 < max_open then min max_open (max max_idle 0) else max max_idle 0)"
  using assms by (auto simp: set_pool_def max_open_call_def max_idle_call_def Let_def)

text \<open>A handle of \<open>database/sql\<close> that records what is committed.\<close>

definition log_handle :: "(string \<Rightarrow> val list \<Rightarrow> bool) \<Rightarrow> (string \<Rightarrow> val list \<Rightarrow> db_rows) \<Rightarrow> log_db sql_handle" where
  "log_handle bad answer =
     (let a = log_adapter bad answer
      in \<lparr>sh_exec = eq_exec (ad_db a), sh_query = eq_query (ad_db a), sh_begin = (\<lambda>d. (None, snd (ad_begin a d))),
          st_exec = eq_exec (ad_tx a), st_query = eq_query (ad_tx a), st_commit = ad_commit a, st_rollback = ad_rollback a\<rparr>)"

lemma log_handle_adapter: "sql_adapter (log_handle bad answer) = log_adapter bad answer"
  by (simp add: sql_adapter_def sql_tx_def log_handle_def begin_tx_def log_adapter_def Let_def fun_eq_iff)

end
