(* ===== verification/Go_Flags.thy ===== *)
theory Go_Flags imports Go_Strconv begin

text \<open>
  Package \<open>flag\<close>, as far as the command line uses it: a set of named flags with their values, and
  \<open>Parse\<close> of a set that returns its error (\<open>flag.ContinueOnError\<close>). Also \<open>strconv.ParseInt\<close> with base
  0, by which integer flags are read. Usage texts are not part of it.
\<close>

section \<open>Integers with a base prefix\<close>

fun digit_value :: "char \<Rightarrow> nat option" where
  "digit_value c =
     (if is_digit c then Some (of_char c - 48)
      else if CHR ''a'' \<le> lower_char c \<and> lower_char c \<le> CHR ''z'' then Some (of_char (lower_char c) - 87)
      else None)"

text \<open>The loop over the digits passes underscores over; \<open>underscoreOK\<close> looks at them afterwards.\<close>

fun parse_based :: "nat \<Rightarrow> nat \<Rightarrow> string \<Rightarrow> nat option" where
  "parse_based base acc [] = Some acc"
| "parse_based base acc (c # cs) =
     (if c = CHR ''_'' then parse_based base acc cs
      else
        (case digit_value c of
           None \<Rightarrow> None
         | Some d \<Rightarrow> if d \<ge> base then None else parse_based base (base * acc + d) cs))"

datatype last_seen = SawStart | SawDigit | SawUnderscore | SawOther

fun underscores_from :: "bool \<Rightarrow> last_seen \<Rightarrow> string \<Rightarrow> bool" where
  "underscores_from hex seen [] \<longleftrightarrow> seen \<noteq> SawUnderscore"
| "underscores_from hex seen (c # cs) \<longleftrightarrow>
     (if is_digit c \<or> hex \<and> CHR ''a'' \<le> lower_char c \<and> lower_char c \<le> CHR ''f'' then underscores_from hex SawDigit cs
      else if c = CHR ''_'' then seen = SawDigit \<and> underscores_from hex SawUnderscore cs
      else seen \<noteq> SawUnderscore \<and> underscores_from hex SawOther cs)"

definition base_letter :: "string \<Rightarrow> char option" where
  "base_letter s =
     (if length s \<ge> 2 \<and> hd s = CHR ''0'' \<and> lower_char (s ! 1) \<in> {CHR ''b'', CHR ''o'', CHR ''x''}
      then Some (lower_char (s ! 1)) else None)"

definition underscores_ok :: "string \<Rightarrow> bool" where
  "underscores_ok s =
     (case base_letter s of
        Some l \<Rightarrow> underscores_from (l = CHR ''x'') SawDigit (drop 2 s)
      | None \<Rightarrow> underscores_from False SawStart s)"

definition base_digits :: "string \<Rightarrow> nat \<times> string" where
  "base_digits s =
     (if hd s \<noteq> CHR ''0'' then (10, s)
      else
        (case (if length s \<ge> 3 then base_letter s else None) of
           Some l \<Rightarrow> (if l = CHR ''b'' then 2 else if l = CHR ''o'' then 8 else 16, drop 2 s)
         | None \<Rightarrow> (8, tl s)))"

definition parse_unsigned :: "string \<Rightarrow> nat option" where
  "parse_unsigned s =
     (if s = [] then None
      else
        (case base_digits s of (base, digits) \<Rightarrow>
           (case parse_based base 0 digits of
              None \<Rightarrow> None
            | Some n \<Rightarrow>
                if n \<ge> 2 ^ 64 \<or> CHR ''_'' \<in> set digits \<and> \<not> underscores_ok s then None else Some n)))"

definition parse_int_any :: "string \<Rightarrow> int option" where
  "parse_int_any s =
     (let neg = (s \<noteq> [] \<and> hd s = CHR ''-'');
          body = (if s \<noteq> [] \<and> (hd s = CHR ''-'' \<or> hd s = CHR ''+'') then tl s else s)
      in case parse_unsigned body of
           None \<Rightarrow> None
         | Some n \<Rightarrow>
             if \<not> neg \<and> n \<ge> 2 ^ 63 \<or> neg \<and> n > 2 ^ 63 then None
             else Some (if neg then - int n else int n))"

lemma parse_based_digits: "\<forall>c\<in>set s. is_digit c \<Longrightarrow> parse_based 10 acc s = parse_digits acc s"
proof (induction s arbitrary: acc)
  case (Cons c s)
  then have "is_digit c" by simp
  then have d: "(of_char c :: nat) - 48 < 10" "c \<noteq> CHR ''_''" "digit_value c = Some (of_char c - 48)"
    by (auto simp: is_digit_nat)
  have "parse_based 10 acc (c # s) = parse_based 10 (10 * acc + (of_char c - 48)) s"
    using d by (simp del: digit_value.simps)
  with Cons show ?case by simp
qed simp

lemma show_nat_leading: "n \<noteq> 0 \<Longrightarrow> hd (show_nat n) \<noteq> CHR ''0''"
proof (induction n rule: show_nat.induct)
  case (1 n)
  show ?case
  proof (cases "n < 10")
    case True
    then have "(of_char (hd (show_nat n)) :: nat) = 48 + n" by (simp add: show_nat.simps [of n])
    with 1 show ?thesis by auto
  next
    case False
    with 1 have "hd (show_nat (n div 10)) \<noteq> CHR ''0''" by (simp add: div_eq_0_iff)
    with False show ?thesis by (simp add: show_nat.simps [of n] hd_append)
  qed
qed

lemma parse_unsigned_show: "n < 2 ^ 64 \<Longrightarrow> parse_unsigned (show_nat n) = Some n"
proof (cases "n = 0")
  case True
  have "digit_char 0 = CHR ''0''" by code_simp
  then have "show_nat 0 = ''0''" by (simp add: show_nat.simps [of 0])
  moreover have "parse_unsigned ''0'' = Some 0" by (simp add: parse_unsigned_def base_digits_def)
  ultimately have "parse_unsigned (show_nat 0) = Some 0" by simp
  then show ?thesis using True by simp
next
  case False
  assume n: "n < 2 ^ 64"
  have "base_digits (show_nat n) = (10, show_nat n)" using show_nat_leading [OF False] by (simp add: base_digits_def)
  moreover have "parse_based 10 0 (show_nat n) = Some n"
    using parse_based_digits show_nat_digits parse_digits_show_nat by (metis (no_types))
  moreover have "CHR ''_'' \<notin> set (show_nat n)" using show_nat_digits [of "CHR ''_''" n] by (auto simp: is_digit_nat)
  ultimately show ?thesis using n by (simp add: parse_unsigned_def)
qed

lemma parse_int_any_show:
  assumes "- (2 ^ 63) \<le> i" "i < 2 ^ 63"
  shows "parse_int_any (show_int i) = Some i"
proof (cases "i < 0")
  case True
  have "nat (- i) \<le> 2 ^ 63" using assms by (simp add: nat_le_iff)
  with True show ?thesis by (simp add: parse_int_any_def show_int_def parse_unsigned_show)
next
  case False
  then have "nat i < 2 ^ 63" using assms by (simp add: nat_less_iff)
  moreover have "hd (show_nat (nat i)) \<noteq> CHR ''-''" "hd (show_nat (nat i)) \<noteq> CHR ''+''"
    using hd_show_nat_digit [of "nat i"] by (auto simp: is_digit_nat)
  ultimately show ?thesis using False by (simp add: parse_int_any_def show_int_def parse_unsigned_show)
qed

text \<open>A leading 0 makes a number octal, so a count of steps written as \<open>010\<close> is 8.\<close>

lemma parse_int_any_examples:
  "parse_int_any ''010'' = Some 8" "parse_int_any ''08'' = None" "parse_int_any ''1_0'' = Some 10" "parse_int_any ''1_'' = None"
  by (simp_all add: parse_int_any_def parse_unsigned_def base_digits_def base_letter_def underscores_ok_def
      is_digit_def lower_char_def less_eq_char_def)

section \<open>Sets of flags\<close>

datatype flag_value = TextFlag string | IntFlag int | BoolFlag bool

datatype flag_error =
    BadFlagSyntax string
  | FlagHelp
  | FlagUndefined string
  | FlagNeedsArgument string
  | FlagInvalid string string

type_synonym flag_set = "(string \<times> flag_value) list"

fun set_value :: "flag_value \<Rightarrow> string \<Rightarrow> flag_value option" where
  "set_value (TextFlag _) s = Some (TextFlag s)"
| "set_value (IntFlag _) s = map_option IntFlag (parse_int_any s)"
| "set_value (BoolFlag _) s = map_option BoolFlag (parse_bool s)"

fun put_flag :: "string \<Rightarrow> flag_value \<Rightarrow> flag_set \<Rightarrow> flag_set" where
  "put_flag name v [] = []"
| "put_flag name v ((n, w) # fs) = (if n = name then (n, v) # fs else (n, w) # put_flag name v fs)"

fun is_bool_flag :: "flag_value \<Rightarrow> bool" where
  "is_bool_flag (BoolFlag b) = True"
| "is_bool_flag _ = False"

text \<open>An argument that is a flag, with its name and the value after an equals sign.\<close>

definition flag_shaped :: "string \<Rightarrow> bool" where
  "flag_shaped s \<longleftrightarrow> length s \<ge> 2 \<and> hd s = CHR ''-''"

definition flag_name_part :: "string \<Rightarrow> string" where
  "flag_name_part s = (if s ! 1 = CHR ''-'' then drop 2 s else drop 1 s)"

definition flag_parts :: "string \<Rightarrow> string \<times> string option" where
  "flag_parts part =
     (case dropWhile (\<lambda>c. c \<noteq> CHR ''='') part of
        [] \<Rightarrow> (part, None)
      | eq # value \<Rightarrow> (takeWhile (\<lambda>c. c \<noteq> CHR ''='') part, Some value))"

text \<open>The value of a flag and what is left of the arguments behind it.\<close>

definition flag_argument :: "flag_value \<Rightarrow> string option \<Rightarrow> string list \<Rightarrow> (string \<times> string list) option" where
  "flag_argument v given args =
     (case given of
        Some value \<Rightarrow> Some (value, args)
      | None \<Rightarrow>
          if is_bool_flag v then Some (''true'', args)
          else (case args of [] \<Rightarrow> None | value # rest \<Rightarrow> Some (value, rest)))"

text \<open>\<open>parseOne\<close> for an argument of the shape of a flag that is not the terminator.\<close>

definition parse_one :: "flag_set \<Rightarrow> string \<Rightarrow> string list \<Rightarrow> flag_error + flag_set \<times> string list" where
  "parse_one formal s args =
     (let part = flag_name_part s in
      if part = [] \<or> hd part = CHR ''-'' \<or> hd part = CHR ''='' then Inl (BadFlagSyntax s)
      else
        (case flag_parts part of (name, given) \<Rightarrow>
           (case map_of formal name of
              None \<Rightarrow> Inl (if name = ''help'' \<or> name = ''h'' then FlagHelp else FlagUndefined name)
            | Some v \<Rightarrow>
                (case flag_argument v given args of
                   None \<Rightarrow> Inl (FlagNeedsArgument name)
                 | Some (value, rest) \<Rightarrow>
                     (case set_value v value of
                        None \<Rightarrow> Inl (FlagInvalid name value)
                      | Some v' \<Rightarrow> Inr (put_flag name v' formal, rest))))))"

lemma flag_argument_rest: "flag_argument v given args = Some (value, rest) \<Longrightarrow> length rest \<le> length args"
  by (auto simp: flag_argument_def split: option.splits if_splits list.splits)

lemma parse_one_rest: "parse_one formal s args = Inr (formal', rest) \<Longrightarrow> length rest \<le> length args"
  by (auto simp: parse_one_def Let_def split: if_splits prod.splits option.splits dest: flag_argument_rest)

text \<open>\<open>Parse\<close>: the flags in front, then the arguments that are left.\<close>

function parse_flags :: "flag_set \<Rightarrow> string list \<Rightarrow> flag_error + flag_set \<times> string list" where
  "parse_flags formal [] = Inr (formal, [])"
| "parse_flags formal (s # args) =
     (if \<not> flag_shaped s then Inr (formal, s # args)
      else if s = ''--'' then Inr (formal, args)
      else
        (case parse_one formal s args of
           Inl e \<Rightarrow> Inl e
         | Inr (formal', rest) \<Rightarrow> parse_flags formal' rest))"
  by pat_completeness auto
termination
  by (relation "measure (\<lambda>(formal, args). length args)") (auto dest: parse_one_rest)

declare parse_flags.simps(2) [simp del]

section \<open>What is read\<close>

text \<open>A value behind an equals sign reaches its flag whatever it looks like.\<close>

definition flag_with :: "string \<Rightarrow> string \<Rightarrow> string" where
  "flag_with name value = CHR ''-'' # name @ CHR ''='' # value"

definition plain_name :: "string \<Rightarrow> bool" where
  "plain_name name \<longleftrightarrow> name \<noteq> [] \<and> hd name \<noteq> CHR ''-'' \<and> CHR ''='' \<notin> set name"

lemma flag_parts_with: "CHR ''='' \<notin> set name \<Longrightarrow> flag_parts (name @ CHR ''='' # value) = (name, Some value)"
proof -
  assume "CHR ''='' \<notin> set name"
  then have "dropWhile (\<lambda>c. c \<noteq> CHR ''='') (name @ CHR ''='' # value) = CHR ''='' # value"
    "takeWhile (\<lambda>c. c \<noteq> CHR ''='') (name @ CHR ''='' # value) = name"
    by (induction name) auto
  then show ?thesis by (simp add: flag_parts_def)
qed

lemma parse_flags_with:
  assumes "plain_name name" "map_of formal name = Some v" "set_value v value = Some v'"
  shows "parse_flags formal (flag_with name value # args) = parse_flags (put_flag name v' formal) args"
proof -
  have n: "name \<noteq> []" "hd name \<noteq> CHR ''-''" "CHR ''='' \<notin> set name" using assms(1) by (auto simp: plain_name_def)
  then have h: "hd name \<noteq> CHR ''=''" by (metis hd_in_set)
  have part: "flag_name_part (flag_with name value) = name @ CHR ''='' # value"
    using n by (cases name) (simp_all add: flag_name_part_def flag_with_def)
  have "parse_one formal (flag_with name value) args = Inr (put_flag name v' formal, args)"
    using n h assms(2,3) flag_parts_with [OF n(3)] by (simp add: parse_one_def part flag_argument_def)
  moreover have "flag_shaped (flag_with name value)" "flag_with name value \<noteq> ''--''"
    using n by (cases name; simp add: flag_shaped_def flag_with_def)+
  ultimately show ?thesis by (simp add: parse_flags.simps(2))
qed

text \<open>An argument of another shape ends the flags: nothing behind it is looked at.\<close>

lemma flag_argument_more:
  "flag_argument v given args = Some (value, rest) \<Longrightarrow> flag_argument v given (args @ more) = Some (value, rest @ more)"
  by (auto simp: flag_argument_def split: option.splits if_splits list.splits)

lemma parse_one_more:
  "parse_one formal s args = Inr (formal', rest) \<Longrightarrow> parse_one formal s (args @ more) = Inr (formal', rest @ more)"
  by (auto simp: parse_one_def Let_def flag_argument_more split: if_split_asm prod.split_asm option.split_asm)

lemma parse_flags_end:
  "parse_flags formal args = Inr (formal', []) \<Longrightarrow> \<not> flag_shaped x \<Longrightarrow>
   parse_flags formal (args @ x # more) = Inr (formal', x # more)"
proof (induction formal args rule: parse_flags.induct)
  case (1 formal)
  then show ?case by (simp add: parse_flags.simps(2))
next
  case (2 formal s args)
  show ?case
  proof (cases "s = ''--''")
    case True
    with 2 show ?thesis by (simp add: parse_flags.simps(2) split: if_splits)
  next
    case False
    with 2(2) obtain f1 rest where one: "flag_shaped s" "parse_one formal s args = Inr (f1, rest)"
      "parse_flags f1 rest = Inr (formal', [])"
      by (auto simp: parse_flags.simps(2) split: if_splits sum.splits)
    have "parse_flags f1 (rest @ x # more) = Inr (formal', x # more)"
      using 2(1) [OF _ False one(2) [unfolded sum.inject] refl one(3) 2(3)] one by blast
    with one(1) False parse_one_more [OF one(2)] show ?thesis by (simp add: parse_flags.simps(2))
  qed
qed

text \<open>The names of a set stay.\<close>

lemma put_flag_lookup: "map_of (put_flag name v fs) n = (if n = name \<and> map_of fs n \<noteq> None then Some v else map_of fs n)"
  by (induction fs) auto


end
