(* ===== verification/Cmd_Elgon.thy ===== *)
theory Cmd_Elgon imports Migrate_Generate_Theorems Db_Sql Go_Json App Go_Flags begin

text \<open>
  The command line, cmd/elgon/main.go: which command runs, and the commands \<open>dev\<close>, \<open>new\<close>,
  \<open>migrate\<close> and \<open>openapi\<close> with their flags. Expanding
  globs, running other programs and the codec of JSON are arguments; files are a map from
  paths to contents, and a call of \<open>os.MkdirAll\<close>, \<open>os.Stat\<close> or \<open>os.WriteFile\<close> may fail. What is
  printed is a list of lines.
\<close>

section \<open>Commands\<close>

text \<open>What \<open>main\<close> makes of the arguments behind the name of the program.\<close>

datatype command =
    CmdNew "string list"
  | CmdDev "string list"
  | CmdProgram string "string list"
  | CmdMigrate "string list"
  | CmdOpenapi "string list"
  | UnknownCommand string
  | NoCommand

definition main_command :: "string list \<Rightarrow> command" where
  "main_command args =
     (case args of
        [] \<Rightarrow> NoCommand
      | name # rest \<Rightarrow>
          if name = ''new'' then CmdNew rest
          else if name = ''dev'' then CmdDev rest
          else if name = ''test'' then CmdProgram ''go'' [''test'', ''./...'']
          else if name = ''bench'' then CmdProgram ''go'' [''test'', ''./...'', ''-bench=.'', ''-benchmem'']
          else if name = ''migrate'' then CmdMigrate rest
          else if name = ''openapi'' then CmdOpenapi rest
          else UnknownCommand name)"

definition text_of :: "flag_set \<Rightarrow> string \<Rightarrow> string" where
  "text_of fs name = (case map_of fs name of Some (TextFlag s) \<Rightarrow> s | _ \<Rightarrow> [])"

definition int_of :: "flag_set \<Rightarrow> string \<Rightarrow> int" where
  "int_of fs name = (case map_of fs name of Some (IntFlag i) \<Rightarrow> i | _ \<Rightarrow> 0)"

definition bool_of :: "flag_set \<Rightarrow> string \<Rightarrow> bool" where
  "bool_of fs name = (case map_of fs name of Some (BoolFlag b) \<Rightarrow> b | _ \<Rightarrow> False)"

datatype dev_error = DevFlags flag_error | UsageDev

text \<open>The program \<open>dev\<close> starts; \<open>found\<close> tells which programs \<open>exec.LookPath\<close> finds.\<close>

definition cmd_dev :: "(string \<Rightarrow> bool) \<Rightarrow> string list \<Rightarrow> dev_error + string \<times> string list" where
  "cmd_dev found args =
     (case parse_flags [(''hot-reload'', BoolFlag False)] args of
        Inl e \<Rightarrow> Inl (DevFlags e)
      | Inr (fs, rest) \<Rightarrow>
          if rest \<noteq> [] then Inl UsageDev
          else if bool_of fs ''hot-reload'' then
            (if \<not> found ''air'' then Inr (''go'', [''run'', ''github.com/air-verse/air@latest'', ''-c'', ''.air.toml''])
             else Inr (''air'', [''-c'', ''.air.toml'']))
          else Inr (''go'', [''run'', ''./cmd/api'']))"

section \<open>New projects\<close>

datatype new_error = UsageNew | EmptyAppName | NewFailed string

record new_world =
  nw_mkdir :: "string \<Rightarrow> string option"
  nw_denied :: "string \<Rightarrow> string option"
  nw_torn :: "string \<Rightarrow> (string \<times> string option) option"
  nw_clean :: "string \<Rightarrow> string"

text \<open>A file that exists is left alone; \<open>nw_denied\<close> are failures of \<open>os.Stat\<close> of other kinds.\<close>

definition write_if_missing :: "new_world \<Rightarrow> string \<Rightarrow> string \<Rightarrow> files \<Rightarrow> string option \<times> files" where
  "write_if_missing w path content files =
     (if files path \<noteq> None then (None, files)
      else (case nw_denied w path of Some err \<Rightarrow> (Some err, files) | None \<Rightarrow> write_file (nw_torn w) path content files))"

fun make_dirs :: "new_world \<Rightarrow> string list \<Rightarrow> string option" where
  "make_dirs w [] = None"
| "make_dirs w (d # ds) = (case nw_mkdir w d of Some err \<Rightarrow> Some err | None \<Rightarrow> make_dirs w ds)"

fun write_missing :: "new_world \<Rightarrow> (string \<times> string) list \<Rightarrow> files \<Rightarrow> string option \<times> files" where
  "write_missing w [] files = (None, files)"
| "write_missing w ((path, content) # ps) files =
     (case write_if_missing w path content files of
        (Some err, files') \<Rightarrow> (Some err, files')
      | (None, files') \<Rightarrow> write_missing w ps files')"

text \<open>The text of the program a new project starts with.\<close>

definition quote :: "string \<Rightarrow> string" where "quote s = CHR 0x22 # s @ [CHR 0x22]"

definition tab :: string where "tab = [CHR 0x09]"

definition main_go :: string where
  "main_go =
     join newline
       [''package main'', [], ''import ('', tab @ quote ''log'', [], tab @ quote ''github.com/dmesha3/elgon'', '')'', [],
        ''func main() {'',
        tab @ ''app := elgon.New(elgon.Config{Addr: '' @ quote '':8080'' @ ''})'',
        tab @ ''app.GET('' @ quote ''/healthz'' @ '', func(c *elgon.Ctx) error {'',
        tab @ tab @ ''return c.JSON(200, map[string]string{'' @ quote ''status'' @ '': '' @ quote ''ok'' @ ''})'',
        tab @ ''})'',
        tab @ ''if err := app.Run(); err != nil {'',
        tab @ tab @ ''log.Fatal(err)'',
        tab @ ''}'',
        ''}'', []]"

text \<open>\<open>clean\<close> is \<open>filepath.Clean\<close>, by which
  \<open>filepath.Join\<close> is defined.\<close>

definition new_files :: "(string \<Rightarrow> string) \<Rightarrow> string \<Rightarrow> string \<Rightarrow> (string \<times> string) list" where
  "new_files clean name root =
     [(clean (root @ ''/go.mod''), ''module '' @ name @ newline @ newline @ ''go 1.24.1'' @ newline),
      (clean (root @ ''/cmd/api/main.go''), main_go),
      (clean (root @ ''/README.md''), ''# '' @ name @ newline @ newline @ ''Generated with elgon CLI.'' @ newline)]"

definition new_dirs :: "(string \<Rightarrow> string) \<Rightarrow> string \<Rightarrow> string list" where
  "new_dirs clean root = map clean [root @ ''/cmd/api'', root @ ''/internal/http/handlers'', root @ ''/migrations'']"

definition cmd_new :: "new_world \<Rightarrow> string list \<Rightarrow> files \<Rightarrow> new_error option \<times> files" where
  "cmd_new w args files =
     (case args of
        [] \<Rightarrow> (Some UsageNew, files)
      | name # rest \<Rightarrow>
          if name = [] then (Some EmptyAppName, files)
          else
            (let root = nw_clean w name in
             case make_dirs w (new_dirs (nw_clean w) root) of
               Some err \<Rightarrow> (Some (NewFailed err), files)
             | None \<Rightarrow>
                 (case write_missing w (new_files (nw_clean w) name root) files of
                    (err, files') \<Rightarrow> (map_option NewFailed err, files'))))"

lemma write_if_missing_keeps: "write_if_missing w path content files = (r, files') \<Longrightarrow> files p = Some c \<Longrightarrow> files' p = Some c"
  by (auto simp: write_if_missing_def write_file_def split: if_splits option.splits)

lemma write_missing_keeps: "write_missing w ps files = (r, files') \<Longrightarrow> files p = Some c \<Longrightarrow> files' p = Some c"
  by (induction w ps files rule: write_missing.induct)
    (auto split: prod.splits option.splits dest: write_if_missing_keeps)

lemma write_if_missing_there: "write_if_missing w path content files = (None, files') \<Longrightarrow> files' path \<noteq> None"
  by (auto simp: write_if_missing_def write_file_def split: if_splits option.splits)

lemma write_missing_there:
  "write_missing w ps files = (None, files') \<Longrightarrow> path \<in> fst ` set ps \<Longrightarrow> files' path \<noteq> None"
proof (induction w ps files rule: write_missing.induct)
  case (2 w p content ps files)
  then obtain files1 where one: "write_if_missing w p content files = (None, files1)"
    and rest: "write_missing w ps files1 = (None, files')"
    by (auto split: prod.splits option.splits)
  show ?case
  proof (cases "path = p")
    case True
    then obtain c where "files1 path = Some c" using write_if_missing_there [OF one] by auto
    then show ?thesis using write_missing_keeps [OF rest] by simp
  next
    case False
    then show ?thesis using "2.IH" [OF one [symmetric] refl rest] "2.prems"(2) by auto
  qed
qed simp

section \<open>Model files\<close>

datatype resolve_error = ModelsRequired | BadPattern string | NoModelMatched

text \<open>\<open>filepath.Ext\<close>: from the last dot of the last element.\<close>

definition file_ext :: "string \<Rightarrow> string" where
  "file_ext path =
     (let tail = rev (takeWhile (\<lambda>c. c \<noteq> CHR ''/'') (rev path));
          ext = rev (takeWhile (\<lambda>c. c \<noteq> CHR ''.'') (rev tail))
      in if CHR ''.'' \<in> set tail then CHR ''.'' # ext else [])"

definition go_source :: "string \<Rightarrow> bool" where
  "go_source path \<longleftrightarrow> to_lower (file_ext path) = ''.go''"

fun add_matches :: "string list \<Rightarrow> string list \<Rightarrow> string list" where
  "add_matches [] out = out"
| "add_matches (m # ms) out =
     (if \<not> go_source m \<or> m \<in> set out then add_matches ms out else add_matches ms (out @ [m]))"

fun resolve_parts ::
  "(string \<Rightarrow> string + string list) \<Rightarrow> (string \<Rightarrow> bool) \<Rightarrow> string list \<Rightarrow> string list \<Rightarrow> resolve_error + string list" where
  "resolve_parts glob there [] out = Inr out"
| "resolve_parts glob there (part # parts) out =
     (let part = trim_space part in
      if part = [] then resolve_parts glob there parts out
      else
        (case glob part of
           Inl err \<Rightarrow> Inl (BadPattern err)
         | Inr matches \<Rightarrow>
             (let matches = (if matches = [] \<and> there part then [part] else matches)
              in resolve_parts glob there parts (add_matches matches out))))"

definition resolve_model_files ::
  "(string \<Rightarrow> string + string list) \<Rightarrow> (string \<Rightarrow> bool) \<Rightarrow> string \<Rightarrow> resolve_error + string list" where
  "resolve_model_files glob there raw =
     (if trim_space raw = [] then Inl ModelsRequired
      else
        (case resolve_parts glob there (split_on (CHR '','') raw) [] of
           Inl e \<Rightarrow> Inl e
         | Inr out \<Rightarrow> if out = [] then Inl NoModelMatched else Inr (sort out)))"

definition distinct_sources :: "string list \<Rightarrow> bool" where
  "distinct_sources files \<longleftrightarrow> distinct files \<and> (\<forall>f\<in>set files. go_source f)"

lemma distinct_sources_snoc:
  "distinct_sources out \<Longrightarrow> go_source m \<Longrightarrow> m \<notin> set out \<Longrightarrow> distinct_sources (out @ [m])"
  by (simp add: distinct_sources_def)

lemma add_matches_ok: "distinct_sources out \<Longrightarrow> distinct_sources (add_matches ms out)"
proof (induction ms arbitrary: out)
  case (Cons m ms)
  show ?case
  proof (cases "\<not> go_source m \<or> m \<in> set out")
    case True
    then show ?thesis using Cons by simp
  next
    case False
    then show ?thesis using Cons.IH [OF distinct_sources_snoc [OF Cons.prems]] by simp
  qed
qed simp

lemma resolve_parts_ok:
  "resolve_parts glob there parts out = Inr files \<Longrightarrow> distinct_sources out \<Longrightarrow> distinct_sources files"
proof (induction parts arbitrary: out)
  case (Cons part parts)
  show ?case
  proof (cases "trim_space part = []")
    case True
    then show ?thesis using Cons by simp
  next
    case False
    then obtain ms where "resolve_parts glob there parts (add_matches ms out) = Inr files"
      using Cons.prems(1) by (auto simp: Let_def split: sum.splits)
    then show ?thesis using Cons.IH add_matches_ok [OF Cons.prems(2)] by blast
  qed
qed simp

lemma resolved_models:
  assumes "resolve_model_files glob there raw = Inr files"
  shows "files \<noteq> [] \<and> sorted files \<and> distinct files \<and> (\<forall>f\<in>set files. go_source f)"
proof -
  obtain out where out: "resolve_parts glob there (split_on (CHR '','') raw) [] = Inr out" "out \<noteq> []" "files = sort out"
    using assms by (auto simp: resolve_model_files_def split: if_splits sum.splits)
  have "distinct_sources out" by (rule resolve_parts_ok [OF out(1)]) (simp add: distinct_sources_def)
  then show ?thesis using out(2,3) by (auto simp: distinct_sources_def)
qed

section \<open>The migrate command\<close>

record migrate_flags =
  mf_dir :: string
  mf_driver :: string
  mf_dsn :: string
  mf_dialect :: string
  mf_steps :: int
  mf_models :: string
  mf_name :: string
  mf_apply :: bool

definition migrate_flag_set :: flag_set where
  "migrate_flag_set =
     [(''dir'', TextFlag ''migrations''), (''driver'', TextFlag ''sqlite''), (''dsn'', TextFlag ''file::memory:?cache=shared''),
      (''dialect'', TextFlag []), (''steps'', IntFlag 1), (''models'', TextFlag []), (''name'', TextFlag ''autogen''),
      (''apply'', BoolFlag False)]"

definition migrate_flags_of :: "flag_set \<Rightarrow> migrate_flags" where
  "migrate_flags_of fs =
     \<lparr>mf_dir = text_of fs ''dir'', mf_driver = text_of fs ''driver'', mf_dsn = text_of fs ''dsn'',
      mf_dialect = text_of fs ''dialect'', mf_steps = int_of fs ''steps'', mf_models = text_of fs ''models'',
      mf_name = text_of fs ''name'', mf_apply = bool_of fs ''apply''\<rparr>"

text \<open>Arguments behind the flags are not looked at.\<close>

definition parse_migrate_flags :: "string list \<Rightarrow> flag_error + migrate_flags" where
  "parse_migrate_flags args =
     (case parse_flags migrate_flag_set args of Inl e \<Rightarrow> Inl e | Inr (fs, rest) \<Rightarrow> Inr (migrate_flags_of fs))"

datatype cli_error =
    UsageMigrate
  | FlagError flag_error
  | ResolveError resolve_error
  | GenError gen_error
  | OpenError string
  | LoadError load_error
  | MigError mig_error
  | UnknownAction string

datatype line = Generated string | Applied nat | RolledBack nat | StatusLine mig_status

record 'd migrate_world =
  mw_glob :: "string \<Rightarrow> string + string list"
  mw_there :: "string \<Rightarrow> bool"
  mw_gen :: "string \<Rightarrow> gen_world"
  mw_open :: "string \<Rightarrow> string \<Rightarrow> string + 'd sql_handle"
  mw_read_dir :: "string \<Rightarrow> files \<Rightarrow> string + dir_entry list"

text \<open>The branch of \<open>generate\<close>: the files are written before a database is opened.\<close>

definition cmd_generate ::
  "'d migrate_world \<Rightarrow> migrate_flags \<Rightarrow> files \<times> 'd \<Rightarrow> (cli_error + line list) \<times> files \<times> 'd" where
  "cmd_generate w fl st =
     (case st of (files, d) \<Rightarrow>
     (case resolve_model_files (mw_glob w) (mw_there w) (mf_models fl) of
        Inl e \<Rightarrow> (Inl (ResolveError e), files, d)
      | Inr models \<Rightarrow>
          (case generate_from_model_files (mw_gen w (mf_dir fl)) (mf_dialect fl) (mf_name fl) models files of
             (Inl e, files') \<Rightarrow> (Inl (GenError e), files', d)
           | (Inr g, files') \<Rightarrow>
               (let printed = [Generated (gn_up_path g), Generated (gn_down_path g)] in
                if \<not> mf_apply fl then (Inr printed, files', d)
                else
                  (case open_sql (mw_open w) (mf_driver fl) (mf_dsn fl) of
                     Inl e \<Rightarrow> (Inl (OpenError e), files', d)
                   | Inr a \<Rightarrow>
                       (case mig_up (new_engine (mf_dialect fl)) a
                          [\<lparr>mg_version = gn_version g, mg_name = gn_name g, mg_up = gn_up_sql g, mg_down = gn_down_sql g\<rparr>]
                          0 d of
                          ((n, Some e), d') \<Rightarrow> (Inl (MigError e), files', d')
                        | ((n, None), d') \<Rightarrow> (Inr (printed @ [Applied n]), files', d')))))))"

definition run_action ::
  "'d adapter \<Rightarrow> migrate_flags \<Rightarrow> string \<Rightarrow> migration list \<Rightarrow> 'd \<Rightarrow> (cli_error + line list) \<times> 'd" where
  "run_action a fl action migs d =
     (let e = new_engine (mf_dialect fl) in
      if action = ''up'' then
        (case mig_up e a migs (if mf_steps fl < 0 then 0 else mf_steps fl) d of
           ((n, Some err), d') \<Rightarrow> (Inl (MigError err), d')
         | ((n, None), d') \<Rightarrow> (Inr [Applied n], d'))
      else if action = ''down'' then
        (case mig_down e a migs (mf_steps fl) d of
           ((n, Some err), d') \<Rightarrow> (Inl (MigError err), d')
         | ((n, None), d') \<Rightarrow> (Inr [RolledBack n], d'))
      else if action = ''status'' then
        (case mig_status_of e a migs d of
           (Inl err, d') \<Rightarrow> (Inl (MigError err), d')
         | (Inr st, d') \<Rightarrow> (Inr (map StatusLine st), d'))
      else (Inl (UnknownAction action), d))"

definition cmd_migrate ::
  "'d migrate_world \<Rightarrow> string list \<Rightarrow> files \<times> 'd \<Rightarrow> (cli_error + line list) \<times> files \<times> 'd" where
  "cmd_migrate w args st =
     (case args of
        [] \<Rightarrow> (Inl UsageMigrate, st)
      | action # rest \<Rightarrow>
          (case parse_migrate_flags rest of
             Inl e \<Rightarrow> (Inl (FlagError e), st)
           | Inr fl \<Rightarrow>
               if action = ''generate'' then cmd_generate w fl st
               else
                 (case open_sql (mw_open w) (mf_driver fl) (mf_dsn fl) of
                    Inl e \<Rightarrow> (Inl (OpenError e), st)
                  | Inr a \<Rightarrow>
                      (case load (mf_dialect fl) (mw_read_dir w (mf_dir fl) (fst st)) of
                         Inl e \<Rightarrow> (Inl (LoadError e), st)
                       | Inr migs \<Rightarrow> (case run_action a fl action migs (snd st) of (r, d') \<Rightarrow> (r, fst st, d'))))))"

section \<open>The openapi command\<close>

record openapi_flags =
  of_file :: string
  of_title :: string
  of_version :: string

datatype openapi_error =
    UsageOpenapi
  | OpenapiFlags flag_error
  | OpenapiFile string
  | OpenapiJson string
  | FieldMissing string
  | UnknownOpenapiAction string

definition skeleton_document :: "string \<Rightarrow> string \<Rightarrow> 'f json_map" where
  "skeleton_document title version =
     [(''openapi'', JStr ''3.0.3''), (''info'', JObj [(''title'', JStr title), (''version'', JStr version)]),
      (''paths'', JObj [])]"

definition is_object :: "'f json option \<Rightarrow> bool" where
  "is_object v = (case v of Some (JObj kvs) \<Rightarrow> True | _ \<Rightarrow> False)"

definition check_document :: "'f json_map \<Rightarrow> openapi_error option" where
  "check_document doc =
     (if (case map_of doc ''openapi'' of Some (JStr s) \<Rightarrow> False | _ \<Rightarrow> True) then Some (FieldMissing ''openapi'')
      else if \<not> is_object (map_of doc ''info'') then Some (FieldMissing ''info'')
      else if \<not> is_object (map_of doc ''paths'') then Some (FieldMissing ''paths'')
      else None)"

text \<open>The version is \<open>elgon.Version\<close> when no flag gives one.\<close>

definition parse_openapi_flags :: "string list \<Rightarrow> flag_error + openapi_flags" where
  "parse_openapi_flags args =
     (case parse_flags [(''file'', TextFlag ''openapi.json''), (''title'', TextFlag ''elgon API''), (''version'', TextFlag elgon_version)] args of
        Inl e \<Rightarrow> Inl e
      | Inr (fs, rest) \<Rightarrow>
          Inr \<lparr>of_file = text_of fs ''file'', of_title = text_of fs ''title'', of_version = text_of fs ''version''\<rparr>)"

definition cmd_openapi ::
  "('f json_map \<Rightarrow> string) \<Rightarrow> (string \<Rightarrow> string + 'f json_map) \<Rightarrow>
   (string \<Rightarrow> (string \<times> string option) option) \<Rightarrow> string list \<Rightarrow> files \<Rightarrow> openapi_error option \<times> files" where
  "cmd_openapi marshal unmarshal torn args files =
     (case args of
        [] \<Rightarrow> (Some UsageOpenapi, files)
      | action # rest \<Rightarrow>
          (case parse_openapi_flags rest of
             Inl e \<Rightarrow> (Some (OpenapiFlags e), files)
           | Inr fl \<Rightarrow>
               if action = ''generate'' then
                 (case write_file torn (of_file fl) (marshal (skeleton_document (of_title fl) (of_version fl))) files of
                    (err, files') \<Rightarrow> (map_option OpenapiFile err, files'))
               else if action = ''validate'' then
                 (case files (of_file fl) of
                    None \<Rightarrow> (Some (OpenapiFile ''no such file''), files)
                  | Some content \<Rightarrow>
                      (case unmarshal content of
                         Inl e \<Rightarrow> (Some (OpenapiJson e), files)
                       | Inr doc \<Rightarrow> (check_document doc, files)))
               else (Some (UnknownOpenapiAction action), files)))"

text \<open>A document that \<open>generate\<close> wrote passes \<open>validate\<close>, if JSON is read back as written.\<close>

lemma skeleton_document_checks: "check_document (skeleton_document title version) = None"
  by (simp add: check_document_def skeleton_document_def is_object_def)

lemma generated_document_validates:
  assumes "cmd_openapi marshal unmarshal torn (''generate'' # rest) files = (None, files')"
    and "\<And>doc. unmarshal (marshal doc) = Inr doc"
  shows "cmd_openapi marshal unmarshal torn (''validate'' # rest) files' = (None, files')"
proof -
  obtain fl where fl: "parse_openapi_flags rest = Inr fl" and
    w: "write_file torn (of_file fl) (marshal (skeleton_document (of_title fl) (of_version fl))) files = (None, files')"
    using assms(1) by (auto simp: cmd_openapi_def split: sum.splits prod.splits)
  then have "files' (of_file fl) = Some (marshal (skeleton_document (of_title fl) (of_version fl)))"
    by (auto simp: write_file_def split: option.splits)
  then show ?thesis using fl assms(2) by (simp add: cmd_openapi_def skeleton_document_checks)
qed

section \<open>Properties\<close>

text \<open>
  \<open>elgon new\<close> never changes a file that is there, whether it succeeds or fails halfway, and
  when it succeeds the module file, the program and the readme of the project exist.
\<close>

theorem new_keeps_files:
  assumes "cmd_new w args files = (err, files')"
  shows "(\<forall>p c. files p = Some c \<longrightarrow> files' p = Some c) \<and>
    (err = None \<longrightarrow> (\<exists>name rest. args = name # rest \<and> name \<noteq> [] \<and>
       (\<forall>p \<in> fst ` set (new_files (nw_clean w) name (nw_clean w name)). files' p \<noteq> None)))"
proof -
  have same: ?thesis if "files' = files" "err \<noteq> None" using that by auto
  show ?thesis
  proof (cases args)
    case Nil
    then show ?thesis using assms same by (auto simp: cmd_new_def)
  next
    case (Cons name rest)
    let ?ds = "new_dirs (nw_clean w) (nw_clean w name)"
    show ?thesis
    proof (cases "name = [] \<or> make_dirs w ?ds \<noteq> None")
      case True
      then show ?thesis using assms same Cons by (auto simp: cmd_new_def Let_def split: if_splits)
    next
      case False
      then obtain err0 where w: "write_missing w (new_files (nw_clean w) name (nw_clean w name)) files = (err0, files')"
        "err = map_option NewFailed err0"
        using assms Cons by (auto simp: cmd_new_def Let_def split: prod.splits)
      then show ?thesis
        using write_missing_keeps [OF w(1)]
          write_missing_there [of w "new_files (nw_clean w) name (nw_clean w name)" files files'] False Cons
        by auto
    qed
  qed
qed

definition demo_new :: new_world where
  "demo_new = \<lparr>nw_mkdir = (\<lambda>d. None), nw_denied = (\<lambda>p. None), nw_torn = (\<lambda>p. None), nw_clean = (\<lambda>p. p)\<rparr>"

theorem new_keeps_files_example:
  "\<exists>files'. cmd_new demo_new [''shop''] [''shop/README.md'' \<mapsto> ''mine''] = (None, files') \<and>
     files' ''shop/README.md'' = Some ''mine'' \<and> files' ''shop/go.mod'' \<noteq> None"
proof -
  have "fst (cmd_new demo_new [''shop''] [''shop/README.md'' \<mapsto> ''mine'']) = None" by code_simp
  then obtain files' where r: "cmd_new demo_new [''shop''] [''shop/README.md'' \<mapsto> ''mine''] = (None, files')"
    by (metis prod.collapse)
  have "''shop/go.mod'' \<in> fst ` set (new_files (nw_clean demo_new) ''shop'' (nw_clean demo_new ''shop''))"
    by (simp add: new_files_def demo_new_def)
  with new_keeps_files [OF r] r show ?thesis by auto
qed

text \<open>
  C36. \<open>elgon migrate generate -apply\<close> runs what it wrote: when it succeeds, the two files are new
  and load as one migration, and the engine was run on exactly this migration; what it prints
  is the two files and the number the engine applied.
\<close>

theorem applied_is_what_loads:
  assumes "cmd_generate w fl (files, d) = (Inr printed, files', d')" "mf_apply fl"
    and "bytes_ok (mw_gen w (mf_dir fl))" "parse_int64 (gw_clock (mw_gen w (mf_dir fl))) = Some (int v)"
  shows "\<exists>g a n. open_sql (mw_open w) (mf_driver fl) (mf_dsn fl) = Inr a \<and>
    files (gn_up_path g) = None \<and> files (gn_down_path g) = None \<and>
    files' (gn_up_path g) = Some (gn_up_sql g) \<and> files' (gn_down_path g) = Some (gn_down_sql g) \<and>
    load dialect (Inr (listed g)) = Inr [loads_as g] \<and>
    mig_up (new_engine (mf_dialect fl)) a [loads_as g] 0 d = ((n, None), d') \<and>
    printed = [Generated (gn_up_path g), Generated (gn_down_path g), Applied n]"
proof -
  obtain models where m: "resolve_model_files (mw_glob w) (mw_there w) (mf_models fl) = Inr models"
    using assms(1) by (cases "resolve_model_files (mw_glob w) (mw_there w) (mf_models fl)") (simp_all add: cmd_generate_def)
  obtain r files1 where gen: "generate_from_model_files (mw_gen w (mf_dir fl)) (mf_dialect fl) (mf_name fl) models files = (r, files1)"
    by (rule prod.exhaust)
  obtain g where g: "r = Inr g" using assms(1) m gen by (cases r) (simp_all add: cmd_generate_def)
  obtain a where a: "open_sql (mw_open w) (mf_driver fl) (mf_dsn fl) = Inr a"
    using assms(1,2) m gen g
    by (cases "open_sql (mw_open w) (mf_driver fl) (mf_dsn fl)") (simp_all add: cmd_generate_def Let_def)
  obtain n err d1 where up: "mig_up (new_engine (mf_dialect fl)) a [loads_as g] 0 d = ((n, err), d1)"
    by (metis surj_pair)
  then have done_all: "err = None" "d1 = d'" "files1 = files'"
    "printed = [Generated (gn_up_path g), Generated (gn_down_path g), Applied n]"
    using assms(1,2) m gen g a by (cases err; simp add: cmd_generate_def Let_def loads_as_def)+
  from gen g done_all(3)
  have "generate_from_model_files (mw_gen w (mf_dir fl)) (mf_dialect fl) (mf_name fl) models files = (Inr g, files')" by simp
  from generated_loads [OF this assms(3,4), of dialect] a up done_all show ?thesis by blast
qed

definition demo_handle :: "log_db sql_handle" where
  "demo_handle = log_handle (\<lambda>q args. False) (\<lambda>q args. \<lparr>rows_columns = Some (Inr [''version'']), rows_data = [], rows_err = None\<rparr>)"

definition demo_migrate :: "log_db migrate_world" where
  "demo_migrate =
     \<lparr>mw_glob = (\<lambda>p. Inr [p]), mw_there = (\<lambda>p. False), mw_gen = (\<lambda>dir. demo_world 1),
      mw_open = (\<lambda>driver dsn. Inr demo_handle), mw_read_dir = (\<lambda>dir files. Inr [])\<rparr>"

definition demo_flags :: migrate_flags where
  "demo_flags =
     \<lparr>mf_dir = ''migrations'', mf_driver = ''sqlite'', mf_dsn = ''file::memory:'', mf_dialect = ''sqlite'', mf_steps = 1,
      mf_models = ''models.go'', mf_name = ''Init  Users!'', mf_apply = True\<rparr>"

theorem applied_is_what_loads_example:
  "\<exists>printed files' d'. cmd_generate demo_migrate demo_flags (Map.empty, ([], [])) = (Inr printed, files', d') \<and>
     (\<exists>g n. printed = [Generated (gn_up_path g), Generated (gn_down_path g), Applied n] \<and>
        load ''sqlite'' (Inr (listed g)) = Inr [loads_as g])"
proof -
  have models: "resolve_model_files (mw_glob demo_migrate) (mw_there demo_migrate) (mf_models demo_flags) = Inr [''models.go'']"
    by code_simp
  have flags: "mf_apply demo_flags" "mw_gen demo_migrate = (\<lambda>dir. demo_world 1)" "mf_dialect demo_flags = ''sqlite''"
    "mf_name demo_flags = ''Init  Users!''" "open_sql (mw_open demo_migrate) driver dsn = Inr (sql_adapter demo_handle)" for driver dsn
    by (simp_all add: demo_flags_def demo_migrate_def open_sql_def)
  have "fst (mig_up (new_engine ''sqlite'') (sql_adapter demo_handle) [loads_as (demo_generated ''0a0001'')] 0 ([], [])) = (1, None)"
    by code_simp
  then obtain d' where up: "mig_up (new_engine ''sqlite'') (sql_adapter demo_handle) [loads_as (demo_generated ''0a0001'')] 0 ([], [])
      = ((1, None), d')" by (metis prod.collapse)
  obtain printed files' where r: "cmd_generate demo_migrate demo_flags (Map.empty, ([], [])) = (Inr printed, files', d')"
    using models flags demo_run_eq(1) up by (simp add: cmd_generate_def Let_def loads_as_def)
  with applied_is_what_loads [OF r, of 42 "''sqlite''"] flags demo_world_ok [of 1] show ?thesis by auto
qed

end
