(* ===== verification/Cmd_Main.thy ===== *)
theory Cmd_Main imports Cmd_Elgon Migrate_Theorems begin

text \<open>
  The function \<open>main\<close> of cmd/elgon/main.go: the command is run, an error is printed and the exit
  status is 1. What a run does to files and database is the state; the programs it starts are
  recorded, and \<open>ew_run\<close> tells their errors.
\<close>

section \<open>The program\<close>

datatype elgon_error =
    NewError new_error
  | DevError dev_error
  | ProgramError string
  | MigrateError cli_error
  | OpenapiError openapi_error
  | UnknownCommandError string

record ('d, 'f) elgon_world =
  ew_new :: new_world
  ew_found :: "string \<Rightarrow> bool"
  ew_run :: "string \<Rightarrow> string list \<Rightarrow> string option"
  ew_migrate :: "'d migrate_world"
  ew_marshal :: "'f json_map \<Rightarrow> string"
  ew_unmarshal :: "string \<Rightarrow> string + 'f json_map"
  ew_torn :: "string \<Rightarrow> (string \<times> string option) option"

record elgon_result =
  er_exit :: nat
  er_error :: "elgon_error option"
  er_usage :: bool
  er_lines :: "line list"
  er_started :: "(string \<times> string list) list"

definition finish :: "elgon_error option \<Rightarrow> line list \<Rightarrow> (string \<times> string list) list \<Rightarrow> elgon_result" where
  "finish err printed started =
     \<lparr>er_exit = (if err = None then 0 else 1), er_error = err, er_usage = False, er_lines = printed, er_started = started\<rparr>"

definition run_cmd :: "('d, 'f) elgon_world \<Rightarrow> string \<Rightarrow> string list \<Rightarrow> elgon_result" where
  "run_cmd w prog args = finish (map_option ProgramError (ew_run w prog args)) [] [(prog, args)]"

definition elgon_main ::
  "('d, 'f) elgon_world \<Rightarrow> string list \<Rightarrow> files \<times> 'd \<Rightarrow> elgon_result \<times> files \<times> 'd" where
  "elgon_main w args st =
     (case main_command args of
        NoCommand \<Rightarrow> (\<lparr>er_exit = 1, er_error = None, er_usage = True, er_lines = [], er_started = []\<rparr>, st)
      | CmdNew rest \<Rightarrow>
          (case cmd_new (ew_new w) rest (fst st) of
             (err, files) \<Rightarrow> (finish (map_option NewError err) [] [], files, snd st))
      | CmdDev rest \<Rightarrow>
          (case cmd_dev (ew_found w) rest of
             Inl e \<Rightarrow> (finish (Some (DevError e)) [] [], st)
           | Inr (prog, prog_args) \<Rightarrow> (run_cmd w prog prog_args, st))
      | CmdProgram prog prog_args \<Rightarrow> (run_cmd w prog prog_args, st)
      | CmdMigrate rest \<Rightarrow>
          (case cmd_migrate (ew_migrate w) rest st of
             (Inl e, st') \<Rightarrow> (finish (Some (MigrateError e)) [] [], st')
           | (Inr printed, st') \<Rightarrow> (finish None printed [], st'))
      | CmdOpenapi rest \<Rightarrow>
          (case cmd_openapi (ew_marshal w) (ew_unmarshal w) (ew_torn w) rest (fst st) of
             (err, files) \<Rightarrow> (finish (map_option OpenapiError err) [] [], files, snd st))
      | UnknownCommand name \<Rightarrow> ((finish (Some (UnknownCommandError name)) [] [])\<lparr>er_usage := True\<rparr>, st))"

lemma finish_simps [simp]:
  "er_exit (finish err printed started) = (if err = None then 0 else 1)" "er_error (finish err printed started) = err"
  "er_lines (finish err printed started) = printed" "er_started (finish err printed started) = started"
  by (simp_all add: finish_def)

section \<open>Command lines that are refused\<close>

text \<open>The errors that are about the command line, not about what it asked for.\<close>

fun refused :: "elgon_error \<Rightarrow> bool" where
  "refused (NewError e) \<longleftrightarrow> e = UsageNew \<or> e = EmptyAppName"
| "refused (DevError e) \<longleftrightarrow> True"
| "refused (ProgramError e) \<longleftrightarrow> False"
| "refused (MigrateError e) \<longleftrightarrow>
     (case e of UsageMigrate \<Rightarrow> True | FlagError _ \<Rightarrow> True | ResolveError _ \<Rightarrow> True | UnknownAction _ \<Rightarrow> True | _ \<Rightarrow> False)"
| "refused (OpenapiError e) \<longleftrightarrow>
     (case e of UsageOpenapi \<Rightarrow> True | OpenapiFlags _ \<Rightarrow> True | UnknownOpenapiAction _ \<Rightarrow> True | _ \<Rightarrow> False)"
| "refused (UnknownCommandError name) \<longleftrightarrow> True"

lemma cmd_new_refused: "cmd_new w args files = (Some e, files') \<Longrightarrow> refused (NewError e) \<Longrightarrow> files' = files"
  by (auto simp: cmd_new_def Let_def split: list.splits if_splits option.splits prod.splits)

lemma cmd_generate_refused:
  "cmd_generate w fl st = (Inl e, st') \<Longrightarrow> refused (MigrateError e) \<Longrightarrow> st' = st"
  by (auto simp: cmd_generate_def Let_def split: prod.splits sum.splits if_splits option.splits)

lemma run_action_refused: "run_action a fl action migs d = (Inl e, d') \<Longrightarrow> refused (MigrateError e) \<Longrightarrow> d' = d"
  by (auto simp: run_action_def Let_def split: prod.splits sum.splits if_splits option.splits)

lemma cmd_migrate_refused:
  assumes "cmd_migrate w args st = (Inl e, st')" "refused (MigrateError e)"
  shows "st' = st"
proof (cases args)
  case Nil
  then show ?thesis using assms by (simp add: cmd_migrate_def)
next
  case (Cons action rest)
  then show ?thesis
    using assms cmd_generate_refused [of w _ st e st'] run_action_refused [of _ _ action _ "snd st" e]
    by (cases st) (auto simp: cmd_migrate_def split: prod.splits sum.splits if_splits)
qed

lemma cmd_openapi_refused:
  "cmd_openapi marshal unmarshal torn args files = (Some e, files') \<Longrightarrow> refused (OpenapiError e) \<Longrightarrow> files' = files"
  by (auto simp: cmd_openapi_def split: list.splits if_splits sum.splits prod.splits option.splits)

text \<open>
  C23. A command line that is refused, because it has no command or an unknown one, flags that do not
  parse, an unknown action or no models, ends with status 1 and changes no file and no database,
  prints no result and starts no program. Status 0 means that there was a command and no error.
\<close>

theorem refused_command_line_changes_nothing:
  assumes "elgon_main w args st = (r, st')"
  shows "(args = [] \<or> (\<exists>e. er_error r = Some e \<and> refused e) \<longrightarrow>
      st' = st \<and> er_exit r = 1 \<and> er_lines r = [] \<and> er_started r = []) \<and>
    (er_exit r = 0 \<longleftrightarrow> args \<noteq> [] \<and> er_error r = None)"
proof (cases "main_command args")
  case (CmdNew rest)
  then have "args \<noteq> []" by (auto simp: main_command_def)
  with CmdNew assms cmd_new_refused [of "ew_new w" rest "fst st"] show ?thesis
    by (auto simp: elgon_main_def split: prod.splits if_splits)
next
  case (CmdDev rest)
  then have "args \<noteq> []" by (auto simp: main_command_def)
  with CmdDev assms show ?thesis by (auto simp: elgon_main_def run_cmd_def split: sum.splits prod.splits if_splits)
next
  case (CmdProgram prog prog_args)
  then have "args \<noteq> []" by (auto simp: main_command_def)
  with CmdProgram assms show ?thesis by (auto simp: elgon_main_def run_cmd_def split: if_splits)
next
  case (CmdMigrate rest)
  then have "args \<noteq> []" by (auto simp: main_command_def)
  with CmdMigrate assms cmd_migrate_refused [of "ew_migrate w" rest st] show ?thesis
    by (auto simp: elgon_main_def split: sum.splits prod.splits if_splits)
next
  case (CmdOpenapi rest)
  then have "args \<noteq> []" by (auto simp: main_command_def)
  with CmdOpenapi assms cmd_openapi_refused [of "ew_marshal w" "ew_unmarshal w" "ew_torn w" rest "fst st"] show ?thesis
    by (auto simp: elgon_main_def split: prod.splits if_splits)
next
  case (UnknownCommand name)
  then have "args \<noteq> []" by (auto simp: main_command_def)
  with UnknownCommand assms show ?thesis by (auto simp: elgon_main_def finish_def)
next
  case NoCommand
  with assms show ?thesis by (auto simp: elgon_main_def main_command_def split: list.splits if_splits)
qed


definition demo_elgon :: "(log_db, unit) elgon_world" where
  "demo_elgon =
     \<lparr>ew_new = demo_new, ew_found = (\<lambda>prog. True), ew_run = (\<lambda>prog args. None), ew_migrate = demo_migrate,
      ew_marshal = (\<lambda>doc. []), ew_unmarshal = (\<lambda>s. Inr []), ew_torn = (\<lambda>p. None)\<rparr>"

text \<open>A flag that is not defined stops the command, and so does an argument behind \<open>dev\<close>.\<close>

theorem refused_command_line_changes_nothing_example:
  "snd (elgon_main demo_elgon [''migrate'', ''up'', ''-step=2''] (Map.empty, ([], []))) = (Map.empty, ([], [])) \<and>
   er_exit (fst (elgon_main demo_elgon [''migrate'', ''up'', ''-step=2''] (Map.empty, ([], [])))) = 1"
proof -
  let ?args = "[''migrate'', ''up'', ''-step=2'']"
  have "parse_migrate_flags [''-step=2''] = Inl (FlagUndefined ''step'')"
    by (simp add: parse_migrate_flags_def parse_flags.simps(2) flag_shaped_def parse_one_def flag_name_part_def flag_parts_def
        migrate_flag_set_def)
  then have "er_error (fst (elgon_main demo_elgon ?args (Map.empty, ([], [])))) = Some (MigrateError (FlagError (FlagUndefined ''step'')))"
    by (simp add: elgon_main_def main_command_def cmd_migrate_def)
  then show ?thesis
    using refused_command_line_changes_nothing
        [of demo_elgon ?args "(Map.empty, ([], []))", OF prod.collapse [symmetric]] by simp
qed

section \<open>What the flags say\<close>

text \<open>The flags of a record, each in one argument.\<close>

definition migrate_arguments :: "migrate_flags \<Rightarrow> string list" where
  "migrate_arguments fl =
     [flag_with ''dir'' (mf_dir fl), flag_with ''driver'' (mf_driver fl), flag_with ''dsn'' (mf_dsn fl),
      flag_with ''dialect'' (mf_dialect fl), flag_with ''steps'' (show_int (mf_steps fl)),
      flag_with ''models'' (mf_models fl), flag_with ''name'' (mf_name fl),
      flag_with ''apply'' (if mf_apply fl then ''true'' else ''false'')]"

definition steps_in_range :: "migrate_flags \<Rightarrow> bool" where
  "steps_in_range fl \<longleftrightarrow> - (2 ^ 63) \<le> mf_steps fl \<and> mf_steps fl < 2 ^ 63"

lemma plain_names:
  "plain_name ''dir''" "plain_name ''driver''" "plain_name ''dsn''" "plain_name ''dialect''" "plain_name ''steps''"
  "plain_name ''models''" "plain_name ''name''" "plain_name ''apply''"
  by (simp_all add: plain_name_def)

text \<open>
  Whatever the values are, texts that look like flags included, they are read as they were given, and
  everything behind the first other argument is without effect.
\<close>

lemma migrate_arguments_read:
  assumes "steps_in_range fl"
  shows "\<exists>fs. parse_flags migrate_flag_set (migrate_arguments fl) = Inr (fs, []) \<and> migrate_flags_of fs = fl"
proof -
  have steps: "parse_int_any (show_int (mf_steps fl)) = Some (mf_steps fl)"
    using assms by (simp add: steps_in_range_def parse_int_any_show)
  have bool: "parse_bool (if mf_apply fl then ''true'' else ''false'') = Some (mf_apply fl)" by (simp add: parse_bool_def)
  show ?thesis
    by (simp add: migrate_arguments_def parse_flags_with plain_names steps bool migrate_flag_set_def migrate_flags_of_def
        text_of_def int_of_def bool_of_def)
qed

lemma migrate_flags_read:
  assumes "steps_in_range fl" "extra = [] \<or> \<not> flag_shaped (hd extra)"
  shows "parse_migrate_flags (migrate_arguments fl @ extra) = Inr fl"
proof -
  obtain fs where fs: "parse_flags migrate_flag_set (migrate_arguments fl) = Inr (fs, [])" "migrate_flags_of fs = fl"
    using migrate_arguments_read [OF assms(1)] by blast
  then have "parse_flags migrate_flag_set (migrate_arguments fl @ extra) = Inr (fs, extra)"
    using assms(2) parse_flags_end [OF fs(1)] by (cases extra) auto
  with fs(2) show ?thesis by (simp add: parse_migrate_flags_def)
qed

section \<open>The up command\<close>


definition shop_elgon :: "(log_db, unit) elgon_world" where
  "shop_elgon = demo_elgon\<lparr>ew_migrate := demo_migrate\<lparr>
     mw_open := (\<lambda>driver dsn. Inr (log_handle (\<lambda>q args. False) no_versions)), mw_read_dir := (\<lambda>dir files. Inr one_migration)\<rparr>\<rparr>"

definition shop_flags :: migrate_flags where
  "shop_flags = demo_flags\<lparr>mf_dsn := ''-steps=7'', mf_steps := - 1\<rparr>"


end
