(* ===== verification/Openapi.thy ===== *)
theory Openapi imports App Go_Types Go_Json Go_Strconv "HOL-Library.AList" begin

text \<open>
  Package \<open>openapi\<close>: the document made of an application's routes (openapi.go) and the schemas
  made of Go types (schema.go). The maps the source fills key by key are typed here: a schema is
  its kind with the annotations set on it, an operation's entry and the document are records.
  \<open>encoding/json\<close>, \<open>strconv.ParseFloat\<close> (record \<open>readers\<close>) and \<open>http.StatusText\<close> are arguments.
  Recursion over types that refer to each other has fuel; \<open>None\<close> means that it ran out.
\<close>

section \<open>Schemas\<close>

type_synonym 'f annotations = "(string \<times> 'f json) list"

datatype 'f schema =
    RefSchema string "'f annotations"
  | TypeSchema string "'f annotations"
  | ArraySchema "'f schema" "'f annotations"
  | MapSchema "'f schema" "'f annotations"
  | ObjectSchema "(string \<times> 'f schema) list" "string list" "'f annotations"

type_synonym 'f components = "(string \<times> 'f schema) list"

record 'f readers =
  rd_float :: "string \<Rightarrow> 'f option"
  rd_json :: "string \<Rightarrow> 'f json option"

definition schema_kind :: "'f schema \<Rightarrow> string" where
  "schema_kind s =
     (case s of
        RefSchema r a \<Rightarrow> []
      | TypeSchema k a \<Rightarrow> k
      | ArraySchema i a \<Rightarrow> ''array''
      | MapSchema v a \<Rightarrow> ''object''
      | ObjectSchema ps req a \<Rightarrow> ''object'')"

definition typed_example :: "'f readers \<Rightarrow> string \<Rightarrow> string \<Rightarrow> 'f json" where
  "typed_example rd raw kind =
     (if kind = ''integer'' then (case parse_int64 raw of Some v \<Rightarrow> JInt v | None \<Rightarrow> JStr raw)
      else if kind = ''number'' then (case rd_float rd raw of Some v \<Rightarrow> JNum v | None \<Rightarrow> JStr raw)
      else if kind = ''boolean'' then (case parse_bool raw of Some v \<Rightarrow> JBool v | None \<Rightarrow> JStr raw)
      else if kind = ''array'' \<or> kind = ''object'' then (case rd_json rd raw of Some v \<Rightarrow> v | None \<Rightarrow> JStr raw)
      else JStr raw)"

text \<open>The options of an \<open>openapi\<close> tag, one after the other.\<close>

definition openapi_option :: "'f readers \<Rightarrow> string \<Rightarrow> string \<Rightarrow> 'f annotations \<Rightarrow> 'f annotations" where
  "openapi_option rd kind part a =
     (case cut_at (CHR ''='') (trim_space part) of
        (key, v, found) \<Rightarrow>
          (let key = trim_space key; v = trim_space v in
           if \<not> found then a
           else if key = ''description'' \<or> key = ''format'' \<or> key = ''pattern'' then AList.update key (JStr v) a
           else if key = ''example'' then AList.update key (typed_example rd v kind) a
           else if key = ''enum'' then
             AList.update key (JArr (map (\<lambda>item. typed_example rd (trim_space item) kind) (split_on (CHR ''|'') v))) a
           else if key = ''minimum'' \<or> key = ''maximum'' then
             (case rd_float rd v of Some x \<Rightarrow> AList.update key (JNum x) a | None \<Rightarrow> a)
           else if key = ''minLength'' \<or> key = ''maxLength'' then
             (case parse_int64 v of Some n \<Rightarrow> AList.update key (JInt n) a | None \<Rightarrow> a)
           else a))"

definition field_annotations :: "'f readers \<Rightarrow> string \<Rightarrow> field_decl \<Rightarrow> 'f annotations \<Rightarrow> 'f annotations" where
  "field_annotations rd kind fd a =
     (let desc = trim_space (tag_get fd ''description'');
          a = (if desc \<noteq> [] then AList.update ''description'' (JStr desc) a else a);
          ex = trim_space (tag_get fd ''example'');
          a = (if ex \<noteq> [] then AList.update ''example'' (typed_example rd ex kind) a else a);
          raw = trim_space (tag_get fd ''openapi'')
      in if raw \<noteq> [] then fold (openapi_option rd kind) (split_on (CHR '','') raw) a else a)"

definition map_annotations :: "('f annotations \<Rightarrow> 'f annotations) \<Rightarrow> 'f schema \<Rightarrow> 'f schema" where
  "map_annotations f s =
     (case s of
        RefSchema r a \<Rightarrow> RefSchema r (f a)
      | TypeSchema k a \<Rightarrow> TypeSchema k (f a)
      | ArraySchema i a \<Rightarrow> ArraySchema i (f a)
      | MapSchema v a \<Rightarrow> MapSchema v (f a)
      | ObjectSchema ps req a \<Rightarrow> ObjectSchema ps req (f a))"

definition apply_field_annotations :: "'f readers \<Rightarrow> field_decl \<Rightarrow> 'f schema \<Rightarrow> 'f schema" where
  "apply_field_annotations rd fd s = map_annotations (field_annotations rd (schema_kind s) fd) s"

text \<open>\<open>jsonFieldName\<close>: the name (\<open>None\<close> for a field that is left out) and \<open>omitempty\<close>.\<close>

definition json_field_name :: "field_decl \<Rightarrow> (string \<times> bool) option" where
  "json_field_name fd =
     (let tag = tag_get fd ''json''; parts = split_on (CHR '','') tag;
          name = (if tag = ''-'' then [] else if tag = [] \<or> hd parts = [] then fd_name fd else hd parts)
      in if name = [] then None else Some (name, tag \<noteq> [] \<and> ''omitempty'' \<in> set (tl parts)))"

text \<open>
  \<open>buildSchema\<close> and its loop over the fields of a struct, with the properties and required
  names so far. A field that is a declared struct of another name becomes a component and a
  reference, every other field is built in place.
\<close>

function build_schema ::
  "type_env \<Rightarrow> 'f readers \<Rightarrow> nat \<Rightarrow> gtype \<Rightarrow> 'f components \<Rightarrow> ('f schema \<times> 'f components) option"
  and build_properties ::
  "type_env \<Rightarrow> 'f readers \<Rightarrow> nat \<Rightarrow> string \<Rightarrow> (field_decl \<times> gtype) list \<Rightarrow>
   (string \<times> 'f schema) list \<Rightarrow> string list \<Rightarrow> 'f components \<Rightarrow> ('f schema \<times> 'f components) option" where
  "build_schema env rd 0 ty comps = None"
| "build_schema env rd (Suc n) ty comps =
     (let t = fst (unwrap_type ty) in
      if t = time_type then Some (TypeSchema ''string'' [(''format'', JStr ''date-time'')], comps)
      else
        (case underlying env t of
           Basic KBool \<Rightarrow> Some (TypeSchema ''boolean'' [], comps)
         | Basic KFloat32 \<Rightarrow> Some (TypeSchema ''number'' [], comps)
         | Basic KFloat64 \<Rightarrow> Some (TypeSchema ''number'' [], comps)
         | Basic KString \<Rightarrow> Some (TypeSchema ''string'' [], comps)
         | Basic k \<Rightarrow> Some (TypeSchema ''integer'' [], comps)
         | SliceOf e \<Rightarrow> map_option (\<lambda>(s, c). (ArraySchema s [], c)) (build_schema env rd n e comps)
         | ArrayOf e \<Rightarrow> map_option (\<lambda>(s, c). (ArraySchema s [], c)) (build_schema env rd n e comps)
         | MapOf k e \<Rightarrow> map_option (\<lambda>(s, c). (MapSchema s [], c)) (build_schema env rd n e comps)
         | StructOf fds \<Rightarrow> build_properties env rd n (type_name t) fds [] [] comps
         | _ \<Rightarrow> Some (TypeSchema ''string'' [], comps)))"
| "build_properties env rd n tname [] props req comps = Some (ObjectSchema props req [], comps)"
| "build_properties env rd n tname ((fd, fty) # fds) props req comps =
     (if fd_pkg_path fd \<noteq> [] then build_properties env rd n tname fds props req comps
      else
        (case json_field_name fd of
           None \<Rightarrow> build_properties env rd n tname fds props req comps
         | Some (name, omit) \<Rightarrow>
             (let ft = fst (unwrap_type fty);
                  is_struct = (case underlying env ft of StructOf gs \<Rightarrow> True | _ \<Rightarrow> False);
                  shared = (is_struct \<and> type_name ft \<noteq> [] \<and> type_name ft \<noteq> tname)
              in case (if shared then
                     (if map_of comps (type_name ft) \<noteq> None then Some (RefSchema (type_name ft) [], comps)
                      else map_option (\<lambda>(s, c). (RefSchema (type_name ft) [], AList.update (type_name ft) s c))
                        (build_schema env rd n ft comps))
                   else build_schema env rd n fty comps) of
                   None \<Rightarrow> None
                 | Some (s, c) \<Rightarrow>
                     build_properties env rd n tname fds
                       (AList.update name (apply_field_annotations rd fd s) props)
                       (if omit then req else req @ [name]) c)))"
  by pat_completeness auto
termination
  by (relation "measures
      [case_sum (\<lambda>(env, rd, n, ty, c). n) (\<lambda>(env, rd, n, tn, fds, ps, req, c). n),
       case_sum (\<lambda>_. 0) (\<lambda>(env, rd, n, tn, fds, ps, req, c). Suc (length fds))]") auto

declare build_schema.simps(2) [simp del] build_properties.simps(2) [simp del]

section \<open>Documents\<close>

record 'f operation =
  op_summary :: string
  op_description :: string
  op_operation_id :: string
  op_tags :: "string list"
  op_requires_auth :: bool
  op_deprecated :: bool
  op_request_model :: "gtype option"
  op_response_model :: "gtype option"
  op_response_code :: int
  op_request_example :: "'f json option"
  op_response_example :: "'f json option"

definition no_operation :: "'f operation" where
  "no_operation =
     \<lparr>op_summary = [], op_description = [], op_operation_id = [], op_tags = [], op_requires_auth = False,
      op_deprecated = False, op_request_model = None, op_response_model = None, op_response_code = 0,
      op_request_example = None, op_response_example = None\<rparr>"

record 'f generator =
  ge_title :: string
  ge_version :: string
  ge_description :: string
  ge_server_urls :: "string list"
  ge_bearer_auth :: bool
  ge_opts :: "(string \<times> 'f operation) list"
  ge_schemas :: "'f components"

definition new_generator :: "string \<Rightarrow> string \<Rightarrow> 'f generator" where
  "new_generator title version =
     \<lparr>ge_title = (if title = [] then ''elgon API'' else title),
      ge_version = (if version = [] then ''0.1.0'' else version),
      ge_description = [], ge_server_urls = [''/''], ge_bearer_auth = False, ge_opts = [], ge_schemas = []\<rparr>"

definition enable_bearer_auth :: "'f generator \<Rightarrow> 'f generator" where
  "enable_bearer_auth g = g\<lparr>ge_bearer_auth := True\<rparr>"

definition operation_key :: "string \<Rightarrow> string \<Rightarrow> string" where
  "operation_key method path = to_upper method @ '' '' @ path"

definition add_operation :: "string \<Rightarrow> string \<Rightarrow> 'f operation \<Rightarrow> 'f generator \<Rightarrow> 'f generator" where
  "add_operation method path op g = g\<lparr>ge_opts := AList.update (operation_key method path) op (ge_opts g)\<rparr>"

definition register_schema ::
  "type_env \<Rightarrow> 'f readers \<Rightarrow> nat \<Rightarrow> string \<Rightarrow> gtype option \<Rightarrow> 'f generator \<Rightarrow> 'f generator option" where
  "register_schema env rd n name model g =
     (case model of
        None \<Rightarrow> Some g
      | Some t \<Rightarrow>
          if name = [] \<or> map_of (ge_schemas g) name \<noteq> None then Some g
          else
            map_option (\<lambda>(s, c). g\<lparr>ge_schemas := AList.update name s c\<rparr>)
              (build_schema env rd n t (ge_schemas g)))"

text \<open>\<open>ensureSchema\<close>: the name of the component of a model, empty for a type without a name.\<close>

definition ensure_schema ::
  "type_env \<Rightarrow> 'f readers \<Rightarrow> nat \<Rightarrow> gtype \<Rightarrow> 'f components \<Rightarrow> (string \<times> 'f components) option" where
  "ensure_schema env rd n model comps =
     (let t = fst (unwrap_type model); name = type_name t in
      if name = [] then Some ([], comps)
      else if map_of comps name \<noteq> None then Some (name, comps)
      else map_option (\<lambda>(s, c). (name, AList.update name s c)) (build_schema env rd n t comps))"

definition template_part :: "string \<Rightarrow> string" where
  "template_part p =
     (let p = (if prefix '':'' p then ''{'' @ drop 1 p @ ''}'' else p)
      in if prefix ''*'' p then ''{'' @ drop 1 p @ ''}'' else p)"

definition to_openapi_path :: "string \<Rightarrow> string" where
  "to_openapi_path path =
     (let out = join ''/'' (map template_part (split_on (CHR ''/'') path)) in if out = [] then ''/'' else out)"

definition path_params :: "string \<Rightarrow> string list" where
  "path_params path =
     map (\<lambda>p. butlast (tl p))
       (filter (\<lambda>p. length p \<ge> 2 \<and> hd p = CHR ''{'' \<and> last p = CHR ''}'') (split_on (CHR ''/'') path))"

text \<open>A body: the name of its schema and its example.\<close>

record 'f entry =
  en_operation :: "'f operation"
  en_parameters :: "string list"
  en_request_body :: "(string \<times> 'f json option) option"
  en_response_code :: int
  en_response_text :: string
  en_response_body :: "(string \<times> 'f json option) option"

record 'f document =
  do_generator :: "'f generator"
  do_servers :: "string list"
  do_paths :: "string \<Rightarrow> string \<Rightarrow> 'f entry option"
  do_security_scheme :: bool

definition model_body ::
  "type_env \<Rightarrow> 'f readers \<Rightarrow> nat \<Rightarrow> gtype option \<Rightarrow> 'f json option \<Rightarrow> 'f components \<Rightarrow>
   ((string \<times> 'f json option) option \<times> 'f components) option" where
  "model_body env rd n model example comps =
     (case model of
        None \<Rightarrow> Some (None, comps)
      | Some t \<Rightarrow>
          map_option (\<lambda>(name, c). (if name = [] then None else Some (name, example), c))
            (ensure_schema env rd n t comps))"

text \<open>The body of the loop of \<open>Build\<close>: the entry of one route.\<close>

definition route_entry_of ::
  "type_env \<Rightarrow> 'f readers \<Rightarrow> (int \<Rightarrow> string) \<Rightarrow> nat \<Rightarrow> 'f generator \<Rightarrow> string \<times> string \<Rightarrow> 'f components \<Rightarrow>
   ('f entry \<times> 'f components) option" where
  "route_entry_of env rd status_text n g r comps =
     (case r of (method, path) \<Rightarrow>
        (let op = (case map_of (ge_opts g) (operation_key method path) of None \<Rightarrow> no_operation | Some op \<Rightarrow> op);
             code = (if op_response_code op = 0 then 200 else op_response_code op)
         in case model_body env rd n (op_request_model op) (op_request_example op) comps of
              None \<Rightarrow> None
            | Some (request, c1) \<Rightarrow>
                (case model_body env rd n (op_response_model op) (op_response_example op) c1 of
                   None \<Rightarrow> None
                 | Some (response, c2) \<Rightarrow>
                     Some (\<lparr>en_operation = op, en_parameters = path_params (to_openapi_path path),
                            en_request_body = request, en_response_code = code,
                            en_response_text = status_text code, en_response_body = response\<rparr>, c2))))"

fun build_paths ::
  "type_env \<Rightarrow> 'f readers \<Rightarrow> (int \<Rightarrow> string) \<Rightarrow> nat \<Rightarrow> 'f generator \<Rightarrow> (string \<times> string) list \<Rightarrow>
   (string \<Rightarrow> string \<Rightarrow> 'f entry option) \<Rightarrow> bool \<Rightarrow> 'f components \<Rightarrow>
   ((string \<Rightarrow> string \<Rightarrow> 'f entry option) \<times> bool \<times> 'f components) option" where
  "build_paths env rd status_text n g [] paths bearer comps = Some (paths, bearer, comps)"
| "build_paths env rd status_text n g ((method, path) # rs) paths bearer comps =
     (case route_entry_of env rd status_text n g (method, path) comps of
        None \<Rightarrow> None
      | Some (e, c) \<Rightarrow>
          (let tpl = to_openapi_path path
           in build_paths env rd status_text n g rs
                (paths(tpl := (paths tpl)(to_lower method \<mapsto> e)))
                (bearer \<or> op_requires_auth (en_operation e)) c))"

text \<open>\<open>Build\<close>, which reads nothing of the application but its routes.\<close>

definition build_routes_document ::
  "type_env \<Rightarrow> 'f readers \<Rightarrow> (int \<Rightarrow> string) \<Rightarrow> nat \<Rightarrow> (string \<times> string) list \<Rightarrow> 'f generator \<Rightarrow>
   ('f document \<times> 'f generator) option" where
  "build_routes_document env rd status_text n routes g =
     (case build_paths env rd status_text n g routes (\<lambda>tpl method. None) (ge_bearer_auth g) (ge_schemas g) of
        None \<Rightarrow> None
      | Some (paths, bearer, comps) \<Rightarrow>
          (let g' = g\<lparr>ge_schemas := comps\<rparr>
           in Some (\<lparr>do_generator = g',
                     do_servers = (if ge_server_urls g = [] then [''/''] else ge_server_urls g),
                     do_paths = paths, do_security_scheme = bearer\<rparr>, g')))"

definition build_document ::
  "type_env \<Rightarrow> 'f readers \<Rightarrow> (int \<Rightarrow> string) \<Rightarrow> nat \<Rightarrow> 'w app \<Rightarrow> 'f generator \<Rightarrow> ('f document \<times> 'f generator) option" where
  "build_document env rd status_text n a g = build_routes_document env rd status_text n (app_routes a) g"

section \<open>Serving the document\<close>

text \<open>The page of \<open>swaggerHTML\<close>, line by line.\<close>

definition swagger_html :: "string \<Rightarrow> string" where \<open>
  swagger_html spec_path =
    join [CHR 0x0A]
      [''<!doctype html>'', ''<html>'', ''<head>'', ''  <meta charset="utf-8" />'',
       ''  <meta name="viewport" content="width=device-width, initial-scale=1" />'',
       ''  <title>elgon docs</title>'',
       ''  <link rel="stylesheet" href="https://unpkg.com/swagger-ui-dist@5/swagger-ui.css" />'',
       ''</head>'', ''<body>'', ''  <div id="swagger-ui"></div>'',
       ''  <script src="https://unpkg.com/swagger-ui-dist@5/swagger-ui-bundle.js"></script>'',
       ''  <script>'', ''    window.ui = SwaggerUIBundle({'',
       ''      url: '' @ [CHR 0x27] @ spec_path @ [CHR 0x27] @ '','',
       ''      dom_id: '' @ [CHR 0x27] @ ''#swagger-ui'' @ [CHR 0x27],
       ''    });'', ''  </script>'', ''</body>'', ''</html>'']\<close>

text \<open>
  The two handlers of \<open>Register\<close>. The application and the generator are pointers: the routes are
  those of the moment of the request, and the generator is a part of the world (\<open>get\<close>, \<open>put\<close>).
  Where the fuel of \<open>Build\<close> runs out the program would overflow its stack.
\<close>

record ('f, 'w) docs_access =
  da_routes :: "'w \<Rightarrow> (string \<times> string) list"
  da_get :: "'w \<Rightarrow> 'f generator"
  da_put :: "'f generator \<Rightarrow> 'w \<Rightarrow> 'w"

definition docs_json_handler ::
  "type_env \<Rightarrow> 'f readers \<Rightarrow> (int \<Rightarrow> string) \<Rightarrow> nat \<Rightarrow> ('f document \<Rightarrow> string + string) \<Rightarrow> ('f, 'w) docs_access \<Rightarrow>
   'w handler" where
  "docs_json_handler env rd status_text n enc da c s =
     (let w = header_set ''Content-Type'' ''application/json'' (ctx_writer c) in
      case build_routes_document env rd status_text n (da_routes da s) (da_get da s) of
        None \<Rightarrow> (Panicked ''stack overflow'', c\<lparr>ctx_writer := w\<rparr>, s)
      | Some (d, g) \<Rightarrow>
          (case enc d of
             Inl e \<Rightarrow> (Returned (Some (OtherError e)), c\<lparr>ctx_writer := w\<rparr>, da_put da g s)
           | Inr text \<Rightarrow> (Returned None, c\<lparr>ctx_writer := write_body text w\<rparr>, da_put da g s)))"

definition docs_html_handler :: "string \<Rightarrow> 'w handler" where
  "docs_html_handler json_path c s =
     (let w = header_set ''Content-Type'' ''text/html; charset=utf-8'' (ctx_writer c)
      in (Returned None, c\<lparr>ctx_writer := write_body (swagger_html json_path) w\<rparr>, s))"

definition register_docs :: "(string \<Rightarrow> 'w handler) \<Rightarrow> 'w handler \<Rightarrow> string \<Rightarrow> string \<Rightarrow> 'w app \<Rightarrow> 'w app \<times> bool" where
  "register_docs html json json_path docs_path a =
     (let json_path = (if json_path = [] then ''/openapi.json'' else json_path);
          docs_path = (if docs_path = [] then ''/docs'' else docs_path)
      in case app_route ''GET'' json_path json [] a of
           (a', True) \<Rightarrow> (a', True)
         | (a', False) \<Rightarrow> app_route ''GET'' docs_path (html json_path) [] a')"

end
