(* ===== verification/Openapi_Schemas.thy ===== *)
theory Openapi_Schemas imports Openapi begin

text \<open>
  \<open>buildSchema\<close>: more fuel does not change its result, its references have components, and it
  returns exactly for the types that do not contain themselves.
\<close>

section \<open>Steps of \<open>buildSchema\<close>\<close>

lemma unwrap_type_idem [simp]: "unwrap_type (fst (unwrap_type t)) = (fst (unwrap_type t), False)"
  by (induction t rule: unwrap_type.induct) auto

lemma build_schema_unwrap [simp]:
  "build_schema env rd n (fst (unwrap_type t)) comps = build_schema env rd n t comps"
  by (cases n) (simp_all add: build_schema.simps(2))

text \<open>The fields the loop looks at, and the types of the recursive calls for a type.\<close>

definition shown_field :: "field_decl \<Rightarrow> bool" where
  "shown_field fd \<longleftrightarrow> fd_pkg_path fd = [] \<and> json_field_name fd \<noteq> None"

definition type_parts :: "type_env \<Rightarrow> gtype \<Rightarrow> gtype list" where
  "type_parts env ty =
     (let t = fst (unwrap_type ty) in
      if t = time_type then []
      else
        (case underlying env t of
           SliceOf e \<Rightarrow> [e]
         | ArrayOf e \<Rightarrow> [e]
         | MapOf k e \<Rightarrow> [e]
         | StructOf fds \<Rightarrow> map snd (filter (\<lambda>(fd, fty). shown_field fd) fds)
         | _ \<Rightarrow> []))"

definition is_struct :: "type_env \<Rightarrow> gtype \<Rightarrow> bool" where
  "is_struct env t \<longleftrightarrow> (case underlying env t of StructOf gs \<Rightarrow> True | _ \<Rightarrow> False)"

text \<open>The schema of one field: a reference to a component, or the schema in place.\<close>

definition shared_field :: "type_env \<Rightarrow> string \<Rightarrow> gtype \<Rightarrow> bool" where
  "shared_field env tname fty \<longleftrightarrow>
     (let ft = fst (unwrap_type fty) in is_struct env ft \<and> type_name ft \<noteq> [] \<and> type_name ft \<noteq> tname)"

definition field_schema ::
  "type_env \<Rightarrow> 'f readers \<Rightarrow> nat \<Rightarrow> string \<Rightarrow> gtype \<Rightarrow> 'f components \<Rightarrow> ('f schema \<times> 'f components) option" where
  "field_schema env rd n tname fty comps =
     (let name = type_name (fst (unwrap_type fty)) in
      if shared_field env tname fty then
        (if map_of comps name \<noteq> None then Some (RefSchema name [], comps)
         else map_option (\<lambda>(s, c). (RefSchema name [], AList.update name s c)) (build_schema env rd n fty comps))
      else build_schema env rd n fty comps)"

lemma build_properties_Cons:
  "build_properties env rd n tname ((fd, fty) # fds) props req comps =
     (if shown_field fd then
        (case field_schema env rd n tname fty comps of
           None \<Rightarrow> None
         | Some (s, c) \<Rightarrow>
             build_properties env rd n tname fds
               (AList.update (fst (the (json_field_name fd))) (apply_field_annotations rd fd s) props)
               (if snd (the (json_field_name fd)) then req else req @ [fst (the (json_field_name fd))]) c)
      else build_properties env rd n tname fds props req comps)"
  by (auto simp: build_properties.simps(2) shown_field_def field_schema_def shared_field_def is_struct_def Let_def
      split: option.splits gtype.splits)

lemma build_schema_struct:
  assumes "fst (unwrap_type ty) \<noteq> time_type" "underlying env (fst (unwrap_type ty)) = StructOf fds"
  shows "build_schema env rd (Suc n) ty comps =
    build_properties env rd n (type_name (fst (unwrap_type ty))) fds [] [] comps"
  using assms by (simp add: build_schema.simps(2) Let_def)

text \<open>Induction over the two functions, with a step for the field loop over \<open>field_schema\<close>.\<close>

lemma build_schema_more_fuel:
  "build_schema env rd n ty comps = Some r \<Longrightarrow> build_schema env rd (Suc n) ty comps = Some r"
  "build_properties env rd n tname fds props req comps = Some r \<Longrightarrow>
     build_properties env rd (Suc n) tname fds props req comps = Some r"
proof (induction n arbitrary: ty comps r tname fds props req)
  case 0
  {
    case 1
    then show ?case by simp
  next
    case 2
    then show ?case
      by (induction fds arbitrary: props req comps)
        (auto simp: build_properties_Cons field_schema_def Let_def split: option.splits if_splits)
  }
next
  case (Suc n)
  note schema = Suc.IH(1) and loop = Suc.IH(2)
  {
    case 1
    show ?case
    proof (cases "fst (unwrap_type ty) = time_type")
      case True
      then show ?thesis using 1 by (simp add: build_schema.simps(2))
    next
      case False
      then show ?thesis using 1 loop schema
        by (subst build_schema.simps(2), subst (asm) build_schema.simps(2))
          (auto simp: Let_def split: gtype.splits basic_kind.splits)
    qed
  } note step = this
  have field: "field_schema env rd (Suc (Suc n)) tname fty comps = Some q"
    if "field_schema env rd (Suc n) tname fty comps = Some q" for tname fty comps q
    using that step by (auto simp: field_schema_def Let_def split: if_splits)
  {
    case 2
    then show ?case
    proof (induction fds arbitrary: props req comps)
      case Nil
      then show ?case by simp
    next
      case (Cons a fds)
      obtain fd fty where "a = (fd, fty)" by (cases a)
      then show ?case using Cons.prems Cons.IH field
        by (auto simp: build_properties_Cons split: option.splits if_splits)
    qed
  }
qed

lemma build_schema_fuel:
  assumes "build_schema env rd n ty comps = Some r" "n \<le> m"
  shows "build_schema env rd m ty comps = Some r"
  using assms(2,1) by (induction m rule: dec_induct) (auto intro: build_schema_more_fuel(1))

lemma build_properties_fuel:
  assumes "build_properties env rd n tname fds props req comps = Some r" "n \<le> m"
  shows "build_properties env rd m tname fds props req comps = Some r"
  using assms(2,1) by (induction m rule: dec_induct) (auto intro: build_schema_more_fuel(2))

section \<open>References\<close>

fun schema_refs :: "'f schema \<Rightarrow> string set" where
  "schema_refs (RefSchema r a) = {r}"
| "schema_refs (TypeSchema k a) = {}"
| "schema_refs (ArraySchema i a) = schema_refs i"
| "schema_refs (MapSchema v a) = schema_refs v"
| "schema_refs (ObjectSchema ps req a) = \<Union> (set (map (schema_refs \<circ> snd) ps))"

definition component_names :: "'f components \<Rightarrow> string set" where
  "component_names comps = fst ` set comps"

text \<open>A list of components whose references all lead to one of them.\<close>

definition closed_components :: "'f components \<Rightarrow> bool" where
  "closed_components comps \<longleftrightarrow> (\<forall>(name, s) \<in> set comps. schema_refs s \<subseteq> component_names comps)"

lemma schema_refs_annotated [simp]: "schema_refs (apply_field_annotations rd fd s) = schema_refs s"
  by (cases s) (simp_all add: apply_field_annotations_def map_annotations_def)

lemma component_names_update [simp]:
  "component_names (AList.update name s comps) = insert name (component_names comps)"
  by (simp add: component_names_def AList.dom_update)

lemma component_names_dom: "name \<in> component_names comps \<longleftrightarrow> map_of comps name \<noteq> None"
  by (auto simp: component_names_def map_of_eq_None_iff)

lemma set_alist_update: "set (AList.update k v al) \<subseteq> insert (k, v) (set al)"
  by (induction al) auto

lemma closed_components_update:
  assumes "closed_components comps" "schema_refs s \<subseteq> insert name (component_names comps)"
  shows "closed_components (AList.update name s comps)"
  using assms set_alist_update [of name s comps] by (auto simp: closed_components_def)

text \<open>A result that refers only to components of its list, which keeps what was there.\<close>

definition resolved :: "'f components \<Rightarrow> 'f schema \<times> 'f components \<Rightarrow> bool" where
  "resolved comps r \<longleftrightarrow>
     component_names comps \<subseteq> component_names (snd r) \<and> schema_refs (fst r) \<subseteq> component_names (snd r) \<and>
     (closed_components comps \<longrightarrow> closed_components (snd r))"

lemma field_schema_resolved:
  assumes "\<And>s c. build_schema env rd n fty comps = Some (s, c) \<Longrightarrow> resolved comps (s, c)"
    and "field_schema env rd n tname fty comps = Some (s, c)"
  shows "resolved comps (s, c)"
  using assms component_names_dom [of "type_name (fst (unwrap_type fty))" comps]
  by (auto simp: field_schema_def Let_def resolved_def split: if_splits intro!: closed_components_update)

definition prop_refs :: "(string \<times> 'f schema) list \<Rightarrow> string set" where
  "prop_refs ps = \<Union> (set (map (schema_refs \<circ> snd) ps))"

lemma resolved_intros [intro]:
  "resolved comps (TypeSchema k a, comps)"
  "resolved comps (s, c) \<Longrightarrow> resolved comps (ArraySchema s a, c)"
  "resolved comps (s, c) \<Longrightarrow> resolved comps (MapSchema s a, c)"
  by (simp_all add: resolved_def)

lemma prop_refs_Nil [simp]: "prop_refs [] = {}"
  by (simp add: prop_refs_def)

lemma update_prop_refs:
  "prop_refs (AList.update k s ps) \<subseteq>
     schema_refs s \<union> prop_refs ps"
  using set_alist_update [of k s ps] by (force simp: prop_refs_def)

lemma build_resolved:
  "build_schema env rd n ty comps = Some r \<Longrightarrow> resolved comps r"
  "build_properties env rd n tname fds props req comps = Some r \<Longrightarrow>
     prop_refs props \<subseteq> component_names comps \<Longrightarrow> resolved comps r"
proof (induction n arbitrary: ty comps r tname fds props req)
  have loop: "prop_refs props \<subseteq> component_names comps \<Longrightarrow> resolved comps r"
    if "\<And>ty comps r. build_schema env rd n ty comps = Some r \<Longrightarrow> resolved comps r"
      "build_properties env rd n tname fds props req comps = Some r" for n comps r tname fds props req
    using that(2)
  proof (induction fds arbitrary: props req comps)
    case Nil
    then have "r = (ObjectSchema props req [], comps)" by simp
    then show ?case using Nil.prems(1) unfolding resolved_def by (simp add: prop_refs_def)
  next
    case (Cons a fds)
    obtain fd fty where a: "a = (fd, fty)" by (cases a)
    show ?case
    proof (cases "shown_field fd")
      case False
      then show ?thesis using Cons a by (simp add: build_properties_Cons)
    next
      case True
      then obtain s c where f: "field_schema env rd n tname fty comps = Some (s, c)"
        and rest: "build_properties env rd n tname fds
          (AList.update (fst (the (json_field_name fd))) (apply_field_annotations rd fd s) props)
          (if snd (the (json_field_name fd)) then req else req @ [fst (the (json_field_name fd))]) c = Some r"
        using Cons.prems(2) a by (auto simp: build_properties_Cons split: option.splits)
      have res: "resolved comps (s, c)" by (rule field_schema_resolved [OF that(1) f])
      then have "resolved c r"
        using Cons.prems(1) update_prop_refs [of "fst (the (json_field_name fd))" "apply_field_annotations rd fd s" props]
        unfolding schema_refs_annotated by (intro Cons.IH [OF _ rest]) (auto simp only: resolved_def fst_conv snd_conv)
      then show ?thesis using res by (auto simp: resolved_def)
    qed
  qed
  {
    case 0
    {
      case 1
      then show ?case by simp
    next
      case 2
      then show ?case using loop [of 0] by simp
    }
  next
    case (Suc n)
    {
      case 1
      show ?case
      proof (cases "fst (unwrap_type ty) = time_type")
        case True
        then show ?thesis using 1 by (auto simp: build_schema.simps(2))
      next
        case False
        then show ?thesis using 1 Suc.IH
          by (subst (asm) build_schema.simps(2))
            (auto simp: Let_def split: gtype.splits basic_kind.splits)
      qed
    } note step = this
    {
      case 2
      show ?case by (rule loop [where n = "Suc n", OF _ 2]) (rule step)
    }
  }
qed

section \<open>The types for which \<open>buildSchema\<close> returns\<close>

text \<open>A type that unfolds to a finite tree: nothing it is made of contains it again.\<close>

inductive unfolds :: "type_env \<Rightarrow> gtype \<Rightarrow> bool" for env where
  unfolds_step: "(\<And>p. p \<in> set (type_parts env ty) \<Longrightarrow> unfolds env p) \<Longrightarrow> unfolds env ty"

inductive_cases unfoldsE: "unfolds env ty"

lemma type_parts_unwrap [simp]: "type_parts env (fst (unwrap_type t)) = type_parts env t"
  by (simp add: type_parts_def)

lemma unfolds_unwrap [simp]: "unfolds env (fst (unwrap_type t)) \<longleftrightarrow> unfolds env t"
  by (metis type_parts_unwrap unfolds.simps)

lemma field_schema_returns:
  assumes "\<And>comps. \<exists>n r. build_schema env rd n fty comps = Some r"
  shows "\<exists>n r. \<forall>m\<ge>n. field_schema env rd m tname fty comps = Some r"
proof -
  obtain n s c where "build_schema env rd n fty comps = Some (s, c)" using assms by (metis surj_pair)
  then have "\<forall>m\<ge>n. build_schema env rd m fty comps = Some (s, c)" by (blast intro: build_schema_fuel)
  then show ?thesis by (cases "shared_field env tname fty"; cases "map_of comps (type_name (fst (unwrap_type fty)))")
      (auto simp: field_schema_def Let_def intro!: exI [of _ n])
qed

lemma build_properties_returns:
  assumes "\<And>fd fty comps. (fd, fty) \<in> set fds \<Longrightarrow> shown_field fd \<Longrightarrow>
      \<exists>n r. build_schema env rd n fty comps = Some r"
  shows "\<exists>n r. build_properties env rd n tname fds props req comps = Some r"
  using assms
proof (induction fds arbitrary: props req comps)
  case Nil
  then show ?case by simp
next
  case (Cons a fds)
  obtain fd fty where a: "a = (fd, fty)" by (cases a)
  have rest: "\<exists>n r. build_properties env rd n tname fds props req comps = Some r" for props req comps
    by (rule Cons.IH) (rule Cons.prems, auto)
  show ?case
  proof (cases "shown_field fd")
    case False
    then show ?thesis using rest a by (simp add: build_properties_Cons)
  next
    case True
    then obtain n s c where "\<forall>m\<ge>n. field_schema env rd m tname fty comps = Some (s, c)"
      using field_schema_returns [of env rd fty tname comps] Cons.prems a by (metis list.set_intros(1) surj_pair)
    moreover obtain k r where "build_properties env rd k tname fds
        (AList.update (fst (the (json_field_name fd))) (apply_field_annotations rd fd s) props)
        (if snd (the (json_field_name fd)) then req else req @ [fst (the (json_field_name fd))]) c = Some r"
      using rest by blast
    note build_properties_fuel [OF this max.cobounded2 [of k n]]
    ultimately have "build_properties env rd (max n k) tname (a # fds) props req comps = Some r"
      using True a by (simp add: build_properties_Cons)
    then show ?thesis by blast
  qed
qed

lemma unfolds_returns: "unfolds env ty \<Longrightarrow> \<exists>n r. build_schema env rd n ty comps = Some r"
proof (induction arbitrary: comps rule: unfolds.induct)
  case (unfolds_step ty)
  have part: "\<exists>n r. build_schema env rd n p comps = Some r" if "p \<in> set (type_parts env ty)" for p comps
    using unfolds_step that by blast
  let ?t = "fst (unwrap_type ty)"
  consider "?t = time_type" | fds where "?t \<noteq> time_type" "underlying env ?t = StructOf fds"
    | "?t \<noteq> time_type" "\<not> is_struct env ?t"
    by (cases "underlying env ?t") (auto simp: is_struct_def)
  then show ?case
  proof cases
    case 1
    then have "build_schema env rd (Suc 0) ty comps = Some (TypeSchema ''string'' [(''format'', JStr ''date-time'')], comps)"
      by (simp add: build_schema.simps(2))
    then show ?thesis by blast
  next
    case 2
    have "\<exists>n r. build_properties env rd n (type_name ?t) fds [] [] comps = Some r"
      by (rule build_properties_returns, rule part)
        (use 2 in \<open>force simp: type_parts_def Let_def\<close>)
    then show ?thesis using build_schema_struct [OF 2] by metis
  next
    case 3
    show ?thesis
    proof (cases "type_parts env ty = []")
      case True
      then have "build_schema env rd (Suc 0) ty comps \<noteq> None" using 3
        by (auto simp: build_schema.simps(2) Let_def type_parts_def is_struct_def split: gtype.splits basic_kind.splits)
      then show ?thesis by blast
    next
      case False
      then obtain e where e: "e \<in> set (type_parts env ty)" by (cases "type_parts env ty") auto
      then obtain n s c where "build_schema env rd n e comps = Some (s, c)"
        using part [of e comps] by (metis surj_pair)
      then have "build_schema env rd (Suc n) ty comps \<noteq> None" using 3 e
        by (auto simp: build_schema.simps(2) Let_def type_parts_def is_struct_def split: gtype.splits basic_kind.splits)
      then show ?thesis by blast
    qed
  qed
qed

text \<open>
  Components are named without their package, so the converse needs names that say which
  struct is meant. A component is entered when its schema is finished.
\<close>

definition one_package :: "type_env \<Rightarrow> bool" where
  "one_package env \<longleftrightarrow>
     (\<forall>p q name. is_struct env (Declared p name) \<and> is_struct env (Declared q name) \<longrightarrow> p = q)"

definition finished :: "type_env \<Rightarrow> 'f components \<Rightarrow> bool" where
  "finished env comps \<longleftrightarrow>
     (\<forall>p name. name \<in> component_names comps \<and> is_struct env (Declared p name) \<longrightarrow> unfolds env (Declared p name))"

lemma named_struct:
  assumes "is_struct env t" "type_name t \<noteq> []"
  obtains p where "t = Declared p (type_name t)"
  using assms by (cases t) (auto simp: is_struct_def type_name_def underlying_def)

lemma finished_update:
  assumes "one_package env" "finished env comps" "is_struct env t" "type_name t \<noteq> []" "unfolds env t"
  shows "finished env (AList.update (type_name t) s comps)"
  using assms by (auto simp: finished_def one_package_def elim: named_struct [of env t]) (metis named_struct)

lemma field_schema_unfolds:
  assumes "one_package env" "finished env comps"
    and "\<And>s c. build_schema env rd n fty comps = Some (s, c) \<Longrightarrow> unfolds env fty \<and> finished env c"
    and "field_schema env rd n tname fty comps = Some (s, c)"
  shows "unfolds env fty \<and> finished env c"
proof (cases "shared_field env tname fty")
  case False
  then show ?thesis using assms(3,4) by (simp add: field_schema_def Let_def)
next
  case True
  let ?ft = "fst (unwrap_type fty)"
  have struct: "is_struct env ?ft" "type_name ?ft \<noteq> []" using True by (auto simp: shared_field_def Let_def)
  then obtain p where ft: "?ft = Declared p (type_name ?ft)" by (rule named_struct)
  show ?thesis
  proof (cases "map_of comps (type_name ?ft)")
    case None
    then obtain s' c' where "build_schema env rd n fty comps = Some (s', c')" "c = AList.update (type_name ?ft) s' c'"
      using assms(4) True by (auto simp: field_schema_def Let_def)
    then show ?thesis using assms(3) finished_update [OF assms(1) _ struct] unfolds_unwrap by blast
  next
    case (Some s')
    then have "type_name ?ft \<in> component_names comps" by (simp add: component_names_dom)
    then have "unfolds env ?ft" using assms(2) struct(1) ft unfolding finished_def by metis
    then show ?thesis using assms(2,4) True Some by (simp add: field_schema_def Let_def)
  qed
qed

lemma build_properties_unfolds:
  assumes "one_package env"
    and "\<And>fty comps s c. build_schema env rd n fty comps = Some (s, c) \<Longrightarrow> finished env comps \<Longrightarrow>
      unfolds env fty \<and> finished env c"
    and "build_properties env rd n tname fds props req comps = Some (s, c)" "finished env comps"
  shows "(\<forall>(fd, fty) \<in> set fds. shown_field fd \<longrightarrow> unfolds env fty) \<and> finished env c"
  using assms(3,4)
proof (induction fds arbitrary: props req comps)
  case Nil
  then show ?case by auto
next
  case (Cons a fds)
  obtain fd fty where a: "a = (fd, fty)" by (cases a)
  show ?case
  proof (cases "shown_field fd")
    case False
    then show ?thesis using Cons a by (simp add: build_properties_Cons)
  next
    case True
    then obtain s' c' where f: "field_schema env rd n tname fty comps = Some (s', c')"
      and rest: "build_properties env rd n tname fds
        (AList.update (fst (the (json_field_name fd))) (apply_field_annotations rd fd s') props)
        (if snd (the (json_field_name fd)) then req else req @ [fst (the (json_field_name fd))]) c' = Some (s, c)"
      using Cons.prems(1) a by (auto simp: build_properties_Cons split: option.splits)
    have "unfolds env fty \<and> finished env c'"
      by (rule field_schema_unfolds [OF assms(1) Cons.prems(2) assms(2) f]) (use Cons.prems(2) in auto)
    then show ?thesis using Cons.IH [OF rest] a by auto
  qed
qed

lemma returns_unfolds:
  assumes "one_package env"
  shows "build_schema env rd n ty comps = Some (s, c) \<Longrightarrow> finished env comps \<Longrightarrow> unfolds env ty \<and> finished env c"
proof (induction n arbitrary: ty comps s c)
  case 0
  then show ?case by simp
next
  case (Suc n)
  let ?t = "fst (unwrap_type ty)"
  show ?case
  proof (cases "?t \<noteq> time_type \<and> is_struct env ?t")
    case True
    then obtain fds where fds: "underlying env ?t = StructOf fds" by (auto simp: is_struct_def split: gtype.splits)
    have loop: "build_properties env rd n (type_name ?t) fds [] [] comps = Some (s, c)"
      using Suc.prems(1) build_schema_struct [OF _ fds, of rd n comps] True by metis
    have result: "(\<forall>(fd, fty) \<in> set fds. shown_field fd \<longrightarrow> unfolds env fty) \<and> finished env c"
      by (rule build_properties_unfolds [OF assms _ loop Suc.prems(2)]) (rule Suc.IH)
    have "set (type_parts env ty) = snd ` set (filter (\<lambda>(fd, fty). shown_field fd) fds)"
      using True fds by (simp add: type_parts_def Let_def)
    then have "unfolds env p" if "p \<in> set (type_parts env ty)" for p
      using result that by fastforce
    then have "unfolds env ty" by (rule unfolds_step)
    then show ?thesis using result by blast
  next
    case False
    have "(\<forall>p \<in> set (type_parts env ty). unfolds env p) \<and> finished env c"
      using Suc.prems False Suc.IH
      by (subst (asm) build_schema.simps(2))
        (auto simp: Let_def type_parts_def is_struct_def split: if_splits gtype.splits basic_kind.splits)
    then show ?thesis by (blast intro: unfolds_step)
  qed
qed

section \<open>Properties\<close>

text \<open>
  C10. \<open>buildSchema\<close>, started with no components, returns for a type exactly if the type does not
  contain itself through the fields it shows: a struct with a field of its own type, or two
  structs that refer to each other, recurse until the stack of the process is used up. (Names
  are taken to say which struct is meant, since components have no package.)
\<close>

theorem schema_returns_iff_unfolds:
  assumes "one_package env"
  shows "(\<exists>n s c. build_schema env rd n ty [] = Some (s, c)) \<longleftrightarrow> unfolds env ty"
proof
  assume "\<exists>n s c. build_schema env rd n ty [] = Some (s, c)"
  then obtain n s and c :: "'a components" where b: "build_schema env rd n ty [] = Some (s, c)" by blast
  have "finished env ([] :: 'a components)" by (simp add: finished_def component_names_def)
  from returns_unfolds [OF assms b this] show "unfolds env ty" by blast
next
  assume "unfolds env ty"
  from unfolds_returns [OF this] show "\<exists>n s c. build_schema env rd n ty [] = Some (s, c)" by auto
qed

definition plain_field :: "string \<Rightarrow> field_decl" where
  "plain_field name = \<lparr>fd_name = name, fd_pkg_path = [], fd_anonymous = False, fd_tag = []\<rparr>"

definition demo_types :: type_env where
  "demo_types pkg name =
     (if pkg \<noteq> ''app'' then None
      else if name = ''Node'' then
        Some (StructOf [(plain_field ''Value'', Basic KInt), (plain_field ''Next'', Pointer (Declared ''app'' ''Node''))])
      else if name = ''Address'' then Some (StructOf [(plain_field ''City'', Basic KString)])
      else if name = ''User'' then
        Some (StructOf [(plain_field ''Name'', Basic KString), (plain_field ''Home'', Declared ''app'' ''Address''),
          (plain_field ''Former'', SliceOf (Declared ''app'' ''Address''))])
      else None)"

lemma unfolds_not_own_part:
  "unfolds env ty \<Longrightarrow> p \<in> set (type_parts env ty) \<Longrightarrow> fst (unwrap_type p) \<noteq> fst (unwrap_type ty)"
proof (induction arbitrary: p rule: unfolds.induct)
  case (unfolds_step ty)
  show ?case
  proof
    assume eq: "fst (unwrap_type p) = fst (unwrap_type ty)"
    then have "p \<in> set (type_parts env p)" using unfolds_step(3) by (metis type_parts_unwrap)
    then show False using unfolds_step(2) [OF unfolds_step(3)] by blast
  qed
qed

lemma demo_types_one_package: "one_package demo_types"
  by (auto simp: one_package_def is_struct_def underlying_def demo_types_def split: if_splits)

theorem schema_returns_iff_unfolds_example:
  "(\<exists>n s c. build_schema demo_types \<lparr>rd_float = \<lambda>s. None :: nat option, rd_json = \<lambda>s. None\<rparr> n
      (Declared ''app'' ''User'') [] = Some (s, c)) \<and>
   \<not> (\<exists>n s c. build_schema demo_types \<lparr>rd_float = \<lambda>s. None :: nat option, rd_json = \<lambda>s. None\<rparr> n
      (Declared ''app'' ''Node'') [] = Some (s, c))"
proof -
  have "type_parts demo_types (Declared ''app'' ''Node'') = [Basic KInt, Pointer (Declared ''app'' ''Node'')]"
    by code_simp
  then have "\<not> unfolds demo_types (Declared ''app'' ''Node'')"
    using unfolds_not_own_part [of demo_types "Declared ''app'' ''Node''" "Pointer (Declared ''app'' ''Node'')"] by auto
  moreover have "unfolds demo_types (Declared ''app'' ''User'')"
  proof -
    have flat: "unfolds demo_types (Basic k)" for k
      by (rule unfolds_step) (simp add: type_parts_def time_type_def underlying_def)
    have address: "unfolds demo_types (Declared ''app'' ''Address'')"
    proof (rule unfolds_step)
      have "type_parts demo_types (Declared ''app'' ''Address'') = [Basic KString]" by code_simp
      then show "p \<in> set (type_parts demo_types (Declared ''app'' ''Address'')) \<Longrightarrow> unfolds demo_types p" for p
        using flat by simp
    qed
    have slice: "unfolds demo_types (SliceOf (Declared ''app'' ''Address''))"
      by (rule unfolds_step) (simp add: type_parts_def time_type_def underlying_def address)
    have "type_parts demo_types (Declared ''app'' ''User'') =
        [Basic KString, Declared ''app'' ''Address'', SliceOf (Declared ''app'' ''Address'')]" by code_simp
    then have "unfolds demo_types p" if "p \<in> set (type_parts demo_types (Declared ''app'' ''User''))" for p
      using that flat address slice by auto
    then show ?thesis by (rule unfolds_step)
  qed
  ultimately show ?thesis
    using schema_returns_iff_unfolds [OF demo_types_one_package] by blast
qed

end
