(* ===== verification/Openapi_Theorems.thy ===== *)
theory Openapi_Theorems imports Openapi_Schemas begin

text \<open>
  What the document generator promises: every route has its entry with the parameters of its
  pattern, every reference of a document has its component, and a document is stable.
\<close>

section \<open>Documents\<close>

lemma ensure_schema_resolved:
  assumes "ensure_schema env rd n model comps = Some (name, c)"
  shows "component_names comps \<subseteq> component_names c" "name \<noteq> [] \<Longrightarrow> name \<in> component_names c"
    "closed_components comps \<Longrightarrow> closed_components c"
proof -
  have found: "component_names comps \<subseteq> component_names c \<and> (name \<noteq> [] \<longrightarrow> name \<in> component_names c) \<and>
      (closed_components comps \<longrightarrow> closed_components c)"
  proof (cases "type_name (fst (unwrap_type model)) = [] \<or> map_of comps (type_name (fst (unwrap_type model))) \<noteq> None")
    case True
    then show ?thesis using assms by (auto simp: ensure_schema_def Let_def component_names_dom split: if_splits)
  next
    case False
    then obtain s c' where b: "build_schema env rd n model comps = Some (s, c')"
      and c: "c = AList.update name s c'" using assms by (auto simp: ensure_schema_def Let_def)
    have "resolved comps (s, c')" by (rule build_resolved(1) [OF b])
    then show ?thesis using c closed_components_update [of c' s name] by (auto simp: resolved_def)
  qed
  then show "component_names comps \<subseteq> component_names c" "name \<noteq> [] \<Longrightarrow> name \<in> component_names c"
    "closed_components comps \<Longrightarrow> closed_components c" by auto
qed

text \<open>The component a model is described by, if its type has a name.\<close>

definition model_component :: "gtype option \<Rightarrow> 'f json option \<Rightarrow> (string \<times> 'f json option) option" where
  "model_component model example =
     (case model of
        None \<Rightarrow> None
      | Some t \<Rightarrow> (let name = type_name (fst (unwrap_type t)) in if name = [] then None else Some (name, example)))"

lemma model_body_component:
  assumes "model_body env rd n model example comps = Some (b, c)"
  shows "b = model_component model example"
  using assms by (auto simp: model_body_def model_component_def ensure_schema_def Let_def split: option.splits if_splits)

lemma model_body_resolved:
  assumes "model_body env rd n model example comps = Some (b, c)"
  shows "component_names comps \<subseteq> component_names c \<and> (closed_components comps \<longrightarrow> closed_components c) \<and>
    (\<forall>name ex. b = Some (name, ex) \<longrightarrow> name \<in> component_names c)"
  using assms ensure_schema_resolved
  by (fastforce simp: model_body_def split: option.splits if_splits)

lemma model_body_again:
  assumes "\<And>name ex. model_component model example = Some (name, ex) \<Longrightarrow> name \<in> component_names comps"
  shows "model_body env rd n model example comps = Some (model_component model example, comps)"
  using assms by (auto simp: model_body_def model_component_def ensure_schema_def Let_def component_names_dom
      split: option.splits)

text \<open>The entry of a route, and the names its bodies refer to.\<close>

definition operation_of :: "'f generator \<Rightarrow> string \<Rightarrow> string \<Rightarrow> 'f operation" where
  "operation_of g method path =
     (case map_of (ge_opts g) (operation_key method path) of None \<Rightarrow> no_operation | Some op \<Rightarrow> op)"

definition described :: "(int \<Rightarrow> string) \<Rightarrow> 'f generator \<Rightarrow> string \<times> string \<Rightarrow> 'f entry" where
  "described status_text g r =
     (let op = operation_of g (fst r) (snd r);
          code = (if op_response_code op = 0 then 200 else op_response_code op)
      in \<lparr>en_operation = op, en_parameters = path_params (to_openapi_path (snd r)),
          en_request_body = model_component (op_request_model op) (op_request_example op),
          en_response_code = code, en_response_text = status_text code,
          en_response_body = model_component (op_response_model op) (op_response_example op)\<rparr>)"

definition entry_refs :: "'f entry \<Rightarrow> string set" where
  "entry_refs e = fst ` set_option (en_request_body e) \<union> fst ` set_option (en_response_body e)"

lemma described_more [simp]: "described st (g\<lparr>ge_schemas := c\<rparr>) r = described st g r"
  by (simp add: described_def operation_of_def)

lemma route_entry_of_op:
  "route_entry_of env rd st n g r comps =
     (let op = operation_of g (fst r) (snd r)
      in case model_body env rd n (op_request_model op) (op_request_example op) comps of
           None \<Rightarrow> None
         | Some (b1, c1) \<Rightarrow>
             map_option (\<lambda>(b2, c2). ((described st g r)\<lparr>en_request_body := b1, en_response_body := b2\<rparr>, c2))
               (model_body env rd n (op_response_model op) (op_response_example op) c1))"
  by (cases r) (auto simp: route_entry_of_def operation_of_def described_def Let_def split: option.split)

lemma route_entry_of_described:
  assumes "route_entry_of env rd st n g r comps = Some (e, c)"
  shows "e = described st g r" "component_names comps \<subseteq> component_names c"
    "closed_components comps \<Longrightarrow> closed_components c" "entry_refs e \<subseteq> component_names c"
proof -
  let ?op = "operation_of g (fst r) (snd r)"
  obtain b1 c1 b2 where m: "model_body env rd n (op_request_model ?op) (op_request_example ?op) comps = Some (b1, c1)"
    "model_body env rd n (op_response_model ?op) (op_response_example ?op) c1 = Some (b2, c)"
    and e: "en_request_body e = b1" "en_response_body e = b2"
    using assms by (auto simp: route_entry_of_op Let_def split: option.splits)
  show "e = described st g r"
    using assms m model_body_component [OF m(1)] model_body_component [OF m(2)]
    by (auto simp: route_entry_of_op described_def Let_def)
  show "component_names comps \<subseteq> component_names c" "closed_components comps \<Longrightarrow> closed_components c"
    "entry_refs e \<subseteq> component_names c"
    using model_body_resolved [OF m(1)] model_body_resolved [OF m(2)] e by (auto simp: entry_refs_def)
qed

lemma route_entry_of_again:
  assumes "entry_refs (described st g r) \<subseteq> component_names comps"
  shows "route_entry_of env rd st n g r comps = Some (described st g r, comps)"
proof -
  let ?op = "operation_of g (fst r) (snd r)"
  have "model_body env rd n (op_request_model ?op) (op_request_example ?op) comps =
      Some (model_component (op_request_model ?op) (op_request_example ?op), comps)"
    "model_body env rd n (op_response_model ?op) (op_response_example ?op) comps =
      Some (model_component (op_response_model ?op) (op_response_example ?op), comps)"
    using assms by (auto simp: entry_refs_def described_def Let_def intro!: model_body_again)
  then show ?thesis
    by (simp add: route_entry_of_op described_def Let_def)
qed

text \<open>The loop over the routes, said at once: later routes win, and each adds its components.\<close>

definition add_entry ::
  "(int \<Rightarrow> string) \<Rightarrow> 'f generator \<Rightarrow> string \<times> string \<Rightarrow> (string \<Rightarrow> string \<Rightarrow> 'f entry option) \<Rightarrow>
   string \<Rightarrow> string \<Rightarrow> 'f entry option" where
  "add_entry st g r paths =
     (let tpl = to_openapi_path (snd r) in paths(tpl := (paths tpl)(to_lower (fst r) \<mapsto> described st g r)))"

lemma add_entry_pair:
  "add_entry st g (m, p) paths =
     paths(to_openapi_path p := (paths (to_openapi_path p))(to_lower m \<mapsto> described st g (m, p)))"
  by (simp add: add_entry_def Let_def)

lemma build_paths_fold:
  assumes "build_paths env rd st n g rs paths bearer comps = Some (paths', bearer', c)"
  shows "paths' = fold (add_entry st g) rs paths"
    "bearer' \<longleftrightarrow> bearer \<or> (\<exists>r\<in>set rs. op_requires_auth (operation_of g (fst r) (snd r)))"
    "component_names comps \<subseteq> component_names c" "closed_components comps \<Longrightarrow> closed_components c"
    "\<Union> (entry_refs ` described st g ` set rs) \<subseteq> component_names c"
proof -
  have "paths' = fold (add_entry st g) rs paths \<and>
      (bearer' \<longleftrightarrow> bearer \<or> (\<exists>r\<in>set rs. op_requires_auth (operation_of g (fst r) (snd r)))) \<and>
      component_names comps \<subseteq> component_names c \<and> (closed_components comps \<longrightarrow> closed_components c) \<and>
      \<Union> (entry_refs ` described st g ` set rs) \<subseteq> component_names c"
    using assms
  proof (induction rs arbitrary: paths bearer comps)
    case Nil
    then show ?case by simp
  next
    case (Cons r rs)
    obtain m p where r: "r = (m, p)" by (cases r)
    then obtain e c1 where one: "route_entry_of env rd st n g (m, p) comps = Some (e, c1)"
      and rest: "build_paths env rd st n g rs
        (paths(to_openapi_path p := (paths (to_openapi_path p))(to_lower m \<mapsto> e)))
        (bearer \<or> op_requires_auth (en_operation e)) c1 = Some (paths', bearer', c)"
      using Cons.prems by (auto simp: Let_def split: option.splits)
    note entry = route_entry_of_described [OF one]
    have op: "en_operation e = operation_of g m p" using entry(1) by (simp add: described_def Let_def)
    have "build_paths env rd st n g rs (add_entry st g r paths) (bearer \<or> op_requires_auth (operation_of g m p)) c1 =
        Some (paths', bearer', c)"
      using rest op entry(1) r by (simp only: add_entry_pair)
    from Cons.IH [OF this] show ?case using entry r by auto
  qed
  then show "paths' = fold (add_entry st g) rs paths"
    "bearer' \<longleftrightarrow> bearer \<or> (\<exists>r\<in>set rs. op_requires_auth (operation_of g (fst r) (snd r)))"
    "component_names comps \<subseteq> component_names c" "closed_components comps \<Longrightarrow> closed_components c"
    "\<Union> (entry_refs ` described st g ` set rs) \<subseteq> component_names c" by auto
qed

lemma build_paths_again:
  assumes "\<Union> (entry_refs ` described st g ` set rs) \<subseteq> component_names comps"
  shows "build_paths env rd st n g rs paths bearer comps =
    Some (fold (add_entry st g) rs paths,
      bearer \<or> (\<exists>r\<in>set rs. op_requires_auth (operation_of g (fst r) (snd r))), comps)"
  using assms
proof (induction rs arbitrary: paths bearer)
  case Nil
  then show ?case by simp
next
  case (Cons r rs)
  obtain m p where r: "r = (m, p)" by (cases r)
  have "route_entry_of env rd st n g (m, p) comps = Some (described st g (m, p), comps)"
    using Cons.prems r by (intro route_entry_of_again) auto
  moreover have "en_operation (described st g (m, p)) = operation_of g m p" by (simp add: described_def Let_def)
  ultimately show ?case using Cons r by (simp add: add_entry_pair Let_def disj_assoc)
qed

lemma fold_add_entry:
  "fold (add_entry st g) rs paths tpl verb = Some e \<Longrightarrow>
     paths tpl verb = Some e \<or>
     (\<exists>r \<in> set rs. tpl = to_openapi_path (snd r) \<and> verb = to_lower (fst r) \<and> e = described st g r)"
proof (induction rs arbitrary: paths)
  case (Cons r rs)
  from Cons.IH [of "add_entry st g r paths"] Cons.prems show ?case
    by (auto simp: add_entry_def Let_def split: if_splits)
qed simp

lemma fold_add_entry_there:
  "paths tpl verb \<noteq> None \<or> (\<exists>r\<in>set rs. tpl = to_openapi_path (snd r) \<and> verb = to_lower (fst r)) \<Longrightarrow>
     fold (add_entry st g) rs paths tpl verb \<noteq> None"
proof (induction rs arbitrary: paths)
  case (Cons r rs)
  have "add_entry st g r paths tpl verb \<noteq> None"
    if "paths tpl verb \<noteq> None \<or> tpl = to_openapi_path (snd r) \<and> verb = to_lower (fst r)"
    using that by (auto simp: add_entry_def Let_def)
  then have "add_entry st g r paths tpl verb \<noteq> None \<or>
      (\<exists>r\<in>set rs. tpl = to_openapi_path (snd r) \<and> verb = to_lower (fst r))"
    using Cons.prems by (metis set_ConsD)
  then show ?case unfolding fold.simps comp_def by (rule Cons.IH)
qed simp

lemma build_document_facts:
  assumes "build_document env rd st n a g = Some (d, g')"
  shows "do_paths d = fold (add_entry st g) (app_routes a) (\<lambda>tpl verb. None)" "do_generator d = g'"
    "\<exists>c. g' = g\<lparr>ge_schemas := c\<rparr>" "closed_components (ge_schemas g) \<Longrightarrow> closed_components (ge_schemas g')"
    "\<Union> (entry_refs ` described st g ` set (app_routes a)) \<subseteq> component_names (ge_schemas g')"
proof -
  obtain paths bearer c where b: "build_paths env rd st n g (app_routes a) (\<lambda>tpl verb. None)
      (ge_bearer_auth g) (ge_schemas g) = Some (paths, bearer, c)"
    using assms by (auto simp: build_document_def build_routes_document_def split: option.splits)
  then have d: "d = \<lparr>do_generator = g\<lparr>ge_schemas := c\<rparr>,
      do_servers = (if ge_server_urls g = [] then [''/''] else ge_server_urls g),
      do_paths = paths, do_security_scheme = bearer\<rparr>" "g' = g\<lparr>ge_schemas := c\<rparr>"
    using assms by (auto simp: build_document_def build_routes_document_def Let_def)
  note facts = build_paths_fold [OF b]
  show "do_paths d = fold (add_entry st g) (app_routes a) (\<lambda>tpl verb. None)" "do_generator d = g'"
    "\<exists>c. g' = g\<lparr>ge_schemas := c\<rparr>" using d facts(1) by auto
  show "closed_components (ge_schemas g) \<Longrightarrow> closed_components (ge_schemas g')"
    "\<Union> (entry_refs ` described st g ` set (app_routes a)) \<subseteq> component_names (ge_schemas g')"
    using d facts(4,5) by simp_all
qed

section \<open>Parameters\<close>

lemma split_on_trailing: "split_on d (s @ [d]) = split_on d s @ [[]]"
  by (induction s) (auto split: list.split)

lemma parts_of_trimmed:
  "filter (\<lambda>p. p \<noteq> []) (split_on d (trim_char d s)) = filter (\<lambda>p. p \<noteq> []) (split_on d s)"
proof -
  have left: "filter (\<lambda>p. p \<noteq> []) (split_on d (dropWhile (\<lambda>c. c = d) s)) = filter (\<lambda>p. p \<noteq> []) (split_on d s)" for s
    by (induction s) auto
  have right: "filter (\<lambda>p. p \<noteq> []) (split_on d (rev (dropWhile (\<lambda>c. c = d) s))) =
      filter (\<lambda>p. p \<noteq> []) (split_on d (rev s))" for s
    by (induction s) (auto simp: split_on_trailing)
  show ?thesis unfolding trim_char_def by (simp add: left right)
qed

lemma parts_of_split_path:
  "filter (\<lambda>p. p \<noteq> []) (split_path path) = filter (\<lambda>p. p \<noteq> []) (split_on (CHR ''/'') path)"
  using parts_of_trimmed [of "CHR ''/''" path] by (auto simp: split_path_def Let_def)

text \<open>A pattern without a nameless parameter and without a literal part in braces.\<close>

definition plain_part :: "string \<Rightarrow> bool" where
  "plain_part p \<longleftrightarrow> p \<notin> {'':'', ''*''} \<and> \<not> prefix ''{'' p"

definition plain_pattern :: "string \<Rightarrow> bool" where
  "plain_pattern path \<longleftrightarrow> list_all plain_part (split_path path)"

definition parameter_part :: "string \<Rightarrow> bool" where
  "parameter_part p \<longleftrightarrow> length p \<ge> 2 \<and> hd p = CHR ''{'' \<and> last p = CHR ''}''"

lemma template_part_parameter:
  assumes "plain_part p"
  shows "parameter_part (template_part p) \<longleftrightarrow> seg_kind (parse_segment p) \<noteq> SegmentStatic"
    "seg_kind (parse_segment p) \<noteq> SegmentStatic \<Longrightarrow> butlast (tl (template_part p)) = seg_value (parse_segment p)"
proof -
  consider "p = []" | c q where "p = c # q" by (cases p)
  then have "(parameter_part (template_part p) \<longleftrightarrow> seg_kind (parse_segment p) \<noteq> SegmentStatic) \<and>
      (seg_kind (parse_segment p) \<noteq> SegmentStatic \<longrightarrow> butlast (tl (template_part p)) = seg_value (parse_segment p))"
    using assms by cases (auto simp: parameter_part_def template_part_def parse_segment_def plain_part_def Let_def)
  then show "parameter_part (template_part p) \<longleftrightarrow> seg_kind (parse_segment p) \<noteq> SegmentStatic"
    "seg_kind (parse_segment p) \<noteq> SegmentStatic \<Longrightarrow> butlast (tl (template_part p)) = seg_value (parse_segment p)"
    by simp_all
qed

lemma template_part_clean: "CHR ''/'' \<notin> set p \<Longrightarrow> CHR ''/'' \<notin> set (template_part p)"
  by (auto simp: template_part_def Let_def dest: in_set_dropD)

lemma path_params_template:
  "path_params (to_openapi_path path) =
     map (\<lambda>p. butlast (tl p)) (filter parameter_part (map template_part (split_on (CHR ''/'') path)))"
proof -
  let ?out = "join ''/'' (map template_part (split_on (CHR ''/'') path))"
  have "split_on (CHR ''/'') ?out = map template_part (split_on (CHR ''/'') path)"
    by (rule split_on_join) (use template_part_clean split_on_parts_clean in auto)
  moreover have "path_params (to_openapi_path path) = path_params ?out"
    by (simp add: to_openapi_path_def Let_def path_params_def)
  ultimately show ?thesis by (simp add: path_params_def parameter_part_def [abs_def])
qed

lemma parameters_of_pattern:
  assumes "plain_pattern path"
  shows "path_params (to_openapi_path path) =
    map seg_value (filter (\<lambda>s. seg_kind s \<noteq> SegmentStatic) (parse_segments path))"
proof -
  let ?ne = "filter (\<lambda>p. p \<noteq> [])"
  have plain: "plain_part p" if "p \<in> set (?ne (split_path path))" for p
    using assms that by (auto simp: plain_pattern_def list_all_iff)
  have skip: "filter Q (map g (?ne ps)) = filter Q (map g ps)" if "\<not> Q (g [])"
    for Q :: "'q \<Rightarrow> bool" and g :: "string \<Rightarrow> 'q" and ps using that by (induction ps) auto
  have same: "map (\<lambda>p. butlast (tl p)) (filter parameter_part (map template_part ps)) =
      map seg_value (filter (\<lambda>s. seg_kind s \<noteq> SegmentStatic) (map parse_segment ps))"
    if "\<And>p. p \<in> set ps \<Longrightarrow> plain_part p" for ps
    using that by (induction ps) (auto simp: template_part_parameter)
  have *: "map (\<lambda>p. butlast (tl p)) (filter parameter_part (map template_part (?ne (split_path path)))) =
      map seg_value (filter (\<lambda>s. seg_kind s \<noteq> SegmentStatic) (map parse_segment (?ne (split_path path))))"
    by (rule same) (rule plain)
  have "\<not> parameter_part (template_part [])" "seg_kind (parse_segment []) = SegmentStatic"
    by (simp_all add: parameter_part_def template_part_def parse_segment_def)
  then show ?thesis
    using skip [of parameter_part template_part "split_on (CHR ''/'') path"]
      skip [of "\<lambda>s. seg_kind s \<noteq> SegmentStatic" parse_segment "split_path path"] *
    by (simp add: path_params_template parse_segments_def parts_of_split_path)
qed

section \<open>Properties of documents\<close>


definition demo_routes :: "unit app" where
  "demo_routes = fst (app_route ''POST'' ''/users'' metrics_stub [] (fst (app_route ''GET'' ''/users/:id'' metrics_stub []
     (empty_app \<lparr>cfg_addr = [], cfg_read_timeout = 0, cfg_write_timeout = 0, cfg_idle_timeout = 0,
       cfg_shutdown_timeout = 0, cfg_disable_healthz = True, cfg_enable_metrics_stub = False\<rparr>))))"

definition demo_readers :: "nat readers" where
  "demo_readers = \<lparr>rd_float = \<lambda>s. None, rd_json = \<lambda>s. None\<rparr>"

definition demo_generator :: "nat generator" where
  "demo_generator = add_operation ''post'' ''/users''
     (no_operation\<lparr>op_request_model := Some (Pointer (Declared ''app'' ''User'')), op_requires_auth := True\<rparr>)
     (new_generator [] [])"

lemma demo_document:
  obtains d g' where "build_document demo_types demo_readers (\<lambda>code. []) 6 demo_routes demo_generator = Some (d, g')"
proof -
  have "build_document demo_types demo_readers (\<lambda>code. []) 6 demo_routes demo_generator \<noteq> None" by code_simp
  then show thesis using that by auto
qed


text \<open>
  C31. Every schema a document refers to is one of its components: the bodies of its operations,
  and the fields of the components themselves, if those registered before did.
\<close>

theorem references_have_components:
  assumes "build_document env rd st n a g = Some (d, g')" "closed_components (ge_schemas g)"
  shows "closed_components (ge_schemas (do_generator d)) \<and>
    (\<forall>tpl verb e. do_paths d tpl verb = Some e \<longrightarrow> entry_refs e \<subseteq> component_names (ge_schemas (do_generator d)))"
proof -
  note facts = build_document_facts [OF assms(1)]
  have "entry_refs e \<subseteq> component_names (ge_schemas g')" if "do_paths d tpl verb = Some e" for tpl verb e
    using that fold_add_entry [of st g "app_routes a" "\<lambda>tpl verb. None" tpl verb e] facts(1,5) by auto
  then show ?thesis using facts(2,4) assms(2) by simp
qed

theorem references_have_components_example:
  "\<exists>d g' e. build_document demo_types demo_readers (\<lambda>code. []) 6 demo_routes demo_generator = Some (d, g') \<and>
     closed_components (ge_schemas (do_generator d)) \<and>
     do_paths d ''/users'' ''post'' = Some e \<and> entry_refs e = {''User''} \<and>
     {''User'', ''Address''} \<subseteq> component_names (ge_schemas (do_generator d))"
proof -
  obtain d g' where d: "build_document demo_types demo_readers (\<lambda>code. []) 6 demo_routes demo_generator = Some (d, g')"
    by (rule demo_document)
  have "ge_schemas demo_generator = []" by code_simp
  then have "closed_components (ge_schemas demo_generator)" by (simp add: closed_components_def)
  note refs = references_have_components [OF d this]
  have "app_routes demo_routes = [(''GET'', ''/users/:id''), (''POST'', ''/users'')]" by code_simp
  then have paths: "do_paths d = add_entry (\<lambda>code. []) demo_generator (''POST'', ''/users'')
      (add_entry (\<lambda>code. []) demo_generator (''GET'', ''/users/:id'') (\<lambda>tpl verb. None))"
    using build_document_facts(1) [OF d] by simp
  have tpl: "to_openapi_path ''/users'' = ''/users''" "to_lower ''POST'' = ''post''" by code_simp+
  have e: "do_paths d ''/users'' ''post'' = Some (described (\<lambda>code. []) demo_generator (''POST'', ''/users''))"
    unfolding paths by (simp add: add_entry_pair [of _ _ "''POST''"] tpl)
  have body: "entry_refs (described (\<lambda>code. []) demo_generator (''POST'', ''/users'')) = {''User''}"
    by code_simp
  have "map_option (\<lambda>(d, g'). map fst (ge_schemas (do_generator d)))
      (build_document demo_types demo_readers (\<lambda>code. []) 6 demo_routes demo_generator) = Some [''Address'', ''User'']"
    by code_simp
  then have "map fst (ge_schemas (do_generator d)) = [''Address'', ''User'']" using d by simp
  then have "component_names (ge_schemas (do_generator d)) = {''Address'', ''User''}"
    unfolding component_names_def by (metis list.set_map list.simps(15) set_empty2)
  then show ?thesis using refs d e body by blast
qed

text \<open>
  A generator that has built a document builds the same one again, and nothing more is
  added to its components: every request for the document is answered alike.
\<close>

theorem document_is_stable:
  assumes "build_document env rd st n a g = Some (d, g')"
  shows "build_document env rd st m a g' = Some (d, g')"
proof -
  obtain paths bearer c where b: "build_paths env rd st n g (app_routes a) (\<lambda>tpl verb. None)
      (ge_bearer_auth g) (ge_schemas g) = Some (paths, bearer, c)"
    using assms by (auto simp: build_document_def build_routes_document_def split: option.splits)
  then have d: "g' = g\<lparr>ge_schemas := c\<rparr>" "d = \<lparr>do_generator = g',
      do_servers = (if ge_server_urls g = [] then [''/''] else ge_server_urls g),
      do_paths = paths, do_security_scheme = bearer\<rparr>"
    using assms by (auto simp: build_document_def build_routes_document_def Let_def)
  have same: "operation_of g' = operation_of g" "described st g' = described st g" "add_entry st g' = add_entry st g"
    using d(1) by (auto simp: operation_of_def described_def add_entry_def fun_eq_iff)
  have "build_paths env rd st m g' (app_routes a) (\<lambda>tpl verb. None) (ge_bearer_auth g') (ge_schemas g') =
      Some (paths, bearer, c)"
    using build_paths_fold [OF b] same d(1) by (subst build_paths_again) auto
  then show ?thesis using d by (simp add: build_document_def build_routes_document_def Let_def)
qed

theorem document_is_stable_example:
  "\<exists>d g'. build_document demo_types demo_readers (\<lambda>code. []) 6 demo_routes demo_generator = Some (d, g') \<and>
     build_document demo_types demo_readers (\<lambda>code. []) 3 demo_routes g' = Some (d, g')"
  using demo_document document_is_stable by metis

end
