(* ===== verification/App_Run.thy ===== *)
theory App_Run imports App begin

text \<open>
  \<open>App.Run\<close> (app.go): the goroutine that listens, the channel of its error, the signals and the
  \<open>select\<close> of the caller, as a transition relation; a step is what happens between two points
  where another goroutine can run. Of \<open>http.Server\<close> it uses what its documentation says:
  \<open>ListenAndServe\<close> returns only with an error, which is \<open>ErrServerClosed\<close> exactly after
  \<open>Shutdown\<close>, and \<open>Shutdown\<close> returns, at the latest with the deadline of its context.
\<close>

datatype listener = Listening | Failed string | ClosingChannel | ListenerGone
datatype caller = Selecting | ShuttingDown | RunReturned "string option"

text \<open>
  \<open>rv_err_ch\<close> is a channel with a buffer of one, \<open>rv_signal\<close> the buffered signal; the failure of
  the listener is kept as history.
\<close>

record run_view =
  rv_listener :: listener
  rv_err_ch :: "string list"
  rv_err_closed :: bool
  rv_signal :: bool
  rv_caller :: caller
  rv_shut_down :: bool
  rv_failure :: "string option"

definition run_start :: run_view where
  "run_start =
     \<lparr>rv_listener = Listening, rv_err_ch = [], rv_err_closed = False, rv_signal = False,
      rv_caller = Selecting, rv_shut_down = False, rv_failure = None\<rparr>"

definition send_failure :: "run_view \<Rightarrow> run_view option" where
  "send_failure r =
     (case rv_listener r of
        Failed e \<Rightarrow>
          (if length (rv_err_ch r) < 1 then Some (r\<lparr>rv_err_ch := rv_err_ch r @ [e], rv_listener := ClosingChannel\<rparr>)
           else None)
      | _ \<Rightarrow> None)"

text \<open>The \<open>select\<close>: the first result is what the error case would do, the second the signal case.\<close>

definition select_error :: "run_view \<Rightarrow> run_view option" where
  "select_error r =
     (case rv_err_ch r of
        e # es \<Rightarrow> Some (r\<lparr>rv_err_ch := es, rv_caller := RunReturned (Some e)\<rparr>)
      | [] \<Rightarrow> if rv_err_closed r then Some (r\<lparr>rv_caller := RunReturned None\<rparr>) else None)"

definition select_signal :: "run_view \<Rightarrow> run_view option" where
  "select_signal r =
     (if rv_signal r then Some (r\<lparr>rv_signal := False, rv_caller := ShuttingDown, rv_shut_down := True\<rparr>) else None)"

inductive run_step :: "run_view \<Rightarrow> run_view \<Rightarrow> bool" where
  step_fails: "rv_listener r = Listening \<Longrightarrow> \<not> rv_shut_down r \<Longrightarrow>
    run_step r (r\<lparr>rv_listener := Failed e, rv_failure := Some e\<rparr>)"
| step_closed: "rv_listener r = Listening \<Longrightarrow> rv_shut_down r \<Longrightarrow> run_step r (r\<lparr>rv_listener := ClosingChannel\<rparr>)"
| step_send: "send_failure r = Some r' \<Longrightarrow> run_step r r'"
| step_close: "rv_listener r = ClosingChannel \<Longrightarrow>
    run_step r (r\<lparr>rv_err_closed := True, rv_listener := ListenerGone\<rparr>)"
| step_signal: "run_step r (r\<lparr>rv_signal := True\<rparr>)"
| step_error: "rv_caller r = Selecting \<Longrightarrow> select_error r = Some r' \<Longrightarrow> run_step r r'"
| step_shutdown: "rv_caller r = Selecting \<Longrightarrow> select_signal r = Some r' \<Longrightarrow> run_step r r'"
| step_shut: "rv_caller r = ShuttingDown \<Longrightarrow> run_step r (r\<lparr>rv_caller := RunReturned err\<rparr>)"

text \<open>
  The error of a listener that failed is on its way: in the listener's hands, in the channel, or
  returned; and without a shutdown the channel is not closed before the error is in it.
\<close>

definition run_inv :: "run_view \<Rightarrow> bool" where
  "run_inv r \<longleftrightarrow>
     (case rv_listener r of
        Listening \<Rightarrow> rv_failure r = None \<and> rv_err_ch r = [] \<and> \<not> rv_err_closed r
      | Failed e \<Rightarrow> rv_failure r = Some e \<and> rv_err_ch r = [] \<and> \<not> rv_err_closed r
      | _ \<Rightarrow> (rv_caller r = Selecting \<longrightarrow> rv_err_ch r \<noteq> [])) \<and>
     set (rv_err_ch r) \<subseteq> set_option (rv_failure r) \<and> length (rv_err_ch r) \<le> 1 \<and>
     (case rv_caller r of
        Selecting \<Rightarrow> \<not> rv_shut_down r
      | ShuttingDown \<Rightarrow> rv_shut_down r
      | RunReturned res \<Rightarrow> rv_shut_down r \<or> (res \<noteq> None \<and> res = rv_failure r))"

lemma run_inv_start: "run_inv run_start"
  by (simp add: run_inv_def run_start_def)

lemma send_failure_inv: "send_failure r = Some r' \<Longrightarrow> run_inv r \<Longrightarrow> run_inv r'"
  by (cases "rv_listener r"; cases "rv_caller r") (auto simp: send_failure_def run_inv_def split: if_splits)

lemma select_error_inv: "select_error r = Some r' \<Longrightarrow> rv_caller r = Selecting \<Longrightarrow> run_inv r \<Longrightarrow> run_inv r'"
  by (cases "rv_listener r"; cases "rv_err_ch r") (auto simp: select_error_def run_inv_def split: if_splits)

lemma select_signal_inv: "select_signal r = Some r' \<Longrightarrow> rv_caller r = Selecting \<Longrightarrow> run_inv r \<Longrightarrow> run_inv r'"
  by (cases "rv_listener r") (auto simp: select_signal_def run_inv_def split: if_splits)

lemma run_step_inv: "run_step r r' \<Longrightarrow> run_inv r \<Longrightarrow> run_inv r'"
proof (induction rule: run_step.induct)
  case (step_closed r)
  then show ?case by (cases "rv_caller r") (simp_all add: run_inv_def)
next
  case (step_close r)
  then show ?case by (cases "rv_caller r") (simp_all add: run_inv_def)
next
  case (step_fails r e)
  then show ?case by (cases "rv_caller r") (simp_all add: run_inv_def)
next
  case (step_shut r err)
  then show ?case by (cases "rv_listener r") (simp_all add: run_inv_def)
next
  case (step_signal r)
  then show ?case by (cases "rv_listener r"; cases "rv_caller r") (simp_all add: run_inv_def)
qed (blast intro: send_failure_inv select_error_inv select_signal_inv)+

lemma run_steps_inv: "run_step\<^sup>*\<^sup>* r r' \<Longrightarrow> run_inv r \<Longrightarrow> run_inv r'"
  by (induction rule: rtranclp_induct) (auto intro: run_step_inv)

text \<open>What the caller and the listener have left to do after a failure, a signal or a shutdown.\<close>

lemma shutting_down_returns: "rv_caller r = ShuttingDown \<Longrightarrow> \<exists>r' res. run_step\<^sup>*\<^sup>* r r' \<and> rv_caller r' = RunReturned res"
  by (rule exI, rule exI [of _ None], rule conjI, rule r_into_rtranclp, erule step_shut) simp

lemma select_returns:
  assumes "rv_caller r = Selecting" "select_error r \<noteq> None \<or> rv_signal r"
  shows "\<exists>r' res. run_step\<^sup>*\<^sup>* r r' \<and> rv_caller r' = RunReturned res"
proof (cases "rv_signal r")
  case True
  let ?r = "r\<lparr>rv_signal := False, rv_caller := ShuttingDown, rv_shut_down := True\<rparr>"
  have "run_step r ?r" using assms(1) True by (intro step_shutdown) (simp_all add: select_signal_def)
  moreover have "rv_caller ?r = ShuttingDown" by simp
  ultimately show ?thesis using shutting_down_returns [of ?r] by (meson converse_rtranclp_into_rtranclp)
next
  case False
  with assms obtain r' where r': "select_error r = Some r'" by blast
  then obtain res where "rv_caller r' = RunReturned res"
    by (auto simp: select_error_def split: list.splits if_splits)
  with r' assms(1) show ?thesis by (blast intro: step_error)
qed

lemma run_can_return:
  assumes "run_inv r" "rv_listener r \<noteq> Listening \<or> rv_signal r \<or> rv_caller r \<noteq> Selecting"
  shows "\<exists>r' res. run_step\<^sup>*\<^sup>* r r' \<and> rv_caller r' = RunReturned res"
proof (cases "rv_caller r")
  case Selecting
  show ?thesis
  proof (cases "rv_listener r")
    case Listening
    with assms(2) Selecting show ?thesis by (intro select_returns) simp_all
  next
    case (Failed e)
    let ?r = "r\<lparr>rv_err_ch := [e], rv_listener := ClosingChannel\<rparr>"
    have "run_step r ?r" using Failed assms(1) by (intro step_send) (simp add: send_failure_def run_inv_def)
    moreover have "\<exists>r' res. run_step\<^sup>*\<^sup>* ?r r' \<and> rv_caller r' = RunReturned res"
      using Selecting by (intro select_returns) (simp_all add: select_error_def)
    ultimately show ?thesis by (meson converse_rtranclp_into_rtranclp)
  next
    case ClosingChannel
    with assms(1) Selecting show ?thesis
      by (intro select_returns) (auto simp: run_inv_def select_error_def split: list.split)
  next
    case ListenerGone
    with assms(1) Selecting show ?thesis
      by (intro select_returns) (auto simp: run_inv_def select_error_def split: list.split)
  qed
next
  case ShuttingDown
  then show ?thesis by (rule shutting_down_returns)
next
  case (RunReturned res)
  then show ?thesis by blast
qed

text \<open>
  C26. \<open>Run\<close> returns nil only after a shutdown: without one it returns the error of the listener,
  and only that. The goroutine never blocks on its send, so it ends whatever the caller did, the
  caller does not wait once the listener is gone or a signal has come, and from every state that
  can be reached with a listener that has ended or a signal there is a run in which \<open>Run\<close> returns.
\<close>

theorem run_reports_the_listener:
  assumes "run_step\<^sup>*\<^sup>* run_start r"
  shows "(\<forall>res. rv_caller r = RunReturned res \<and> \<not> rv_shut_down r \<longrightarrow> res \<noteq> None \<and> res = rv_failure r) \<and>
    (\<forall>e. rv_listener r = Failed e \<longrightarrow> send_failure r \<noteq> None) \<and>
    (rv_caller r = Selecting \<and> (rv_listener r = ListenerGone \<or> rv_signal r) \<longrightarrow>
       select_error r \<noteq> None \<or> select_signal r \<noteq> None) \<and>
    (rv_listener r \<noteq> Listening \<or> rv_signal r \<or> rv_caller r \<noteq> Selecting \<longrightarrow>
       (\<exists>r' res. run_step\<^sup>*\<^sup>* r r' \<and> rv_caller r' = RunReturned res))"
proof -
  have inv: "run_inv r" by (rule run_steps_inv [OF assms run_inv_start])
  then have "(\<forall>res. rv_caller r = RunReturned res \<and> \<not> rv_shut_down r \<longrightarrow> res \<noteq> None \<and> res = rv_failure r) \<and>
    (\<forall>e. rv_listener r = Failed e \<longrightarrow> send_failure r \<noteq> None) \<and>
    (rv_caller r = Selecting \<and> (rv_listener r = ListenerGone \<or> rv_signal r) \<longrightarrow>
       select_error r \<noteq> None \<or> select_signal r \<noteq> None)"
    by (cases "rv_listener r"; cases "rv_caller r")
      (auto simp: run_inv_def send_failure_def select_error_def select_signal_def split: list.split)
  with run_can_return [OF inv] show ?thesis by blast
qed

definition refused :: "run_view" where
  "refused = run_start\<lparr>rv_listener := ClosingChannel, rv_failure := Some ''address in use'',
     rv_caller := RunReturned (Some ''address in use'')\<rparr>"

theorem run_reports_the_listener_example:
  "run_step\<^sup>*\<^sup>* run_start refused \<and> rv_failure refused = Some ''address in use''"
proof -
  let ?r1 = "run_start\<lparr>rv_listener := Failed ''address in use'', rv_failure := Some ''address in use''\<rparr>"
  let ?r2 = "?r1\<lparr>rv_err_ch := [''address in use''], rv_listener := ClosingChannel\<rparr>"
  have "run_step run_start ?r1" by (rule step_fails) (simp_all add: run_start_def)
  moreover have "run_step ?r1 ?r2" by (rule step_send) (simp add: send_failure_def run_start_def)
  moreover have "run_step ?r2 refused"
    by (rule step_error) (simp_all add: select_error_def run_start_def refused_def)
  ultimately have reach: "run_step\<^sup>*\<^sup>* run_start refused" by (meson rtranclp.rtrancl_into_rtrancl rtranclp.rtrancl_refl)
  have "rv_caller refused = RunReturned (Some ''address in use'') \<and> \<not> rv_shut_down refused"
    by (simp add: refused_def run_start_def)
  with run_reports_the_listener [OF reach] reach show ?thesis by auto
qed

end
