(* ===== verification/Web_Serving.thy ===== *)
theory Web_Serving imports App_Theorems Metrics Observers Openapi Auth begin

text \<open>
  What the servers built with the library share (cmd/api/main.go and the programs of examples/):
  the registrations a \<open>main\<close> makes in turn, the state behind the standard middleware, and the
  lemmas that carry a contract of the handlers through the middleware, the router and
  \<open>ServeHTTP\<close> to whole sequences of requests.
\<close>

section \<open>Registrations\<close>

text \<open>The registrations of a \<open>main\<close>; the panic of one ends the program.\<close>

fun register_all :: "('w app \<Rightarrow> 'w app \<times> bool) list \<Rightarrow> 'w app \<Rightarrow> 'w app option" where
  "register_all [] a = Some a"
| "register_all (r # rs) a = (case r a of (a', panicked) \<Rightarrow> if panicked then None else register_all rs a')"

text \<open>An application whose every route has a property of its method, pattern and chain of handlers.\<close>

definition serves :: "(string \<Rightarrow> string \<Rightarrow> 'w handler \<Rightarrow> bool) \<Rightarrow> 'w app \<Rightarrow> bool" where
  "serves P a \<longleftrightarrow> (\<exists>calls. accepted calls \<and> app_router a = router_of calls \<and> (\<forall>(m, p, h)\<in>set calls. P m p h))"

lemma serves_empty: "serves P (empty_app cfg)"
  unfolding serves_def by (rule exI [of _ "[]"]) (simp add: accepted_def router_of_def empty_app_def)

lemma serves_use: "serves P a \<Longrightarrow> serves P (app_use mw a)"
  by (simp add: serves_def app_use_def)

lemma serves_route:
  assumes "serves P a" "app_route m p h mw a = (a', False)"
    and "P m (normalize_path p) (chain h (app_global_mw a @ mw))"
  shows "serves P a'"
proof -
  from assms(1) obtain calls where calls: "accepted calls" "app_router a = router_of calls"
      "\<forall>(m, p, h)\<in>set calls. P m p h" by (auto simp: serves_def)
  let ?call = "(m, normalize_path p, chain h (app_global_mw a @ mw))"
  have "accepted (calls @ [?call]) \<and> app_router a' = router_of (calls @ [?call])"
    by (rule app_route_call [OF assms(2) calls(1,2)])
  moreover have "\<forall>(m, p, h)\<in>set (calls @ [?call]). P m p h" using calls(3) assms(3) by auto
  ultimately show ?thesis unfolding serves_def by blast
qed

lemma serves_found:
  assumes "serves P a" "router_find (app_router a) m path = (Some e, params)"
  shows "P m (re_path e) (re_handler e)"
proof -
  from assms(1) obtain calls where calls: "accepted calls" "app_router a = router_of calls"
      "\<forall>(m, p, h)\<in>set calls. P m p h" by (auto simp: serves_def)
  from find_registered [OF calls(1)] assms(2) calls(2) have "(m, re_path e, re_handler e) \<in> set calls" by metis
  with calls(3) show ?thesis by auto
qed

text \<open>A group's routes are routes of the application behind the group's middleware.\<close>

lemma group_route_is_route:
  "group_route g m p h mw a = app_route m (normalize_path (grp_prefix g @ normalize_path p)) h (grp_mw g @ mw) a"
  by (simp add: group_route_def Let_def)

section \<open>Contracts of handlers\<close>

text \<open>A handler keeps a contract \<open>K\<close>: it relates the request, the world before and the world after.\<close>

definition handler_keeps :: "(request \<Rightarrow> 'w \<Rightarrow> 'w \<Rightarrow> bool) \<Rightarrow> 'w handler \<Rightarrow> bool" where
  "handler_keeps K h \<longleftrightarrow> (\<forall>c s. K (ctx_request c) s (snd (snd (h c s))))"

lemma handler_keepsD: "handler_keeps K h \<Longrightarrow> h c s = (r, c', s') \<Longrightarrow> K (ctx_request c) s s'"
  by (metis handler_keeps_def snd_conv)

lemma serve_entry_keeps:
  assumes "router_find (app_router a) (rq_method r) (rq_path r) = (Some e, params)" "handler_keeps K (re_handler e)"
  shows "K r s (snd (snd (serve_http enc a c0 w r s)))"
proof -
  let ?c = "ctx_reset c0 w r \<lparr>ctx_params := params, ctx_route_pattern := re_path e\<rparr>"
  obtain out c' s' where h: "re_handler e ?c s = (out, c', s')" by (metis prod_cases3)
  from handler_keepsD [OF assms(2) h] have "K r s s'" by (simp add: ctx_reset_def)
  moreover have "snd (snd (serve_http enc a c0 w r s)) = s'"
    using assms(1) h by (simp add: serve_http_def split: outcome.split option.split)
  ultimately show ?thesis by simp
qed

lemma serve_nothing: "router_find (app_router a) (rq_method r) (rq_path r) = (None, params) \<Longrightarrow>
    snd (snd (serve_http enc a c0 w r s)) = s"
  by (simp add: serve_http_def)

lemma serve_http_keeps:
  assumes "serves (\<lambda>m p. handler_keeps K) a" "\<And>s. K r s s"
  shows "K r s (snd (snd (serve_http enc a c0 w r s)))"
proof -
  obtain entry params where f: "router_find (app_router a) (rq_method r) (rq_path r) = (entry, params)"
    by (metis prod.exhaust)
  show ?thesis
  proof (cases entry)
    case None
    with f assms(2) show ?thesis by (simp add: serve_nothing)
  next
    case (Some e)
    with f have f: "router_find (app_router a) (rq_method r) (rq_path r) = (Some e, params)" by simp
    show ?thesis by (rule serve_entry_keeps [OF f serves_found [OF assms(1) f]])
  qed
qed

lemma preparing_keeps:
  assumes "preparing_middleware mw prepare" "\<And>c. ctx_request (prepare c) = ctx_request c" "handler_keeps K h"
  shows "handler_keeps K (mw h)"
  using assms(2,3) preparing_middleware.prepares [OF assms(1)] unfolding handler_keeps_def by metis

lemma recover_keeps: "handler_keeps K h \<Longrightarrow> handler_keeps K (recover h)"
  by (auto simp: handler_keeps_def recover_def split: prod.split outcome.split) (metis snd_conv)+

lemma request_id_keeps: "handler_keeps K h \<Longrightarrow> handler_keeps K (request_id rand h)"
  by (rule preparing_keeps [OF reqid.preparing_middleware_axioms]) (simp_all add: request_id_prepare_def Let_def ctx_set_def)

lemma secure_headers_keeps: "handler_keeps K h \<Longrightarrow> handler_keeps K (secure_headers h)"
  by (rule preparing_keeps [OF secure.preparing_middleware_axioms]) simp_all

section \<open>The state of a server\<close>

text \<open>
  What the clock, the random generator and the stop watches answer while a request is served: the
  seconds since 1970, the time as an opaque value, the bytes of a request id, the latency the
  logger and the duration the metrics measure. A time of package \<open>time\<close> is the number of an
  opaque value.
\<close>

record server_env =
  ev_now :: int
  ev_time :: nat
  ev_rand :: "nat list option"
  ev_latency :: int
  ev_duration :: "64 word"

record 'f server =
  sv_env :: server_env
  sv_metrics :: metrics
  sv_log :: "log_line list"
  sv_docs :: "'f generator"
  sv_routes :: "(string \<times> string) list"

definition log_to_server :: "log_line \<Rightarrow> ('f, 'z) server_scheme \<Rightarrow> ('f, 'z) server_scheme" where
  "log_to_server l s = s\<lparr>sv_log := sv_log s @ [l]\<rparr>"

definition server_request_id :: "('f, 'z) server_scheme middleware" where
  "server_request_id next c s = request_id (ev_rand (sv_env s)) next c s"

definition server_logger :: "('f, 'z) server_scheme middleware" where
  "server_logger next c s = logger log_to_server (ev_latency (sv_env s)) next c s"

definition server_metrics :: "('f, 'z) server_scheme middleware" where
  "server_metrics next c s = metrics_middleware (\<lambda>f. sv_metrics_update f) (ev_duration (sv_env s)) next c s"

definition server_auth :: "jwt_codec \<Rightarrow> string \<Rightarrow> ('f, 'z) server_scheme middleware" where
  "server_auth jc secret next c s = auth jc (Some secret) (ev_now (sv_env s)) next c s"

definition server_docs :: "('f, ('f, 'z) server_scheme) docs_access" where
  "server_docs = \<lparr>da_routes = sv_routes, da_get = sv_docs, da_put = (\<lambda>g s. s\<lparr>sv_docs := g\<rparr>)\<rparr>"

text \<open>The global middleware of the programs, in the order of their calls of \<open>Use\<close>.\<close>

definition standard_middleware :: "('f, 'z) server_scheme middleware list" where
  "standard_middleware = [recover, server_request_id, server_logger, secure_headers, server_metrics]"

text \<open>
  The requests of a server one after the other, each with its own answers of the clock and of the
  random generator.
\<close>

inductive session ::
  "(json_body \<Rightarrow> string + string) \<Rightarrow> ('f, 'z) server_scheme app \<Rightarrow> ('f, 'z) server_scheme \<Rightarrow> ('f, 'z) server_scheme \<Rightarrow> bool"
  for enc a s where
  session_start: "session enc a s s"
| session_request: "session enc a s s' \<Longrightarrow> session enc a s (snd (snd (serve_http enc a c0 w r (s'\<lparr>sv_env := ev\<rparr>))))"

text \<open>
  A contract of a server: it does not look at the log, the metrics and the document generator, and
  standing still keeps it.
\<close>

locale server_contract =
  fixes K :: "request \<Rightarrow> ('f, 'z) server_scheme \<Rightarrow> ('f, 'z) server_scheme \<Rightarrow> bool"
  assumes stays: "K r s s"
    and log_ignored: "K r s s' \<Longrightarrow> K r s (s'\<lparr>sv_log := l\<rparr>)"
    and metrics_ignored: "K r s s' \<Longrightarrow> K r s (s'\<lparr>sv_metrics := m\<rparr>)"
    and docs_ignored: "K r s s' \<Longrightarrow> K r s (s'\<lparr>sv_docs := g\<rparr>)"
begin

lemma request_id_server: "handler_keeps K h \<Longrightarrow> handler_keeps K (server_request_id h)"
  using request_id_keeps [of K h] unfolding handler_keeps_def server_request_id_def by metis

lemma logger_server: "handler_keeps K h \<Longrightarrow> handler_keeps K (server_logger h)"
  unfolding handler_keeps_def server_logger_def logger_def log_to_server_def
  by (auto split: prod.split outcome.split) (metis log_ignored snd_conv)+

lemma metrics_server: "handler_keeps K h \<Longrightarrow> handler_keeps K (server_metrics h)"
  unfolding handler_keeps_def
proof (intro allI)
  fix c :: ctx and s :: "('f, 'z) server_scheme"
  assume h: "\<forall>c s. K (ctx_request c) s (snd (snd (h c s)))"
  let ?c = "c\<lparr>ctx_writer := (ctx_writer c)\<lparr>ws_observers := ws_observers (ctx_writer c) @ [200]\<rparr>\<rparr>"
  obtain out c' s' where r: "h ?c s = (out, c', s')" by (metis prod_cases3)
  from h have "K (ctx_request ?c) s (snd (snd (h ?c s)))" by blast
  with r have K: "K (ctx_request c) s s'" by simp
  then have "K (ctx_request c) s (sv_metrics_update f s')" for f
    using metrics_ignored [OF K, of "f (sv_metrics s')"] by (cases s') simp
  with r K show "K (ctx_request c) s (snd (snd (server_metrics h c s)))"
    by (cases out) (simp_all add: server_metrics_def metrics_middleware_def Let_def)
qed

lemma standard_server: "handler_keeps K h \<Longrightarrow> handler_keeps K (chain h standard_middleware)"
  by (simp add: standard_middleware_def recover_keeps request_id_server logger_server secure_headers_keeps metrics_server)

text \<open>Handlers that only answer.\<close>

lemma answering: "(\<And>c s. snd (snd (h c s)) = s) \<Longrightarrow> handler_keeps K h"
  by (simp add: handler_keeps_def stays)

lemma metrics_route: "handler_keeps K (metrics_handler get seconds)"
  by (rule answering) (simp add: metrics_handler_def Let_def)

lemma health_route: "handler_keeps K (health_handler enc)"
  by (rule answering) (simp add: health_handler_def split: prod.split)

lemma docs_page: "handler_keeps K (docs_html_handler p)"
  by (rule answering) (simp add: docs_html_handler_def Let_def)

lemma docs_document: "handler_keeps K (docs_json_handler env rd st n encd server_docs)"
  using stays docs_ignored [OF stays]
  by (auto simp: handler_keeps_def docs_json_handler_def server_docs_def Let_def split: option.split sum.split prod.split)

end

section \<open>Guards of a server\<close>

text \<open>The claims of a request whose bearer token verifies.\<close>

definition bearer_claims :: "jwt_codec \<Rightarrow> string \<Rightarrow> int \<Rightarrow> request \<Rightarrow> claims option" where
  "bearer_claims jc secret now r =
     (let header = (case rq_header r ''Authorization'' of Some v \<Rightarrow> v | None \<Rightarrow> []) in
      if \<not> prefix bearer header then None
      else (case jwt_verify jc secret now (trim_space (drop (length bearer) header)) of Inl e \<Rightarrow> None | Inr cl \<Rightarrow> Some cl))"

definition may :: "jwt_codec \<Rightarrow> string \<Rightarrow> string \<Rightarrow> int \<Rightarrow> request \<Rightarrow> bool" where
  "may jc secret perm now r = (case bearer_claims jc secret now r of None \<Rightarrow> False | Some cl \<Rightarrow> perm \<in> set (cl_perms cl))"

lemma guarded_server:
  "chain h [server_auth jc secret, require_perm perm] c s =
     (case bearer_claims jc secret (ev_now (sv_env s)) (ctx_request c) of
        None \<Rightarrow> (Returned (Some (err_unauthorized
           (if prefix bearer (ctx_header c ''Authorization'') then ''invalid token'' else ''missing bearer token''))), c, s)
      | Some cl \<Rightarrow>
          (let c' = ctx_set user_context_key (principal_any (claims_principal cl)) c in
           if perm \<notin> set (cl_perms cl) then (Returned (Some (err_forbidden ''required permission missing'')), c', s)
           else h c' s))"
  by (cases "jwt_verify jc secret (ev_now (sv_env s)) (trim_space (drop (length bearer) (ctx_header c ''Authorization'')))")
    (simp_all add: server_auth_def auth_def require_perm_def bearer_claims_def ctx_header_def Let_def claims_principal_def)

lemma ctx_set_request [simp]: "ctx_request (ctx_set k v c) = ctx_request c"
  by (simp add: ctx_set_def)

context server_contract
begin

text \<open>Behind the guards a handler need only keep the contract for requests that have the permission.\<close>

lemma guarded_route:
  assumes "\<And>c s. may jc secret perm (ev_now (sv_env s)) (ctx_request c) \<Longrightarrow> K (ctx_request c) s (snd (snd (h c s)))"
  shows "handler_keeps K (chain h [server_auth jc secret, require_perm perm])"
  unfolding handler_keeps_def guarded_server
proof (intro allI)
  fix c s
  show "K (ctx_request c) s (snd (snd (case bearer_claims jc secret (ev_now (sv_env s)) (ctx_request c) of
      None \<Rightarrow> (Returned (Some (err_unauthorized
         (if prefix bearer (ctx_header c ''Authorization'') then ''invalid token'' else ''missing bearer token''))), c, s)
    | Some cl \<Rightarrow>
        (let c' = ctx_set user_context_key (principal_any (claims_principal cl)) c in
         if perm \<notin> set (cl_perms cl) then (Returned (Some (err_forbidden ''required permission missing'')), c', s)
         else h c' s))))"
  proof (cases "bearer_claims jc secret (ev_now (sv_env s)) (ctx_request c)")
    case None
    then show ?thesis by (simp add: stays)
  next
    case (Some cl)
    then show ?thesis
      using assms [of s "ctx_set user_context_key (principal_any (claims_principal cl)) c"]
      by (simp add: stays may_def Let_def)
  qed
qed

end

section \<open>Bodies and answers\<close>

text \<open>
  The decoder of \<open>encoding/json\<close> for a struct whose fields are strings, over a body and the bound on
  what may be read of it; it answers the values of the fields.
\<close>

type_synonym body_reader = "string \<times> int option"

record body_codec =
  bc_fields :: "string list \<Rightarrow> body_reader \<Rightarrow> (decode_error + (string \<Rightarrow> string)) \<times> body_reader"
  bc_empty :: "body_reader \<Rightarrow> (decode_error + unit) \<times> body_reader"

definition bind_fields :: "body_codec \<Rightarrow> string list \<Rightarrow> ctx \<Rightarrow> go_error + (string \<Rightarrow> string)" where
  "bind_fields bc names c =
     bind_json (bc_fields bc names) (bc_empty bc) (rq_body (ctx_request c), rq_limit (ctx_request c))"

definition answer_json :: "(json_body \<Rightarrow> string + string) \<Rightarrow> int \<Rightarrow> val \<Rightarrow> 'w handler" where
  "answer_json enc status v c s = (case ctx_json enc status (JsonValue v) c of (e, c') \<Rightarrow> (Returned e, c', s))"

definition fail_with :: "go_error \<Rightarrow> 'w handler" where
  "fail_with e c s = (Returned (Some e), c, s)"

lemma answer_json_world [simp]: "snd (snd (answer_json enc status v c s)) = s"
  by (simp add: answer_json_def split: prod.split)

lemma fail_with_world [simp]: "snd (snd (fail_with e c s)) = s"
  by (simp add: fail_with_def)

section \<open>Building an application\<close>

text \<open>\<open>elgon.Config{Addr: addr}\<close>.\<close>

definition addr_config :: "string \<Rightarrow> app_config" where
  "addr_config addr =
     \<lparr>cfg_addr = addr, cfg_read_timeout = 0, cfg_write_timeout = 0, cfg_idle_timeout = 0,
      cfg_shutdown_timeout = 0, cfg_disable_healthz = False, cfg_enable_metrics_stub = False\<rparr>"

definition wired :: "(string \<Rightarrow> string \<Rightarrow> 'w handler \<Rightarrow> bool) \<Rightarrow> 'w middleware list \<Rightarrow> 'w app \<Rightarrow> bool" where
  "wired P mws a \<longleftrightarrow> serves P a \<and> app_global_mw a = mws"

lemma wired_route:
  assumes "wired P mws a" "wildcard_last (parse_segments (normalize_path p))"
    and "P m (normalize_path p) (chain h (mws @ mw))"
  shows "\<exists>a'. app_route m p h mw a = (a', False) \<and> wired P mws a'"
proof -
  obtain a' b where r: "app_route m p h mw a = (a', b)" by (metis prod.exhaust)
  with assms(2) app_route_panics [of m p h mw a] have b: "b = False" by simp
  with r have r': "app_route m p h mw a = (a', False)" by simp
  have "serves P a'" by (rule serves_route [OF _ r']) (use assms in \<open>simp_all add: wired_def\<close>)
  with r' app_route_ok(3) [OF r'] assms(1) show ?thesis by (auto simp: wired_def)
qed

lemma wired_group_route:
  assumes "wired P mws a"
    and "wildcard_last (parse_segments (normalize_path (normalize_path (grp_prefix g @ normalize_path p))))"
    and "P m (normalize_path (normalize_path (grp_prefix g @ normalize_path p))) (chain h (mws @ grp_mw g @ mw))"
  shows "\<exists>a'. group_route g m p h mw a = (a', False) \<and> wired P mws a'"
  unfolding group_route_is_route by (rule wired_route [OF assms])

lemma register_all_wired:
  "(\<And>r a. r \<in> set rs \<Longrightarrow> wired P mws a \<Longrightarrow> \<exists>a'. r a = (a', False) \<and> wired P mws a') \<Longrightarrow> wired P mws a \<Longrightarrow>
   \<exists>a'. register_all rs a = Some a' \<and> wired P mws a'"
proof (induction rs arbitrary: a)
  case Nil
  then show ?case by simp
next
  case (Cons r rs)
  from Cons.prems(1) [OF _ Cons.prems(2)] obtain a1 where a1: "r a = (a1, False)" "wired P mws a1" by auto
  have "\<exists>a'. register_all rs a1 = Some a' \<and> wired P mws a'"
    by (rule Cons.IH [OF _ a1(2)]) (rule Cons.prems(1), simp_all)
  with a1(1) show ?case by simp
qed

lemma register_metrics_wired:
  assumes "wired P mws a" "wildcard_last (parse_segments (normalize_path ''/metrics''))"
    and "P ''GET'' (normalize_path ''/metrics'') (chain (metrics_handler get seconds) (mws @ []))"
  shows "\<exists>a'. register_metrics_route get seconds ''/metrics'' a = (a', False) \<and> wired P mws a'"
  using wired_route [of P mws a "''/metrics''" "''GET''" "metrics_handler get seconds" "[]", OF assms]
  by (simp add: register_metrics_route_def)

lemma register_docs_wired:
  assumes "wired P mws a"
    and "wildcard_last (parse_segments (normalize_path jp))" "wildcard_last (parse_segments (normalize_path dp))"
    and "jp \<noteq> []" "dp \<noteq> []"
    and "P ''GET'' (normalize_path jp) (chain json mws)" "P ''GET'' (normalize_path dp) (chain (html jp) mws)"
  shows "\<exists>a'. register_docs html json jp dp a = (a', False) \<and> wired P mws a'"
proof -
  obtain a1 where "app_route ''GET'' jp json [] a = (a1, False)" "wired P mws a1"
    using wired_route [OF assms(1,2), of "''GET''" json "[]"] assms(6) by auto
  then show ?thesis
    using wired_route [of P mws a1 dp "''GET''" "html jp" "[]"] assms(3,4,5,7)
    by (simp add: register_docs_def Let_def)
qed

lemma app_route_cfg: "app_route m p h mw a = (a', b) \<Longrightarrow> app_cfg a' = app_cfg a"
  by (auto simp: app_route_def Let_def split: prod.splits if_splits)

lemma empty_app_cfg: "app_cfg (empty_app cfg) = with_defaults cfg"
  by (simp add: empty_app_def)

lemma stub_default: "cfg_enable_metrics_stub (with_defaults cfg) = cfg_enable_metrics_stub cfg"
  by (simp add: with_defaults_def Let_def)

text \<open>\<open>New\<close> and \<open>Use\<close>: only the health route is registered before the middleware.\<close>

lemma new_app_wired:
  assumes "\<not> cfg_enable_metrics_stub cfg" "P ''GET'' ''/health'' (health_handler enc)"
  shows "wired P mws (app_use mws (new_app enc cfg))"
proof -
  have n: "normalize_path ''/health'' = ''/health''" by code_simp
  have "wildcard_last (parse_segments ''/health'')" by code_simp
  moreover have "wired P [] (empty_app cfg)" by (simp add: wired_def serves_empty) (simp add: empty_app_def)
  ultimately obtain a1 where a1: "app_route ''GET'' ''/health'' (health_handler enc) [] (empty_app cfg) = (a1, False)" "wired P [] a1"
    using wired_route [of P "[]" "empty_app cfg" "''/health''" "''GET''" "health_handler enc" "[]"] assms(2) n by auto
  have "new_app enc cfg = (if \<not> cfg_disable_healthz (with_defaults cfg) then a1 else empty_app cfg)"
    using app_route_cfg [OF a1(1)]
    by (cases "cfg_disable_healthz (with_defaults cfg)")
      (simp_all add: new_app_def Let_def a1(1) empty_app_cfg stub_default assms(1))
  moreover have "wired P [] (empty_app cfg)" by (simp add: wired_def serves_empty) (simp add: empty_app_def)
  ultimately have "wired P [] (new_app enc cfg)" using a1(2) by simp
  then show ?thesis by (simp add: wired_def serves_use) (simp add: app_use_def)
qed

section \<open>Refusals\<close>

text \<open>
  A handler that refuses the requests of \<open>Q\<close>: it returns a typed error of status \<open>st\<close> and has sent
  nothing. The middleware and \<open>ServeHTTP\<close> make one response of that status of it.
\<close>

definition refuses :: "(request \<Rightarrow> 'w \<Rightarrow> bool) \<Rightarrow> int \<Rightarrow> 'w handler \<Rightarrow> bool" where
  "refuses Q st h \<longleftrightarrow>
     (\<forall>c s. Q (ctx_request c) s \<longrightarrow>
        (\<exists>err he c' s'. h c s = (Returned (Some err), c', s') \<and> as_http_error err = Some he \<and> he_status he = st \<and>
          ws_sent (ctx_writer c') = ws_sent (ctx_writer c)))"

lemma refusesE:
  assumes "refuses Q st h" "Q (ctx_request c) s"
  obtains err he c' s' where "h c s = (Returned (Some err), c', s')" "as_http_error err = Some he" "he_status he = st"
    "ws_sent (ctx_writer c') = ws_sent (ctx_writer c)"
  using assms unfolding refuses_def by blast

lemma refuses_preparing:
  assumes "preparing_middleware mw prepare" "refuses Q st h"
    and "\<And>c. ctx_request (prepare c) = ctx_request c" "\<And>c. ws_sent (ctx_writer (prepare c)) = ws_sent (ctx_writer c)"
  shows "refuses Q st (mw h)"
  unfolding refuses_def preparing_middleware.prepares [OF assms(1)]
  using assms(2) [unfolded refuses_def, rule_format, of "prepare _"] assms(3,4) by metis

lemma refuses_recover: "refuses Q st h \<Longrightarrow> refuses Q st (recover h)"
  unfolding refuses_def recover_def by fastforce

lemma refuses_request_id: "refuses Q st h \<Longrightarrow> refuses Q st (request_id rand h)"
  by (rule refuses_preparing [OF reqid.preparing_middleware_axioms])
    (simp_all add: request_id_prepare_def Let_def ctx_set_def)

lemma refuses_secure_headers: "refuses Q st h \<Longrightarrow> refuses Q st (secure_headers h)"
  by (rule refuses_preparing [OF secure.preparing_middleware_axioms]) simp_all

lemma refuses_server_request_id: "refuses Q st h \<Longrightarrow> refuses Q st (server_request_id h)"
  using refuses_request_id [of Q st h] unfolding refuses_def server_request_id_def by blast

lemma refuses_server_logger: "refuses Q st h \<Longrightarrow> refuses Q st (server_logger h)"
  unfolding refuses_def server_logger_def logger_def by fastforce

lemma refuses_server_metrics:
  assumes "refuses Q st h"
  shows "refuses Q st (server_metrics h)"
  unfolding refuses_def
proof (intro allI impI)
  fix c :: ctx and s :: "('a, 'b) server_scheme"
  assume q: "Q (ctx_request c) s"
  let ?c = "c\<lparr>ctx_writer := (ctx_writer c)\<lparr>ws_observers := ws_observers (ctx_writer c) @ [200]\<rparr>\<rparr>"
  from q have "Q (ctx_request ?c) s" by simp
  then obtain err he c' s' where "h ?c s = (Returned (Some err), c', s')" "as_http_error err = Some he"
      "he_status he = st" "ws_sent (ctx_writer c') = ws_sent (ctx_writer ?c)"
    by (rule refusesE [OF assms])
  then show "\<exists>err he c' s'. server_metrics h c s = (Returned (Some err), c', s') \<and> as_http_error err = Some he \<and>
      he_status he = st \<and> ws_sent (ctx_writer c') = ws_sent (ctx_writer c)"
    by (simp add: server_metrics_def metrics_middleware_def Let_def)
qed

lemma refuses_standard: "refuses Q st h \<Longrightarrow> refuses Q st (chain h standard_middleware)"
  by (simp add: standard_middleware_def refuses_recover refuses_server_request_id refuses_server_logger
      refuses_secure_headers refuses_server_metrics)

lemma guards_refuse:
  "refuses (\<lambda>r s. bearer_claims jc secret (ev_now (sv_env s)) r = None) 401
     (chain h [server_auth jc secret, require_perm perm])"
  unfolding refuses_def guarded_server by (simp add: err_unauthorized_def new_http_error_def)

lemma refused_response:
  assumes "router_find (app_router a) (rq_method r) (rq_path r) = (Some e, params)"
    and "refuses Q st (re_handler e)" "Q r s" "ws_sent w = None"
  shows "\<exists>c s' header. serve_http enc a c0 w r s = (None, c, s') \<and> ws_sent (ctx_writer c) = Some (st, header)"
proof -
  let ?c = "ctx_reset c0 w r \<lparr>ctx_params := params, ctx_route_pattern := re_path e\<rparr>"
  have "Q (ctx_request ?c) s" using assms(3) by (simp add: ctx_reset_def)
  then obtain err he c' s' where h: "re_handler e ?c s = (Returned (Some err), c', s')" "as_http_error err = Some he"
      "he_status he = st" "ws_sent (ctx_writer c') = ws_sent (ctx_writer ?c)"
    by (rule refusesE [OF assms(2)])
  from assms(1) h(1) have "serve_http enc a c0 w r s = (None, write_error enc err c', s')"
    by (simp add: serve_http_def)
  with h(2-4) assms(4) show ?thesis by (auto simp: write_error_sent ctx_reset_def)
qed

section \<open>Answers\<close>

text \<open>
  A handler that always answers with the status and the text \<open>f\<close> makes of the route parameters; the
  middleware hands its answer on.
\<close>

definition answers_with :: "(route_param list \<Rightarrow> int \<times> string) \<Rightarrow> 'w handler \<Rightarrow> bool" where
  "answers_with f h \<longleftrightarrow>
     (\<forall>c s. ws_sent (ctx_writer c) = None \<and> ws_body (ctx_writer c) = [] \<longrightarrow>
        (\<exists>c' s' header. h c s = (Returned None, c', s') \<and>
           ws_sent (ctx_writer c') = Some (fst (f (ctx_params c)), header) \<and>
           ws_body (ctx_writer c') = snd (f (ctx_params c))))"

lemma answers_withE:
  assumes "answers_with f h" "ws_sent (ctx_writer c) = None" "ws_body (ctx_writer c) = []"
  obtains c' s' header where "h c s = (Returned None, c', s')"
    "ws_sent (ctx_writer c') = Some (fst (f (ctx_params c)), header)" "ws_body (ctx_writer c') = snd (f (ctx_params c))"
  using assms unfolding answers_with_def by blast

lemma answers_preparing:
  assumes "preparing_middleware mw prepare" "answers_with f h"
    and "\<And>c. ctx_params (prepare c) = ctx_params c" "\<And>c. ws_sent (ctx_writer (prepare c)) = ws_sent (ctx_writer c)"
    and "\<And>c. ws_body (ctx_writer (prepare c)) = ws_body (ctx_writer c)"
  shows "answers_with f (mw h)"
  unfolding answers_with_def preparing_middleware.prepares [OF assms(1)]
  using assms(2) [unfolded answers_with_def, rule_format, of "prepare _"] assms(3-5) by metis

lemma answers_passing:
  assumes "\<And>c s c' s'. h c s = (Returned None, c', s') \<Longrightarrow> \<exists>s''. mw h c s = (Returned None, c', s'')"
    and "answers_with f h"
  shows "answers_with f (mw h)"
  unfolding answers_with_def
proof (intro allI impI)
  fix c :: ctx and s
  assume "ws_sent (ctx_writer c) = None \<and> ws_body (ctx_writer c) = []"
  then obtain c' s' header where h: "h c s = (Returned None, c', s')"
      "ws_sent (ctx_writer c') = Some (fst (f (ctx_params c)), header)" "ws_body (ctx_writer c') = snd (f (ctx_params c))"
    using answers_withE [OF assms(2)] by metis
  from assms(1) [OF h(1)] h(2,3)
  show "\<exists>c' s' header. mw h c s = (Returned None, c', s') \<and>
      ws_sent (ctx_writer c') = Some (fst (f (ctx_params c)), header) \<and> ws_body (ctx_writer c') = snd (f (ctx_params c))"
    by blast
qed

lemma answers_recover: "answers_with f h \<Longrightarrow> answers_with f (recover h)"
  by (rule answers_passing) (simp_all add: recover_def)

lemma answers_server_request_id: "answers_with f h \<Longrightarrow> answers_with f (server_request_id h)"
  using answers_preparing [OF reqid.preparing_middleware_axioms, of f h]
  unfolding answers_with_def server_request_id_def
  by (simp add: request_id_prepare_def Let_def ctx_set_def map_writer_def)

lemma answers_secure_headers: "answers_with f h \<Longrightarrow> answers_with f (secure_headers h)"
  by (rule answers_preparing [OF secure.preparing_middleware_axioms]) (simp_all add: map_writer_def)

lemma answers_server_logger: "answers_with f h \<Longrightarrow> answers_with f (server_logger h)"
  by (rule answers_passing) (simp_all add: server_logger_def logger_def)

lemma answers_server_metrics:
  assumes "answers_with f h"
  shows "answers_with f (server_metrics h)"
  unfolding answers_with_def
proof (intro allI impI)
  fix c :: ctx and s :: "('a, 'b) server_scheme"
  assume w: "ws_sent (ctx_writer c) = None \<and> ws_body (ctx_writer c) = []"
  let ?c = "c\<lparr>ctx_writer := (ctx_writer c)\<lparr>ws_observers := ws_observers (ctx_writer c) @ [200]\<rparr>\<rparr>"
  from w have "ws_sent (ctx_writer ?c) = None" "ws_body (ctx_writer ?c) = []" by simp_all
  then obtain c' s' header where "h ?c s = (Returned None, c', s')"
      "ws_sent (ctx_writer c') = Some (fst (f (ctx_params ?c)), header)" "ws_body (ctx_writer c') = snd (f (ctx_params ?c))"
    by (rule answers_withE [OF assms])
  then show "\<exists>c' s' header. server_metrics h c s = (Returned None, c', s') \<and>
      ws_sent (ctx_writer c') = Some (fst (f (ctx_params c)), header) \<and> ws_body (ctx_writer c') = snd (f (ctx_params c))"
    by (simp add: server_metrics_def metrics_middleware_def Let_def)
qed

lemma answers_standard: "answers_with f h \<Longrightarrow> answers_with f (chain h standard_middleware)"
  by (simp add: standard_middleware_def answers_recover answers_server_request_id answers_server_logger
      answers_secure_headers answers_server_metrics)

lemma answered_response:
  assumes "router_find (app_router a) (rq_method r) (rq_path r) = (Some e, params)"
    and "answers_with f (re_handler e)" "ws_sent w = None" "ws_body w = []"
  shows "\<exists>c s' header. serve_http enc a c0 w r s = (None, c, s') \<and>
    ws_sent (ctx_writer c) = Some (fst (f params), header) \<and> ws_body (ctx_writer c) = snd (f params)"
proof -
  let ?c = "ctx_reset c0 w r \<lparr>ctx_params := params, ctx_route_pattern := re_path e\<rparr>"
  have "ws_sent (ctx_writer ?c) = None" "ws_body (ctx_writer ?c) = []" using assms(3,4) by (simp_all add: ctx_reset_def)
  then obtain c' s' header where h: "re_handler e ?c s = (Returned None, c', s')"
      "ws_sent (ctx_writer c') = Some (fst (f (ctx_params ?c)), header)" "ws_body (ctx_writer c') = snd (f (ctx_params ?c))"
    by (rule answers_withE [OF assms(2)])
  with assms(1) show ?thesis by (simp add: serve_http_def)
qed

end
