(* ===== verification/Cmd_Api.thy ===== *)
theory Cmd_Api imports Web_Serving begin

text \<open>
  The example server of the repository itself (cmd/api/main.go): metrics, the document of the
  routes, and one route with a parameter. The property follows one request through everything:
  the router, the global middleware, the handler and the response.
\<close>

definition hello_handler :: "(json_body \<Rightarrow> string + string) \<Rightarrow> 'f server handler" where
  "hello_handler enc c s = answer_json enc 200 (VMap [(''message'', VStr (''hello '' @ ctx_param c ''name''))]) c s"

definition hello_docs :: "'f generator" where
  "hello_docs =
     add_operation ''GET'' ''/api/hello/:name''
       (no_operation\<lparr>op_summary := ''Hello endpoint'', op_operation_id := ''getHelloByName'', op_tags := [''hello'']\<rparr>)
       ((new_generator ''elgon example API'' elgon_version)
         \<lparr>ge_description := ''Phase 2 example with metrics and OpenAPI endpoints.''\<rparr>)"

definition hello_main ::
  "(json_body \<Rightarrow> string + string) \<Rightarrow> (64 word \<Rightarrow> string) \<Rightarrow> 'f server handler \<Rightarrow> string \<Rightarrow> 'f server app option" where
  "hello_main enc seconds json addr =
     register_all
       [register_metrics_route sv_metrics seconds ''/metrics'',
        register_docs docs_html_handler json ''/openapi.json'' ''/docs'',
        group_route (app_group ''/api'' []) ''GET'' ''/hello/:name'' (hello_handler enc) []]
       (app_use standard_middleware (new_app enc (addr_config addr)))"

section \<open>The registrations\<close>

text \<open>An application with the registrations it has had, in order.\<close>

definition built :: "'w handler add_call list \<Rightarrow> 'w middleware list \<Rightarrow> 'w app \<Rightarrow> bool" where
  "built calls mws a \<longleftrightarrow> accepted calls \<and> app_router a = router_of calls \<and> app_global_mw a = mws"

lemma built_empty: "built [] [] (empty_app cfg)"
  by (simp add: built_def accepted_def router_of_def empty_app_def)

lemma built_use: "built calls [] a \<Longrightarrow> built calls mws (app_use mws a)"
  by (simp add: built_def app_use_def)

lemma built_route:
  assumes "built calls mws a" "wildcard_last (parse_segments (normalize_path p))"
  shows "\<exists>a'. app_route m p h mw a = (a', False) \<and> built (calls @ [(m, normalize_path p, chain h (mws @ mw))]) mws a'"
proof -
  obtain a' b where r: "app_route m p h mw a = (a', b)" by (metis prod.exhaust)
  with assms(2) app_route_panics [of m p h mw a] have "b = False" by simp
  with r have r': "app_route m p h mw a = (a', False)" by simp
  with app_route_call [OF r'] app_route_ok(3) [OF r'] assms(1) show ?thesis by (auto simp: built_def)
qed

lemma hello_built:
  "\<exists>a. hello_main enc seconds json addr = Some a \<and>
     built
       [(''GET'', ''/health'', health_handler enc),
        (''GET'', ''/metrics'', chain (metrics_handler sv_metrics seconds) standard_middleware),
        (''GET'', ''/openapi.json'', chain json standard_middleware),
        (''GET'', ''/docs'', chain (docs_html_handler ''/openapi.json'') standard_middleware),
        (''GET'', ''/api/hello/:name'', chain (hello_handler enc) standard_middleware)] standard_middleware a"
proof -
  have n: "normalize_path ''/health'' = ''/health''" "normalize_path ''/metrics'' = ''/metrics''"
      "normalize_path ''/openapi.json'' = ''/openapi.json''" "normalize_path ''/docs'' = ''/docs''"
      "normalize_path (normalize_path (''/api'' @ normalize_path ''/hello/:name'')) = ''/api/hello/:name''"
    by code_simp+
  have w: "wildcard_last (parse_segments ''/health'')" "wildcard_last (parse_segments ''/metrics'')"
      "wildcard_last (parse_segments ''/openapi.json'')" "wildcard_last (parse_segments ''/docs'')"
      "wildcard_last (parse_segments ''/api/hello/:name'')"
    by code_simp+
  obtain a0 :: "'a server app" where a0: "app_route ''GET'' ''/health'' (health_handler enc) [] (empty_app (addr_config addr)) = (a0, False)"
      "built [(''GET'', ''/health'', health_handler enc)] [] a0"
    using built_route [OF built_empty, of "''/health''" "''GET''" "health_handler enc" "[]"] n(1) w(1) by auto
  have cfg: "\<not> cfg_disable_healthz (with_defaults (addr_config addr))" "\<not> cfg_enable_metrics_stub (with_defaults (addr_config addr))"
    by (simp_all add: with_defaults_def addr_config_def Let_def)
  have new: "new_app enc (addr_config addr) = a0"
    using app_route_cfg [OF a0(1)] cfg by (simp add: new_app_def Let_def empty_app_cfg a0(1))
  note b0 = built_use [OF a0(2), of standard_middleware]
  obtain a1 where a1: "app_route ''GET'' ''/metrics'' (metrics_handler sv_metrics seconds) []
        (app_use standard_middleware a0) = (a1, False)"
      "built ([(''GET'', ''/health'', health_handler enc)] @
        [(''GET'', ''/metrics'', chain (metrics_handler sv_metrics seconds) standard_middleware)]) standard_middleware a1"
    using built_route [OF b0, of "''/metrics''" "''GET''" "metrics_handler sv_metrics seconds" "[]"] n(2) w(2) by auto
  obtain a2 where a2: "app_route ''GET'' ''/openapi.json'' json [] a1 = (a2, False)"
      "built (([(''GET'', ''/health'', health_handler enc)] @
        [(''GET'', ''/metrics'', chain (metrics_handler sv_metrics seconds) standard_middleware)]) @
        [(''GET'', ''/openapi.json'', chain json standard_middleware)]) standard_middleware a2"
    using built_route [OF a1(2), of "''/openapi.json''" "''GET''" json "[]"] n(3) w(3) by auto
  obtain a3 where a3: "app_route ''GET'' ''/docs'' (docs_html_handler ''/openapi.json'') [] a2 = (a3, False)"
      "built ((([(''GET'', ''/health'', health_handler enc)] @
        [(''GET'', ''/metrics'', chain (metrics_handler sv_metrics seconds) standard_middleware)]) @
        [(''GET'', ''/openapi.json'', chain json standard_middleware)]) @
        [(''GET'', ''/docs'', chain (docs_html_handler ''/openapi.json'') standard_middleware)]) standard_middleware a3"
    using built_route [OF a2(2), of "''/docs''" "''GET''" "docs_html_handler ''/openapi.json''" "[]"] n(4) w(4) by auto
  have p: "grp_prefix (app_group ''/api'' ([] :: 'a server middleware list)) = ''/api''" by (simp add: app_group_def) code_simp
  have g: "group_route (app_group ''/api'' []) ''GET'' ''/hello/:name'' (hello_handler enc) [] a3 =
      app_route ''GET'' (normalize_path (''/api'' @ normalize_path ''/hello/:name'')) (hello_handler enc) [] a3"
    by (simp add: group_route_is_route p) (simp add: app_group_def)
  obtain a4 where "group_route (app_group ''/api'' []) ''GET'' ''/hello/:name'' (hello_handler enc) [] a3 = (a4, False)"
      "built (((([(''GET'', ''/health'', health_handler enc)] @
        [(''GET'', ''/metrics'', chain (metrics_handler sv_metrics seconds) standard_middleware)]) @
        [(''GET'', ''/openapi.json'', chain json standard_middleware)]) @
        [(''GET'', ''/docs'', chain (docs_html_handler ''/openapi.json'') standard_middleware)]) @
        [(''GET'', ''/api/hello/:name'', chain (hello_handler enc) standard_middleware)]) standard_middleware a4"
    using built_route [OF a3(2), of "normalize_path (''/api'' @ normalize_path ''/hello/:name'')" "''GET''" "hello_handler enc" "[]"]
      n(5) w(5) unfolding g by auto
  with a1(1) a2(1) a3(1) show ?thesis
    by (simp add: hello_main_def new register_metrics_route_def register_docs_def Let_def)
qed

section \<open>One request, end to end\<close>

lemma hello_answers:
  assumes "\<And>name. enc (JsonValue (VMap [(''message'', VStr (''hello '' @ name))])) = Inr (shown name)"
  shows "answers_with (\<lambda>params. (200, shown (find_param params ''name''))) (hello_handler enc)"
  using assms by (simp add: answers_with_def hello_handler_def answer_json_def ctx_json_def ctx_param_def Let_def)

lemma split_hello:
  assumes "name \<noteq> []" "CHR ''/'' \<notin> set name"
  shows "split_path (''/api/hello/'' @ name) = [''api'', ''hello'', name]"
proof -
  have "last name \<noteq> CHR ''/''" using assms last_in_set by metis
  then have "trim_char (CHR ''/'') (''/api/hello/'' @ name) = ''api/hello/'' @ name"
    using trim_char_id [of "''api/hello/'' @ name" "CHR ''/''"] assms(1) by simp
  then show ?thesis using split_on_clean [OF assms(2)] by (simp add: split_path_def)
qed

lemma hello_found:
  assumes "built [(''GET'', ''/health'', h1), (''GET'', ''/metrics'', h2), (''GET'', ''/openapi.json'', h3),
      (''GET'', ''/docs'', h4), (''GET'', ''/api/hello/:name'', h5)] mws a"
    and "name \<noteq> []" "CHR ''/'' \<notin> set name"
  shows "router_find (app_router a) ''GET'' (''/api/hello/'' @ name)
    = (Some \<lparr>re_handler = h5, re_method = ''GET'', re_path = ''/api/hello/:name''\<rparr>, [(''name'', name)])"
proof -
  let ?calls = "[(''GET'', ''/health'', h1), (''GET'', ''/metrics'', h2), (''GET'', ''/openapi.json'', h3),
      (''GET'', ''/docs'', h4), (''GET'', ''/api/hello/:name'', h5)]"
  have segs: "parse_segments ''/health'' = [\<lparr>seg_kind = SegmentStatic, seg_value = ''health''\<rparr>]"
      "parse_segments ''/metrics'' = [\<lparr>seg_kind = SegmentStatic, seg_value = ''metrics''\<rparr>]"
      "parse_segments ''/openapi.json'' = [\<lparr>seg_kind = SegmentStatic, seg_value = ''openapi.json''\<rparr>]"
      "parse_segments ''/docs'' = [\<lparr>seg_kind = SegmentStatic, seg_value = ''docs''\<rparr>]"
      "parse_segments ''/api/hello/:name'' = [\<lparr>seg_kind = SegmentStatic, seg_value = ''api''\<rparr>,
         \<lparr>seg_kind = SegmentStatic, seg_value = ''hello''\<rparr>, \<lparr>seg_kind = SegmentParam, seg_value = ''name''\<rparr>]"
    by code_simp+
  from assms(1) have a: "accepted ?calls" "app_router a = router_of ?calls" by (simp_all add: built_def)
  show ?thesis
    unfolding a(2) router_find_is_match [OF a(1)] split_hello [OF assms(2,3)]
    by (simp add: registered_def segs is_static_def is_param_def last_route_def)
qed

text \<open>
  The example server greets: for every name without a slash, \<open>GET /api/hello/\<close> and the name is
  answered 200 with the JSON text of the greeting and nothing else, whatever the server has served
  before.
\<close>

theorem hello_server_greets:
  assumes "\<And>name. enc (JsonValue (VMap [(''message'', VStr (''hello '' @ name))])) = Inr (shown name)"
    and "name \<noteq> []" "CHR ''/'' \<notin> set name" "rq_method r = ''GET''" "rq_path r = ''/api/hello/'' @ name"
    and "ws_sent w = None" "ws_body w = []"
  shows "\<exists>a. hello_main enc seconds json addr = Some a \<and>
    (\<forall>c0 s. \<exists>c s' header. serve_http enc a c0 w r s = (None, c, s') \<and>
       ws_sent (ctx_writer c) = Some (200, header) \<and> ws_body (ctx_writer c) = shown name)"
proof -
  from hello_built [of enc seconds json addr] obtain a where a: "hello_main enc seconds json addr = Some a"
    "built
       [(''GET'', ''/health'', health_handler enc),
        (''GET'', ''/metrics'', chain (metrics_handler sv_metrics seconds) standard_middleware),
        (''GET'', ''/openapi.json'', chain json standard_middleware),
        (''GET'', ''/docs'', chain (docs_html_handler ''/openapi.json'') standard_middleware),
        (''GET'', ''/api/hello/:name'', chain (hello_handler enc) standard_middleware)] standard_middleware a"
    by blast
  have f: "router_find (app_router a) (rq_method r) (rq_path r) =
      (Some \<lparr>re_handler = chain (hello_handler enc) standard_middleware, re_method = ''GET'', re_path = ''/api/hello/:name''\<rparr>,
       [(''name'', name)])"
    unfolding assms(4,5) by (rule hello_found [OF a(2) assms(2,3)])
  have h: "answers_with (\<lambda>params. (200, shown (find_param params ''name''))) (chain (hello_handler enc) standard_middleware)"
    by (rule answers_standard, rule hello_answers) (rule assms(1))
  have "\<exists>c s' header. serve_http enc a c0 w r s = (None, c, s') \<and>
       ws_sent (ctx_writer c) = Some (200, header) \<and> ws_body (ctx_writer c) = shown name" for c0 s
    using answered_response [OF f _ assms(6,7), of "\<lambda>params. (200, shown (find_param params ''name''))" enc c0 s] h by simp
  with a(1) show ?thesis by blast
qed

definition message_enc :: "json_body \<Rightarrow> string + string" where
  "message_enc b = (case b of JsonValue (VMap [(k, VStr m)]) \<Rightarrow> Inr m | _ \<Rightarrow> Inr [])"

theorem hello_server_greets_example:
  "\<exists>a :: unit server app. hello_main message_enc (\<lambda>d. []) metrics_stub '':8080'' = Some a \<and>
    (\<forall>c0 s. \<exists>c s' header. serve_http message_enc a c0 fresh_writer (get_request ''/api/hello/you'') s = (None, c, s') \<and>
       ws_sent (ctx_writer c) = Some (200, header) \<and> ws_body (ctx_writer c) = ''hello you'')"
proof -
  have r: "rq_path (get_request ''/api/hello/you'') = ''/api/hello/'' @ ''you''" by (simp add: get_request_def)
  have enc: "message_enc (JsonValue (VMap [(''message'', VStr (''hello '' @ name))])) = Inr (''hello '' @ name)" for name
    by (simp add: message_enc_def)
  have "\<exists>a :: unit server app. hello_main message_enc (\<lambda>d. []) metrics_stub '':8080'' = Some a \<and>
    (\<forall>c0 s. \<exists>c s' header. serve_http message_enc a c0 fresh_writer (get_request ''/api/hello/you'') s = (None, c, s') \<and>
       ws_sent (ctx_writer c) = Some (200, header) \<and> ws_body (ctx_writer c) = ''hello '' @ ''you'')"
    by (rule hello_server_greets [where shown = "\<lambda>name. ''hello '' @ name", OF enc _ _ _ r])
      (simp_all add: get_request_def fresh_writer_def)
  then show ?thesis by simp
qed

end
