(* ===== verification/Demo_Todos.thy ===== *)
theory Demo_Todos imports Orm_Values "HOL-Library.Word" begin

text \<open>
  The store of the demo application (examples/demo-app/internal/app/todo_service.go and
  internal/domain/todo.go). Every operation holds the mutex from beginning to end, so
  concurrent callers are sequences of whole operations. Ids are \<open>int64\<close>, kept as 64-bit words; a
  time is the number of an opaque value.
\<close>

record todo =
  td_id :: "64 word"
  td_title :: string
  td_done :: bool
  td_created_at :: nat

record todo_service =
  ts_next_id :: "64 word"
  ts_items :: "todo list"

definition new_todo_service :: todo_service where
  "new_todo_service = \<lparr>ts_next_id = 1, ts_items = []\<rparr>"

definition todo_list :: "todo_service \<Rightarrow> todo list" where
  "todo_list svc = ts_items svc"

definition todo_create :: "nat \<Rightarrow> string \<Rightarrow> todo_service \<Rightarrow> todo \<times> todo_service" where
  "todo_create now title svc =
     (let t = \<lparr>td_id = ts_next_id svc, td_title = title, td_done = False, td_created_at = now\<rparr>
      in (t, \<lparr>ts_next_id = ts_next_id svc + 1, ts_items = ts_items svc @ [t]\<rparr>))"

text \<open>The loop of \<open>MarkDone\<close>: the first item with the id, and the items after the update.\<close>

fun mark_first :: "64 word \<Rightarrow> todo list \<Rightarrow> (todo \<times> todo list) option" where
  "mark_first i [] = None"
| "mark_first i (t # ts) =
     (if td_id t = i then Some (t\<lparr>td_done := True\<rparr>, t\<lparr>td_done := True\<rparr> # ts)
      else map_option (apsnd (Cons t)) (mark_first i ts))"

definition todo_mark_done :: "64 word \<Rightarrow> todo_service \<Rightarrow> todo option \<times> todo_service" where
  "todo_mark_done i svc =
     (case mark_first i (ts_items svc) of
        None \<Rightarrow> (None, svc)
      | Some (t, ts) \<Rightarrow> (Some t, svc\<lparr>ts_items := ts\<rparr>))"

inductive todo_step :: "todo_service \<Rightarrow> todo_service \<Rightarrow> bool" where
  step_create: "todo_step svc (snd (todo_create now title svc))"
| step_mark: "todo_step svc (snd (todo_mark_done i svc))"

section \<open>Ids\<close>

definition todo_inv :: "todo_service \<Rightarrow> bool" where
  "todo_inv svc \<longleftrightarrow>
     map td_id (ts_items svc) = map (\<lambda>k. of_nat (Suc k)) [0..<length (ts_items svc)] \<and>
     ts_next_id svc = of_nat (Suc (length (ts_items svc)))"

text \<open>What no operation takes back: entries stay in place with what they were created with, and stay done.\<close>

definition todo_later :: "todo \<Rightarrow> todo \<Rightarrow> bool" where
  "todo_later t t' \<longleftrightarrow> t' = t\<lparr>td_done := td_done t'\<rparr> \<and> (td_done t \<longrightarrow> td_done t')"

definition items_grow :: "todo list \<Rightarrow> todo list \<Rightarrow> bool" where
  "items_grow ts ts' \<longleftrightarrow> length ts \<le> length ts' \<and> list_all2 todo_later ts (take (length ts) ts')"

lemma todo_later_refl [simp]: "todo_later t t"
  by (simp add: todo_later_def)

lemma todo_later_trans: "todo_later t t' \<Longrightarrow> todo_later t' t'' \<Longrightarrow> todo_later t t''"
  by (cases t; cases t'; cases t'') (simp add: todo_later_def)

lemma items_grow_refl [simp]: "items_grow ts ts"
  by (simp add: items_grow_def list_all2_refl)

lemma items_grow_snoc: "items_grow ts (ts @ [t])"
  by (simp add: items_grow_def list_all2_refl)

lemma items_grow_trans: "items_grow ts ts' \<Longrightarrow> items_grow ts' ts'' \<Longrightarrow> items_grow ts ts''"
  by (auto simp: items_grow_def list_all2_conv_all_nth intro: todo_later_trans)

lemma mark_first_facts:
  assumes "mark_first i ts = Some (t, ts')"
  shows "map td_id ts' = map td_id ts \<and> items_grow ts ts' \<and> td_id t = i \<and> td_done t \<and> t \<in> set ts'"
  using assms
proof (induction ts arbitrary: ts')
  case Nil
  then show ?case by simp
next
  case (Cons u ts)
  show ?case
  proof (cases "td_id u = i")
    case True
    with Cons.prems show ?thesis by (auto simp: items_grow_def list_all2_refl todo_later_def)
  next
    case False
    with Cons.prems obtain ts1 where "mark_first i ts = Some (t, ts1)" "ts' = u # ts1" by auto
    with Cons.IH [of ts1] show ?thesis by (auto simp: items_grow_def)
  qed
qed

lemma mark_first_none: "mark_first i ts = None \<longleftrightarrow> i \<notin> td_id ` set ts"
  by (induction ts) auto

lemma todo_step_facts:
  "todo_step svc svc' \<Longrightarrow> (todo_inv svc \<longrightarrow> todo_inv svc') \<and> items_grow (ts_items svc) (ts_items svc')"
proof (induction rule: todo_step.induct)
  case (step_create svc now title)
  then show ?case by (simp add: todo_create_def Let_def todo_inv_def items_grow_snoc)
next
  case (step_mark svc i)
  show ?case
  proof (cases "mark_first i (ts_items svc)")
    case None
    then show ?thesis by (simp add: todo_mark_done_def)
  next
    case (Some x)
    then obtain t ts where x: "mark_first i (ts_items svc) = Some (t, ts)" by (cases x) auto
    from mark_first_facts [OF x] have "map td_id ts = map td_id (ts_items svc)" "items_grow (ts_items svc) ts" by auto
    moreover from this(1) have "length ts = length (ts_items svc)" by (metis length_map)
    ultimately show ?thesis using x by (simp add: todo_mark_done_def todo_inv_def)
  qed
qed

lemma todo_steps_facts:
  "todo_step\<^sup>*\<^sup>* svc svc' \<Longrightarrow> (todo_inv svc \<longrightarrow> todo_inv svc') \<and> items_grow (ts_items svc) (ts_items svc')"
  by (induction rule: rtranclp_induct) (auto dest: todo_step_facts intro: items_grow_trans)

lemma todo_reachable: "todo_step\<^sup>*\<^sup>* new_todo_service svc \<Longrightarrow> todo_inv svc"
  using todo_steps_facts [of new_todo_service svc] by (simp add: todo_inv_def new_todo_service_def)

lemma unat_of_nat_64: "n < 2 ^ 64 \<Longrightarrow> unat (of_nat n :: 64 word) = n"
  by (simp add: unsigned_of_nat take_bit_nat_eq_self)

text \<open>
  Ids are unique for as long as the counter has not gone round, and \<open>MarkDone\<close> finds exactly the
  ids that were given out.
\<close>

lemma todo_ids_distinct:
  assumes "todo_inv svc" "length (ts_items svc) < 2 ^ 64"
  shows "distinct (map td_id (ts_items svc))"
proof -
  have "inj_on (\<lambda>k. of_nat (Suc k) :: 64 word) {0..<length (ts_items svc)}"
  proof (rule inj_onI)
    fix x y
    assume xy: "x \<in> {0..<length (ts_items svc)}" "y \<in> {0..<length (ts_items svc)}"
      and eq: "(of_nat (Suc x) :: 64 word) = of_nat (Suc y)"
    then have "(of_nat x :: 64 word) = of_nat y" by simp
    moreover from xy assms(2) have "x < 2 ^ 64" "y < 2 ^ 64" by simp_all
    ultimately show "x = y" by (metis unat_of_nat_64)
  qed
  with assms(1) show ?thesis by (simp add: todo_inv_def distinct_map)
qed

lemma todo_mark_done_finds:
  assumes "todo_inv svc" "length (ts_items svc) < 2 ^ 64"
  shows "fst (todo_mark_done i svc) \<noteq> None \<longleftrightarrow> unat i \<in> {1..length (ts_items svc)}"
proof -
  have "i \<in> td_id ` set (ts_items svc) \<longleftrightarrow> i \<in> set (map td_id (ts_items svc))" by simp
  also have "\<dots> \<longleftrightarrow> (\<exists>k < length (ts_items svc). i = of_nat (Suc k))"
    using assms(1) by (auto simp: todo_inv_def)
  finally have mem: "i \<in> td_id ` set (ts_items svc) \<longleftrightarrow> (\<exists>k < length (ts_items svc). i = of_nat (Suc k))" .
  show ?thesis
  proof
    assume "fst (todo_mark_done i svc) \<noteq> None"
    then obtain k where k: "k < length (ts_items svc)" "i = of_nat (Suc k)"
      using mem mark_first_none [of i "ts_items svc"] by (auto simp: todo_mark_done_def split: option.splits)
    show "unat i \<in> {1..length (ts_items svc)}"
    proof (cases "Suc k = 2 ^ 64")
      case True
      with k(1) assms(2) show ?thesis by simp
    next
      case False
      with k assms(2) have "Suc k < 2 ^ 64" by simp
      then have "unat i = Suc k" using k(2) by (metis unat_of_nat_64)
      with k(1) show ?thesis by simp
    qed
  next
    assume u: "unat i \<in> {1..length (ts_items svc)}"
    then have "i = of_nat (Suc (unat i - 1))" "unat i - 1 < length (ts_items svc)" by auto
    then show "fst (todo_mark_done i svc) \<noteq> None"
      using mem mark_first_none [of i "ts_items svc"] by (auto simp: todo_mark_done_def split: option.splits)
  qed
qed

text \<open>
  C27. The store of the demo application, whatever calls run on it at the same time: ids are given
  out from one up without gaps and are unique for fewer than \<open>2^64\<close> entries; \<open>MarkDone\<close> finds
  exactly the entries there are; and from then on nothing is lost: every later list begins with the
  same entries, with the same title and time, and what was done stays done.
\<close>

theorem todo_ids_and_history:
  assumes "todo_step\<^sup>*\<^sup>* new_todo_service svc" "length (ts_items svc) < 2 ^ 64" "todo_step\<^sup>*\<^sup>* svc svc'"
  shows "map td_id (todo_list svc) = map (\<lambda>k. of_nat (Suc k)) [0..<length (todo_list svc)] \<and>
    distinct (map td_id (todo_list svc)) \<and>
    (fst (todo_mark_done i svc) \<noteq> None \<longleftrightarrow> unat i \<in> {1..length (todo_list svc)}) \<and>
    items_grow (todo_list svc) (todo_list svc')"
  using todo_reachable [OF assms(1)] todo_ids_distinct [OF _ assms(2)] todo_mark_done_finds [OF _ assms(2)]
    todo_steps_facts [OF assms(3)]
  by (simp add: todo_list_def todo_inv_def)

definition two_todos :: todo_service where
  "two_todos = snd (todo_create 2 ''b'' (snd (todo_create 1 ''a'' new_todo_service)))"

theorem todo_ids_and_history_example:
  "map td_id (todo_list two_todos) = [1, 2] \<and>
   items_grow (todo_list two_todos) (todo_list (snd (todo_mark_done 2 two_todos)))"
proof -
  have "todo_step\<^sup>*\<^sup>* new_todo_service two_todos"
    unfolding two_todos_def by (meson step_create rtranclp.rtrancl_into_rtrancl rtranclp.rtrancl_refl)
  moreover have "length (ts_items two_todos) = 2"
    by (simp add: two_todos_def todo_create_def new_todo_service_def Let_def)
  moreover have "todo_step\<^sup>*\<^sup>* two_todos (snd (todo_mark_done 2 two_todos))"
    by (rule r_into_rtranclp) (rule step_mark)
  ultimately show ?thesis
    using todo_ids_and_history [of two_todos "snd (todo_mark_done 2 two_todos)" 2]
    by (simp add: todo_list_def upt_rec)
qed

end
