(* ===== verification/Demo_Api.thy ===== *)
theory Demo_Api imports Web_Serving Demo_Todos Jobs_Brokers begin

text \<open>
  The demo application (examples/demo-app): its handlers (internal/http/handlers/handlers.go), its
  routes and their documentation (internal/http/routes/routes.go) and the application that
  cmd/api/main.go builds, with the property that no request changes the todos without a token that
  allows it. The queue is any implementation of the \<open>Queue\<close> interface; the worker that only
  logs and the signal that closes the queue run beside the requests and are not part of them.
\<close>

section \<open>State and parameters\<close>

record ('q, 'f) demo_world = "'f server" +
  dw_todos :: todo_service
  dw_queue :: 'q

text \<open>The fields of \<open>API\<close>, with the codecs and the conversion of a duration to seconds; a nil queue is \<open>None\<close>.\<close>

record 'q demo_api =
  da_bodies :: body_codec
  da_enc :: "json_body \<Rightarrow> string + string"
  da_jwt :: jwt_codec
  da_seconds :: "int \<Rightarrow> int"
  da_secret :: string
  da_queue :: "(message \<Rightarrow> 'q \<Rightarrow> string option \<times> 'q) option"

definition todo_json :: "todo \<Rightarrow> val" where
  "todo_json t = VMap
     [(''id'', VInt (sint (td_id t))), (''title'', VStr (td_title t)), (''done'', VBool (td_done t)),
      (''created_at'', VOpaque (td_created_at t))]"

definition login_response :: "string \<Rightarrow> val" where
  "login_response token = VMap [(''access_token'', VStr token), (''token_type'', VStr ''Bearer'')]"

definition day :: int where "day = 24 * 60 * 60 * 1000000000"

section \<open>Handlers\<close>

definition demo_health :: "'q demo_api \<Rightarrow> ('q, 'f) demo_world handler" where
  "demo_health api c s = answer_json (da_enc api) 200 (VMap [(''status'', VStr ''ok'')]) c s"

definition demo_claims_of :: "string \<Rightarrow> claims" where
  "demo_claims_of email =
     (let roles = [''user'']; perms = [''todos:read'', ''todos:write''];
          admin = (email = ''admin@example.com'')
      in \<lparr>cl_sub = email, cl_email = email,
          cl_roles = (if admin then roles @ [''admin''] else roles),
          cl_perms = (if admin then perms @ [''todos:admin''] else perms), cl_exp = 0, cl_iat = 0\<rparr>)"

definition demo_login :: "'q demo_api \<Rightarrow> ('q, 'f) demo_world handler" where
  "demo_login api c s =
     (case bind_fields (da_bodies api) [''email''] c of
        Inl e \<Rightarrow> fail_with e c s
      | Inr req \<Rightarrow>
          (let email = trim_space (to_lower (req ''email'')) in
           if email = [] then fail_with (err_bad_request ''email is required'' VNil) c s
           else
             (case jwt_sign (da_jwt api) (da_seconds api) (da_secret api) (ev_now (sv_env s)) (demo_claims_of email) day of
                Inl e \<Rightarrow> fail_with (err_internal ''failed to create token'') c s
              | Inr token \<Rightarrow> answer_json (da_enc api) 200 (login_response token) c s)))"

definition demo_list_todos :: "'q demo_api \<Rightarrow> ('q, 'f) demo_world handler" where
  "demo_list_todos api c s = answer_json (da_enc api) 200 (VList (map todo_json (todo_list (dw_todos s)))) c s"

definition demo_enqueue :: "'q demo_api \<Rightarrow> message \<Rightarrow> ('q, 'f) demo_world \<Rightarrow> ('q, 'f) demo_world" where
  "demo_enqueue api m s = (case da_queue api of None \<Rightarrow> s | Some enqueue \<Rightarrow> s\<lparr>dw_queue := snd (enqueue m (dw_queue s))\<rparr>)"

definition demo_create_todo :: "'q demo_api \<Rightarrow> ('q, 'f) demo_world handler" where
  "demo_create_todo api c s =
     (case bind_fields (da_bodies api) [''title''] c of
        Inl e \<Rightarrow> fail_with e c s
      | Inr req \<Rightarrow>
          (let title = trim_space (req ''title'') in
           if title = [] then fail_with (err_bad_request ''title is required'' VNil) c s
           else
             (case todo_create (ev_time (sv_env s)) title (dw_todos s) of
                (t, svc) \<Rightarrow>
                  answer_json (da_enc api) 201 (todo_json t) c
                    (demo_enqueue api \<lparr>msg_name = ''todo.created'', msg_payload = title\<rparr> (s\<lparr>dw_todos := svc\<rparr>)))))"

definition demo_mark_done :: "'q demo_api \<Rightarrow> ('q, 'f) demo_world handler" where
  "demo_mark_done api c s =
     (case parse_int64 (ctx_param c ''id'') of
        None \<Rightarrow> fail_with (err_bad_request ''invalid todo id'' VNil) c s
      | Some i \<Rightarrow>
          (case todo_mark_done (word_of_int i) (dw_todos s) of
             (None, svc) \<Rightarrow> fail_with (err_not_found ''todo not found'') c (s\<lparr>dw_todos := svc\<rparr>)
           | (Some t, svc) \<Rightarrow> answer_json (da_enc api) 200 (todo_json t) c (s\<lparr>dw_todos := svc\<rparr>)))"

section \<open>Routes\<close>

definition demo_guards :: "'q demo_api \<Rightarrow> ('q, 'f) demo_world middleware list" where
  "demo_guards api = [server_auth (da_jwt api) (da_secret api), require_perm ''todos:write'']"

definition demo_api_routes ::
  "'q demo_api \<Rightarrow> ('q, 'f) demo_world handler \<Rightarrow> (('q, 'f) demo_world app \<Rightarrow> ('q, 'f) demo_world app \<times> bool) list" where
  "demo_api_routes api json =
     (let secured = app_group ''/api/v1'' (demo_guards api) in
      [app_route ''GET'' ''/healthz'' (demo_health api) [],
       app_route ''POST'' ''/auth/login'' (demo_login api) [],
       group_route secured ''GET'' ''/todos'' (demo_list_todos api) [],
       group_route secured ''POST'' ''/todos'' (demo_create_todo api) [],
       group_route secured ''PATCH'' ''/todos/:id/done'' (demo_mark_done api) [],
       register_docs docs_html_handler json ''/openapi.json'' ''/docs''])"

text \<open>The operations that \<open>Register\<close> documents, on a generator for the version of the library.\<close>

definition domain_type :: "string \<Rightarrow> gtype" where
  "domain_type name = Declared ''github.com/dmesha3/elgon/examples/demo-app/internal/domain'' name"

definition demo_operations :: "(string \<times> string \<times> 'f operation) list" where
  "demo_operations =
     [(''POST'', ''/auth/login'',
       no_operation\<lparr>op_summary := ''Login'', op_description := ''Returns a JWT for demo usage.'',
         op_operation_id := ''login'', op_tags := [''auth''],
         op_request_model := Some (domain_type ''LoginRequest''), op_response_model := Some (domain_type ''LoginResponse''),
         op_request_example := Some (JObj [(''email'', JStr ''admin@example.com'')])\<rparr>),
      (''GET'', ''/api/v1/todos'',
       no_operation\<lparr>op_summary := ''List todos'', op_operation_id := ''listTodos'', op_tags := [''todos''],
         op_requires_auth := True, op_response_model := Some (SliceOf (domain_type ''Todo''))\<rparr>),
      (''POST'', ''/api/v1/todos'',
       no_operation\<lparr>op_summary := ''Create todo'', op_operation_id := ''createTodo'', op_tags := [''todos''],
         op_requires_auth := True, op_request_model := Some (domain_type ''CreateTodoRequest''),
         op_response_model := Some (domain_type ''Todo''), op_response_code := 201,
         op_request_example := Some (JObj [(''title'', JStr ''Ship demo app'')])\<rparr>),
      (''PATCH'', ''/api/v1/todos/:id/done'',
       no_operation\<lparr>op_summary := ''Mark done'', op_operation_id := ''markTodoDone'', op_tags := [''todos''],
         op_requires_auth := True, op_response_model := Some (domain_type ''Todo'')\<rparr>)]"

definition demo_docs :: "'f generator" where
  "demo_docs =
     fold (\<lambda>(method, path, op). add_operation method path op) demo_operations
       (enable_bearer_auth
         ((new_generator ''elgon demo API'' elgon_version)
           \<lparr>ge_description := ''Demo app showing how to build production-style APIs with elgon.''\<rparr>))"

text \<open>The application that \<open>main\<close> runs; \<open>json\<close> is the handler of the document.\<close>

definition demo_main ::
  "'q demo_api \<Rightarrow> (64 word \<Rightarrow> string) \<Rightarrow> ('q, 'f) demo_world handler \<Rightarrow> string \<Rightarrow> ('q, 'f) demo_world app option" where
  "demo_main api seconds json addr =
     register_all (register_metrics_route sv_metrics seconds ''/metrics'' # demo_api_routes api json)
       (app_use standard_middleware (new_app (da_enc api) (addr_config addr)))"

section \<open>Access\<close>

text \<open>
  The contract of every route: the store changes by whole operations only, and neither it nor the
  queue changes for a request without a verified token that has the permission \<open>todos:write\<close>.
\<close>

definition demo_contract :: "'q demo_api \<Rightarrow> request \<Rightarrow> ('q, 'f) demo_world \<Rightarrow> ('q, 'f) demo_world \<Rightarrow> bool" where
  "demo_contract api r s s' \<longleftrightarrow>
     todo_step\<^sup>*\<^sup>* (dw_todos s) (dw_todos s') \<and>
     (dw_todos s' \<noteq> dw_todos s \<or> dw_queue s' \<noteq> dw_queue s \<longrightarrow>
        may (da_jwt api) (da_secret api) ''todos:write'' (ev_now (sv_env s)) r)"

interpretation demo: server_contract "demo_contract api" for api
  by unfold_locales (simp_all add: demo_contract_def)

lemma demo_health_keeps: "handler_keeps (demo_contract api) (demo_health api)"
  by (rule demo.answering) (simp add: demo_health_def)

lemma demo_login_keeps: "handler_keeps (demo_contract api) (demo_login api)"
  by (rule demo.answering) (simp add: demo_login_def Let_def split: sum.split)

lemma demo_list_keeps: "handler_keeps (demo_contract api) (chain (demo_list_todos api) (demo_guards api))"
  unfolding demo_guards_def by (rule demo.guarded_route) (simp add: demo_list_todos_def demo.stays)

lemma demo_enqueue_simps [simp]:
  "dw_todos (demo_enqueue api m s) = dw_todos s"
  by (simp add: demo_enqueue_def split: option.split)

lemma demo_create_keeps: "handler_keeps (demo_contract api) (chain (demo_create_todo api :: ('q, 'f) demo_world handler) (demo_guards api))"
  unfolding demo_guards_def
proof (rule demo.guarded_route)
  fix c :: ctx and s :: "('q, 'f) demo_world"
  assume "may (da_jwt api) (da_secret api) ''todos:write'' (ev_now (sv_env s)) (ctx_request c)"
  then show "demo_contract api (ctx_request c) s (snd (snd (demo_create_todo api c s)))"
    using step_create [of "dw_todos s" "ev_time (sv_env s)"]
    by (auto simp: demo_contract_def demo_create_todo_def Let_def split: sum.split prod.split dest: sym)
      (metis r_into_rtranclp snd_conv)
qed

lemma demo_mark_keeps: "handler_keeps (demo_contract api) (chain (demo_mark_done api :: ('q, 'f) demo_world handler) (demo_guards api))"
  unfolding demo_guards_def
proof (rule demo.guarded_route)
  fix c :: ctx and s :: "('q, 'f) demo_world"
  assume may: "may (da_jwt api) (da_secret api) ''todos:write'' (ev_now (sv_env s)) (ctx_request c)"
  show "demo_contract api (ctx_request c) s (snd (snd (demo_mark_done api c s)))"
  proof (cases "parse_int64 (ctx_param c ''id'')")
    case None
    then show ?thesis by (simp add: demo_mark_done_def demo.stays)
  next
    case (Some i)
    obtain t svc where m: "todo_mark_done (word_of_int i) (dw_todos s) = (t, svc)" by (metis prod.exhaust)
    with step_mark [of "dw_todos s" "word_of_int i"] have "todo_step\<^sup>*\<^sup>* (dw_todos s) svc" by auto
    with may m Some show ?thesis by (cases t) (simp_all add: demo_mark_done_def demo_contract_def)
  qed
qed

text \<open>What every route has: the contract, and below \<open>/api/v1\<close> the refusal of requests without claims.\<close>

definition demo_refuses :: "'q demo_api \<Rightarrow> ('q, 'f) demo_world handler \<Rightarrow> bool" where
  "demo_refuses api h \<longleftrightarrow>
     refuses (\<lambda>r s. bearer_claims (da_jwt api) (da_secret api) (ev_now (sv_env s)) r = None) 401 h"

definition demo_route_ok :: "'q demo_api \<Rightarrow> string \<Rightarrow> string \<Rightarrow> ('q, 'f) demo_world handler \<Rightarrow> bool" where
  "demo_route_ok api m p h \<longleftrightarrow> handler_keeps (demo_contract api) h \<and> (prefix ''/api/v1'' p \<longrightarrow> demo_refuses api h)"

lemma demo_open_route:
  "handler_keeps (demo_contract api) h \<Longrightarrow> \<not> prefix ''/api/v1'' p \<Longrightarrow>
   demo_route_ok api m p (chain h (standard_middleware @ []))"
  by (simp add: demo_route_ok_def demo.standard_server)

lemma demo_secured_route:
  assumes "handler_keeps (demo_contract api) (chain h (demo_guards api))"
  shows "demo_route_ok api m p (chain h (standard_middleware @ demo_guards api @ []))"
proof -
  have "demo_refuses api (chain (chain h (demo_guards api)) standard_middleware)"
    unfolding demo_refuses_def by (rule refuses_standard) (unfold demo_guards_def, rule guards_refuse)
  with demo.standard_server [OF assms] show ?thesis
    by (simp add: demo_route_ok_def chain_append)
qed

lemma demo_main_wired:
  fixes json :: "('q, 'f) demo_world handler"
  assumes "handler_keeps (demo_contract api) json"
  shows "\<exists>a. demo_main api seconds json addr = Some a \<and> wired (demo_route_ok api) standard_middleware a"
  unfolding demo_main_def
proof (rule register_all_wired)
  show "wired (demo_route_ok api) standard_middleware (app_use standard_middleware (new_app (da_enc api) (addr_config addr)))"
    by (rule new_app_wired) (simp_all add: addr_config_def demo_route_ok_def demo.health_route)
  fix r and a :: "('q, 'f) demo_world app"
  assume r: "r \<in> set (register_metrics_route sv_metrics seconds ''/metrics'' # demo_api_routes api json)"
    and a: "wired (demo_route_ok api) standard_middleware a"
  let ?g = "app_group ''/api/v1'' (demo_guards api) :: ('q, 'f) demo_world group"
  have g: "grp_mw ?g = demo_guards api" "grp_prefix ?g = ''/api/v1''"
    by (simp_all add: app_group_def) code_simp
  have paths: "normalize_path ''/metrics'' = ''/metrics''" "normalize_path ''/healthz'' = ''/healthz''"
      "normalize_path ''/auth/login'' = ''/auth/login''" "normalize_path ''/openapi.json'' = ''/openapi.json''"
      "normalize_path ''/docs'' = ''/docs''"
    by code_simp+
  have segments: "wildcard_last (parse_segments ''/metrics'')" "wildcard_last (parse_segments ''/healthz'')"
      "wildcard_last (parse_segments ''/auth/login'')" "wildcard_last (parse_segments ''/openapi.json'')"
      "wildcard_last (parse_segments ''/docs'')"
      "wildcard_last (parse_segments (normalize_path (normalize_path (''/api/v1'' @ normalize_path ''/todos''))))"
      "wildcard_last (parse_segments (normalize_path (normalize_path (''/api/v1'' @ normalize_path ''/todos/:id/done''))))"
    by code_simp+
  note secured = wired_group_route [OF a, of ?g, unfolded g, OF _ demo_secured_route]
  consider "r = register_metrics_route sv_metrics seconds ''/metrics''"
    | "r = app_route ''GET'' ''/healthz'' (demo_health api) []"
    | "r = app_route ''POST'' ''/auth/login'' (demo_login api) []"
    | "r = group_route ?g ''GET'' ''/todos'' (demo_list_todos api) []"
    | "r = group_route ?g ''POST'' ''/todos'' (demo_create_todo api) []"
    | "r = group_route ?g ''PATCH'' ''/todos/:id/done'' (demo_mark_done api) []"
    | "r = register_docs docs_html_handler json ''/openapi.json'' ''/docs''"
    using r unfolding demo_api_routes_def Let_def by auto
  then show "\<exists>a'. r a = (a', False) \<and> wired (demo_route_ok api) standard_middleware a'"
  proof cases
    case 1
    then show ?thesis
      using register_metrics_wired [OF a, unfolded paths, OF segments(1) demo_open_route [OF demo.metrics_route]] by simp
  next
    case 2
    then show ?thesis
      using wired_route [OF a, of "''/healthz''", unfolded paths, OF segments(2) demo_open_route [OF demo_health_keeps]] by simp
  next
    case 3
    then show ?thesis
      using wired_route [OF a, of "''/auth/login''", unfolded paths, OF segments(3) demo_open_route [OF demo_login_keeps]] by simp
  next
    case 4
    then show ?thesis using secured [OF segments(6) demo_list_keeps] by simp
  next
    case 5
    then show ?thesis using secured [OF segments(6) demo_create_keeps] by simp
  next
    case 6
    then show ?thesis using secured [OF segments(7) demo_mark_keeps] by simp
  next
    case 7
    have "demo_route_ok api ''GET'' ''/openapi.json'' (chain json standard_middleware)"
      using demo_open_route [OF assms, of "''/openapi.json''" "''GET''"] by simp
    moreover have "demo_route_ok api ''GET'' ''/docs'' (chain (docs_html_handler ''/openapi.json'') standard_middleware)"
      using demo_open_route [OF demo.docs_page, of "''/docs''" api "''GET''" "''/openapi.json''"] by simp
    ultimately show ?thesis
      using register_docs_wired [OF a, of "''/openapi.json''" "''/docs''"] segments(4,5) 7 by (simp add: paths)
  qed
qed

text \<open>A session changes the store by whole operations only.\<close>

lemma demo_session_steps:
  assumes "serves (\<lambda>m p. handler_keeps (demo_contract api)) a" "session enc a s s'"
  shows "todo_step\<^sup>*\<^sup>* (dw_todos s) (dw_todos s')"
  using assms(2)
proof (induction rule: session.induct)
  case session_start
  then show ?case by simp
next
  case (session_request s' c0 w r ev)
  have "demo_contract api r (s'\<lparr>sv_env := ev\<rparr>) (snd (snd (serve_http enc a c0 w r (s'\<lparr>sv_env := ev\<rparr>))))"
    by (rule serve_http_keeps [OF assms(1)]) (rule demo.stays)
  then have "todo_step\<^sup>*\<^sup>* (dw_todos s') (dw_todos (snd (snd (serve_http enc a c0 w r (s'\<lparr>sv_env := ev\<rparr>)))))"
    by (simp add: demo_contract_def)
  with session_request.IH show ?case by (rule rtranclp_trans)
qed

lemma demo_route_ok_serves: "serves (demo_route_ok api) a \<Longrightarrow> serves (\<lambda>m p. handler_keeps (demo_contract api)) a"
  by (auto simp: serves_def demo_route_ok_def)

text \<open>
  C9. The demo application starts, and no request changes its todos or its queue unless its bearer
  token verifies and lists \<open>todos:write\<close>; a request without a verified token that reaches a route
  below \<open>/api/v1\<close> is answered 401. Whatever requests come, the store only ever moves by whole
  operations, so the ids and the history of the store hold for every session.
\<close>

theorem demo_api_guards_todos:
  "\<exists>a. demo_main api seconds (docs_json_handler env rd st n encd server_docs) addr = Some a \<and>
     (\<forall>c0 w r s s'. s' = snd (snd (serve_http (da_enc api) a c0 w r s)) \<and>
        (dw_todos s' \<noteq> dw_todos s \<or> dw_queue s' \<noteq> dw_queue s) \<longrightarrow>
        may (da_jwt api) (da_secret api) ''todos:write'' (ev_now (sv_env s)) r) \<and>
     (\<forall>c0 w r s e params. router_find (app_router a) (rq_method r) (rq_path r) = (Some e, params) \<and>
        prefix ''/api/v1'' (re_path e) \<and> bearer_claims (da_jwt api) (da_secret api) (ev_now (sv_env s)) r = None \<and>
        ws_sent w = None \<longrightarrow>
        (\<exists>c s' header. serve_http (da_enc api) a c0 w r s = (None, c, s') \<and> ws_sent (ctx_writer c) = Some (401, header))) \<and>
     (\<forall>s s'. session (da_enc api) a s s' \<longrightarrow> todo_step\<^sup>*\<^sup>* (dw_todos s) (dw_todos s'))"
proof -
  obtain a where a: "demo_main api seconds (docs_json_handler env rd st n encd server_docs) addr = Some a"
      "wired (demo_route_ok api) standard_middleware a"
    using demo_main_wired [OF demo.docs_document] by blast
  then have ok: "serves (demo_route_ok api) a" by (simp add: wired_def)
  note serves = demo_route_ok_serves [OF ok]
  have "demo_contract api r s (snd (snd (serve_http (da_enc api) a c0 w r s)))" for c0 w r s
    by (rule serve_http_keeps [OF serves]) (rule demo.stays)
  then have changes: "s' = snd (snd (serve_http (da_enc api) a c0 w r s)) \<and>
      (dw_todos s' \<noteq> dw_todos s \<or> dw_queue s' \<noteq> dw_queue s) \<longrightarrow>
      may (da_jwt api) (da_secret api) ''todos:write'' (ev_now (sv_env s)) r" for c0 w r s s'
    by (auto simp: demo_contract_def)
  have refused: "\<exists>c s' header. serve_http (da_enc api) a c0 w r s = (None, c, s') \<and> ws_sent (ctx_writer c) = Some (401, header)"
    if "router_find (app_router a) (rq_method r) (rq_path r) = (Some e, params)" "prefix ''/api/v1'' (re_path e)"
      "bearer_claims (da_jwt api) (da_secret api) (ev_now (sv_env s)) r = None" "ws_sent w = None"
    for c0 w r s e params
  proof (rule refused_response [OF that(1)])
    show "refuses (\<lambda>r s. bearer_claims (da_jwt api) (da_secret api) (ev_now (sv_env s)) r = None) 401 (re_handler e)"
      using serves_found [OF ok that(1)] that(2) by (simp add: demo_route_ok_def demo_refuses_def)
  qed (use that in simp_all)
  show ?thesis
    by (intro exI [of _ a] conjI allI impI)
      (simp_all only: a(1), use changes in blast, use refused in blast, rule demo_session_steps [OF serves])
qed

text \<open>Concrete parameters: the body of a request is the value of its field.\<close>

definition plain_bodies :: body_codec where
  "plain_bodies = \<lparr>bc_fields = (\<lambda>names (body, limit). (Inr (\<lambda>name. body), ([], limit))),
     bc_empty = (\<lambda>(body, limit). (if body = [] then Inl DecodeEOF else Inr (), ([], limit)))\<rparr>"

definition plain_api :: "message list demo_api" where
  "plain_api = \<lparr>da_bodies = plain_bodies, da_enc = plain_enc, da_jwt = demo_codec, da_seconds = (\<lambda>ns. ns div 1000000000),
     da_secret = ''k'', da_queue = Some (\<lambda>m q. (None, q @ [m]))\<rparr>"

definition plain_env :: server_env where
  "plain_env = \<lparr>ev_now = 100, ev_time = 7, ev_rand = None, ev_latency = 1, ev_duration = 1\<rparr>"

definition fresh_demo_world :: "(message list, unit) demo_world" where
  "fresh_demo_world = \<lparr>sv_env = plain_env, sv_metrics = new_metrics, sv_log = [], sv_docs = demo_docs, sv_routes = [],
     dw_todos = new_todo_service, dw_queue = []\<rparr>"

definition post_todo :: "string \<Rightarrow> request" where
  "post_todo title =
     \<lparr>rq_method = ''POST'', rq_path = ''/api/v1/todos'', rq_header = Map.empty, rq_body = title, rq_limit = None\<rparr>"

theorem demo_api_guards_todos_example:
  "\<exists>a :: (message list, unit) demo_world app. demo_main plain_api (\<lambda>d. []) (docs_json_handler (\<lambda>p m. None) \<lparr>rd_float = \<lambda>s. None, rd_json = \<lambda>s. None\<rparr>
        (\<lambda>code. []) 9 (\<lambda>d. Inr ''{}'') server_docs) '':8080'' = Some a \<and>
     dw_todos (snd (snd (serve_http plain_enc a pooled_ctx fresh_writer (post_todo ''Ship'') fresh_demo_world))) = new_todo_service"
proof -
  have no: "\<not> may (da_jwt plain_api) (da_secret plain_api) ''todos:write'' (ev_now (sv_env fresh_demo_world)) (post_todo ''Ship'')"
    by (simp add: may_def bearer_claims_def post_todo_def bearer_def)
  have enc: "da_enc plain_api = plain_enc" by (simp add: plain_api_def)
  from demo_api_guards_todos [of plain_api "\<lambda>d. []" "\<lambda>p m. None" "\<lparr>rd_float = \<lambda>s. None, rd_json = \<lambda>s. None\<rparr>"
      "\<lambda>code. []" 9 "\<lambda>d. Inr ''{}''" "'':8080''"]
  obtain a :: "(message list, unit) demo_world app" where a: "demo_main plain_api (\<lambda>d. []) (docs_json_handler (\<lambda>p m. None) \<lparr>rd_float = \<lambda>s. None, rd_json = \<lambda>s. None\<rparr>
        (\<lambda>code. []) 9 (\<lambda>d. Inr ''{}'') server_docs) '':8080'' = Some a"
      "\<forall>c0 w r s s'. s' = snd (snd (serve_http plain_enc a c0 w r s)) \<and>
        (dw_todos s' \<noteq> dw_todos s \<or> dw_queue s' \<noteq> dw_queue s) \<longrightarrow>
        may (da_jwt plain_api) (da_secret plain_api) ''todos:write'' (ev_now (sv_env s)) r"
    unfolding enc by blast
  have "dw_todos (snd (snd (serve_http plain_enc a pooled_ctx fresh_writer (post_todo ''Ship'') fresh_demo_world)))
      = dw_todos fresh_demo_world"
    using a(2) no by blast
  with a(1) show ?thesis by (simp add: fresh_demo_world_def)
qed

section \<open>Tokens of the login\<close>

lemma clear_of_chars:
  assumes "list_all (\<lambda>e. e = [] \<or> hd e \<notin> T) es" "set s \<subseteq> T"
  shows "clear_of es s"
  unfolding clear_of_def
proof
  fix e assume "e \<in> set es"
  with assms have "e = [] \<or> hd e \<notin> set s" by (auto simp: list_all_iff)
  then show "e = [] \<or> \<not> prefix e s" by (cases e) (auto simp: prefix_def)
qed

lemma trim_token:
  assumes "set s \<subseteq> set (CHR ''.'' # url_alphabet)"
  shows "trim_space s = s"
proof (rule trim_space_id)
  have "list_all (\<lambda>e. e = [] \<or> hd e \<notin> set (CHR ''.'' # url_alphabet)) space_codes" by code_simp
  then show "clear_of space_codes s" by (rule clear_of_chars [OF _ assms])
  have "list_all (\<lambda>e. e = [] \<or> hd e \<notin> set (CHR ''.'' # url_alphabet)) (map rev space_codes)" by code_simp
  then show "clear_of (map rev space_codes) (rev s)" by (rule clear_of_chars) (simp only: set_rev assms)
qed

lemma b64url_chars: "set (b64url s) \<subseteq> set (CHR ''.'' # url_alphabet)"
  using b64_encode_chars [OF std_url_good(2)] by (auto simp: b64url_def)

lemma signed_token_chars:
  "jwt_sign jc seconds secret now c ttl = Inr token \<Longrightarrow> set token \<subseteq> set (CHR ''.'' # url_alphabet)"
  using b64url_chars by (fastforce simp: jwt_sign_def sign_hs256_def Let_def split: if_splits sum.splits)


definition user_claims :: claims where
  "user_claims = stamped (\<lambda>ns. ns div 1000000000) 100 (demo_claims_of ''u@x.io'') day"

definition login_codec :: jwt_codec where
  "login_codec = \<lparr>jc_hmac = (\<lambda>k s. k @ s),
     jc_marshal_claims = (\<lambda>c. if c = user_claims then Inr ''u'' else Inl ''unknown''),
     jc_unmarshal_claims = (\<lambda>s. if s = ''u'' then Some user_claims else None),
     jc_unmarshal_header = (\<lambda>s. if s = header_json then Some [''alg'' \<mapsto> VStr ''HS256''] else None)\<rparr>"


end
