(* ===== verification/Demo_Concurrent.thy ===== *)
theory Demo_Concurrent imports Demo_Api "HOL-Library.Multiset" begin

text \<open>
  The requests of the demo application that run at the same time, with the worker and the signal
  of its \<open>main\<close> (examples/demo-app). What the goroutines share is the store of todos, whose methods
  hold its lock, and the in-memory queue, whose steps are those of theory \<open>Jobs_Queue\<close>. A request
  of \<open>CreateTodo\<close> is a goroutine with its place in the handler; a panic of the queue ends it and is
  answered by \<open>Recover\<close>.
\<close>

section \<open>Requests in progress\<close>

datatype post =
    Posted string
  | Created todo
  | Sending todo
  | Answered todo bool
  | Crashed todo

record demo_system =
  dr_todos :: todo_service
  dr_queue :: mem_queue
  dr_posts :: "post multiset"

definition demo_system_start :: demo_system where
  "demo_system_start = \<lparr>dr_todos = new_todo_service, dr_queue = new_in_memory_queue 64, dr_posts = {#}\<rparr>"

definition created_message :: "todo \<Rightarrow> message" where
  "created_message t = \<lparr>msg_name = ''todo.created'', msg_payload = td_title t\<rparr>"

text \<open>What a call of \<open>Enqueue\<close> that has returned or goes on means for its request; its error is dropped.\<close>

definition after_check :: "todo \<Rightarrow> enqueue_result option \<Rightarrow> post" where
  "after_check t r = (case r of None \<Rightarrow> Sending t | Some e \<Rightarrow> Answered t False)"

definition after_send :: "todo \<Rightarrow> enqueue_result \<Rightarrow> post" where
  "after_send t r = (case r of EnqueueOk \<Rightarrow> Answered t True | EnqueuePanic \<Rightarrow> Crashed t | _ \<Rightarrow> Answered t False)"

inductive system_step :: "demo_system \<Rightarrow> demo_system \<Rightarrow> bool" where
  arrives: "title \<noteq> [] \<Longrightarrow> system_step s (s\<lparr>dr_posts := add_mset (Posted title) (dr_posts s)\<rparr>)"
| creates: "dr_posts s = add_mset (Posted title) rest \<Longrightarrow> todo_create now title (dr_todos s) = (t, svc) \<Longrightarrow>
    system_step s (s\<lparr>dr_todos := svc, dr_posts := add_mset (Created t) rest\<rparr>)"
| checks: "dr_posts s = add_mset (Created t) rest \<Longrightarrow> enqueue_check (created_message t) (dr_queue s) = (r, q) \<Longrightarrow>
    system_step s (s\<lparr>dr_queue := q, dr_posts := add_mset (after_check t r) rest\<rparr>)"
| sends: "dr_posts s = add_mset (Sending t) rest \<Longrightarrow> enqueue_send (created_message t) (dr_queue s) = Some (r, q) \<Longrightarrow>
    system_step s (s\<lparr>dr_queue := q, dr_posts := add_mset (after_send t r) rest\<rparr>)"
| cancels: "dr_posts s = add_mset (Sending t) rest \<Longrightarrow> enqueue_cancel (created_message t) (dr_queue s) = (r, q) \<Longrightarrow>
    system_step s (s\<lparr>dr_queue := q, dr_posts := add_mset (after_send t r) rest\<rparr>)"
| marks: "system_step s (s\<lparr>dr_todos := snd (todo_mark_done i (dr_todos s))\<rparr>)"
| works: "worker_receive (dr_queue s) = Some (turn, q) \<Longrightarrow> system_step s (s\<lparr>dr_queue := q\<rparr>)"
| closes: "system_step s (s\<lparr>dr_queue := queue_close (dr_queue s)\<rparr>)"

inductive_cases system_stepE: "system_step s s'"

section \<open>What the requests hold\<close>

fun holds_todo :: "post \<Rightarrow> todo option" where
  "holds_todo (Posted title) = None"
| "holds_todo (Created t) = Some t"
| "holds_todo (Sending t) = Some t"
| "holds_todo (Answered t sent) = Some t"
| "holds_todo (Crashed t) = Some t"

fun is_sending :: "post \<Rightarrow> todo option" where
  "is_sending (Sending t) = Some t"
| "is_sending _ = None"

fun is_announced :: "post \<Rightarrow> todo option" where
  "is_announced (Answered t True) = Some t"
| "is_announced _ = None"

definition gather :: "(post \<Rightarrow> todo option) \<Rightarrow> post multiset \<Rightarrow> todo multiset" where
  "gather f posts = image_mset (the \<circ> f) (filter_mset (\<lambda>p. f p \<noteq> None) posts)"

lemma gather_simps [simp]:
  "gather f {#} = {#}"
  "gather f (add_mset p posts) = (case f p of None \<Rightarrow> gather f posts | Some t \<Rightarrow> add_mset t (gather f posts))"
  by (auto simp: gather_def split: option.split)

text \<open>A todo as it was created: \<open>MarkDone\<close> changes nothing else.\<close>

definition as_created :: "todo \<Rightarrow> todo" where
  "as_created t = t\<lparr>td_done := False\<rparr>"

lemma mark_first_as_created: "mark_first i ts = Some (t, ts') \<Longrightarrow> map as_created ts' = map as_created ts"
  by (induction ts arbitrary: ts') (auto simp: as_created_def split: if_splits)

lemma mark_done_as_created:
  "map as_created (ts_items (snd (todo_mark_done i svc))) = map as_created (ts_items svc)"
  by (auto simp: todo_mark_done_def dest: mark_first_as_created split: option.splits)

section \<open>Invariant\<close>

definition demo_system_inv :: "demo_system \<Rightarrow> bool" where
  "demo_system_inv s \<longleftrightarrow>
     todo_step\<^sup>*\<^sup>* new_todo_service (dr_todos s) \<and> queue_step\<^sup>*\<^sup>* (new_in_memory_queue 64) (dr_queue s) \<and>
     image_mset as_created (mset (ts_items (dr_todos s))) = gather holds_todo (dr_posts s) \<and>
     mset (mq_sending (dr_queue s)) = image_mset created_message (gather is_sending (dr_posts s)) \<and>
     mset (mq_sent (dr_queue s)) = image_mset created_message (gather is_announced (dr_posts s)) \<and>
     (\<forall>t. Crashed t \<in># dr_posts s \<longrightarrow> mq_panicked (dr_queue s))"

lemma demo_system_inv_start: "demo_system_inv demo_system_start"
  by (simp add: demo_system_inv_def demo_system_start_def new_todo_service_def new_in_memory_queue_def)

lemma queue_step_calls:
  assumes "queue_step\<^sup>*\<^sup>* (new_in_memory_queue b) q"
  shows "enqueue_check m q = (r, q') \<Longrightarrow> queue_step\<^sup>*\<^sup>* (new_in_memory_queue b) q'"
    "m \<in># mset (mq_sending q) \<Longrightarrow> enqueue_send m q = Some (r', q') \<Longrightarrow> queue_step\<^sup>*\<^sup>* (new_in_memory_queue b) q'"
    "m \<in># mset (mq_sending q) \<Longrightarrow> enqueue_cancel m q = (r', q') \<Longrightarrow> queue_step\<^sup>*\<^sup>* (new_in_memory_queue b) q'"
    "worker_receive q = Some (turn, q') \<Longrightarrow> queue_step\<^sup>*\<^sup>* (new_in_memory_queue b) q'"
    "queue_step\<^sup>*\<^sup>* (new_in_memory_queue b) (queue_close q)"
  using assms by (auto intro: rtranclp.rtrancl_into_rtrancl step_check step_send step_cancel step_receive step_close)

text \<open>What each call of the queue changes of the messages that are on their way and of those sent.\<close>

lemma enqueue_check_keeps:
  "enqueue_check m q = (r, q') \<Longrightarrow> mq_sent q' = mq_sent q \<and> mq_panicked q' = mq_panicked q \<and>
     mset (mq_sending q') = (if r = None then add_mset m (mset (mq_sending q)) else mset (mq_sending q))"
  by (auto simp: enqueue_check_def split: if_splits)

lemma enqueue_send_keeps:
  "enqueue_send m q = Some (r, q') \<Longrightarrow> mset (mq_sending q') = mset (mq_sending q) - {#m#} \<and>
     mset (mq_sent q') = (if r = EnqueueOk then add_mset m (mset (mq_sent q)) else mset (mq_sent q)) \<and>
     (r = EnqueueOk \<and> mq_panicked q' = mq_panicked q \<or> r = EnqueuePanic \<and> mq_panicked q')"
  by (auto simp: enqueue_send_def Let_def split: if_splits)

lemma enqueue_cancel_keeps:
  "enqueue_cancel m q = (r, q') \<Longrightarrow> r = ContextDone \<and> mset (mq_sending q') = mset (mq_sending q) - {#m#} \<and>
     mq_sent q' = mq_sent q \<and> mq_panicked q' = mq_panicked q"
  by (auto simp: enqueue_cancel_def)

lemma worker_receive_keeps:
  "worker_receive q = Some (turn, q') \<Longrightarrow> mq_sending q' = mq_sending q \<and> mq_sent q' = mq_sent q \<and> mq_panicked q' = mq_panicked q"
  by (auto simp: worker_receive_def split: list.splits if_splits)

lemma queue_close_keeps:
  "mq_sending (queue_close q) = mq_sending q" "mq_sent (queue_close q) = mq_sent q" "mq_panicked (queue_close q) = mq_panicked q"
  by (simp_all add: queue_close_def)

lemma system_step_inv: "system_step s s' \<Longrightarrow> demo_system_inv s \<Longrightarrow> demo_system_inv s'"
proof (induction rule: system_step.induct)
  case (arrives title s)
  then show ?case by (simp add: demo_system_inv_def)
next
  case (creates s title rest now t svc)
  then have "svc = snd (todo_create now title (dr_todos s))" by simp
  with creates have "todo_step\<^sup>*\<^sup>* new_todo_service svc"
    by (auto simp: demo_system_inv_def intro: rtranclp.rtrancl_into_rtrancl step_create)
  moreover have "ts_items svc = ts_items (dr_todos s) @ [t]" "as_created t = t"
    using creates(2) by (auto simp: todo_create_def Let_def as_created_def)
  ultimately show ?case using creates by (simp add: demo_system_inv_def)
next
  case (checks s t rest r q)
  then have "queue_step\<^sup>*\<^sup>* (new_in_memory_queue 64) q"
    by (auto simp: demo_system_inv_def intro: queue_step_calls(1))
  with checks enqueue_check_keeps [OF checks(2)] show ?case
    by (cases r) (auto simp: demo_system_inv_def after_check_def)
next
  case (sends s t rest r q)
  then have m: "created_message t \<in># mset (mq_sending (dr_queue s))" by (simp add: demo_system_inv_def)
  with sends have "queue_step\<^sup>*\<^sup>* (new_in_memory_queue 64) q"
    using queue_step_calls(2) [OF _ m sends(2)] by (simp add: demo_system_inv_def)
  with sends enqueue_send_keeps [OF sends(2)] show ?case
    by (cases r) (auto simp: demo_system_inv_def after_send_def)
next
  case (cancels s t rest r q)
  then have m: "created_message t \<in># mset (mq_sending (dr_queue s))" by (simp add: demo_system_inv_def)
  with cancels have "queue_step\<^sup>*\<^sup>* (new_in_memory_queue 64) q"
    using queue_step_calls(3) [OF _ m cancels(2)] by (simp add: demo_system_inv_def)
  with cancels enqueue_cancel_keeps [OF cancels(2)] show ?case
    by (auto simp: demo_system_inv_def after_send_def)
next
  case (marks s i)
  then have "todo_step\<^sup>*\<^sup>* new_todo_service (snd (todo_mark_done i (dr_todos s)))"
    by (auto simp: demo_system_inv_def intro: rtranclp.rtrancl_into_rtrancl step_mark)
  moreover have "image_mset as_created (mset (ts_items (snd (todo_mark_done i (dr_todos s))))) =
      image_mset as_created (mset (ts_items (dr_todos s)))"
    using mark_done_as_created [of i "dr_todos s"] by (metis mset_map)
  ultimately show ?case using marks by (simp add: demo_system_inv_def)
next
  case (works s turn q)
  then have "queue_step\<^sup>*\<^sup>* (new_in_memory_queue 64) q"
    by (auto simp: demo_system_inv_def intro: queue_step_calls(4))
  with works worker_receive_keeps [OF works(1)] show ?case by (simp add: demo_system_inv_def)
next
  case (closes s)
  then show ?case using queue_step_calls(5) by (simp add: demo_system_inv_def queue_close_keeps)
qed

lemma system_steps_inv: "system_step\<^sup>*\<^sup>* demo_system_start s \<Longrightarrow> demo_system_inv s"
  by (induction rule: rtranclp_induct) (auto intro: system_step_inv demo_system_inv_start)

lemma all_announced:
  "\<forall>p \<in># posts. \<exists>t. p = Answered t True \<Longrightarrow> gather holds_todo posts = gather is_announced posts"
  by (induction posts) auto

lemma held_mem: "p \<in># posts \<Longrightarrow> holds_todo p = Some t \<Longrightarrow> t \<in># gather holds_todo posts"
  by (induction posts) (auto split: option.split)

lemma created_message_as_created [simp]: "created_message (as_created t) = created_message t"
  by (simp add: created_message_def as_created_def)

text \<open>
  C28. Whatever the requests, the worker and the signal do at the same time: the store holds
  the todo of every request that has created one, once each and no others, even of a request that
  panicked; the worker gets one message for each todo whose request was answered after a send and
  no other message; a request panics only when the queue was closed; and when all requests have
  been answered this way and the buffer is empty, the worker has had one message for every todo.
\<close>

theorem todos_are_announced_once:
  assumes "system_step\<^sup>*\<^sup>* demo_system_start s"
  shows "image_mset as_created (mset (todo_list (dr_todos s))) = gather holds_todo (dr_posts s) \<and>
    mset (mq_received (dr_queue s) @ mq_buffer (dr_queue s)) = image_mset created_message (gather is_announced (dr_posts s)) \<and>
    (\<forall>t. Crashed t \<in># dr_posts s \<longrightarrow> mq_closed (dr_queue s) \<and> t \<in> as_created ` set (todo_list (dr_todos s))) \<and>
    ((\<forall>p \<in># dr_posts s. \<exists>t. p = Answered t True) \<and> mq_buffer (dr_queue s) = [] \<longrightarrow>
       mset (mq_received (dr_queue s)) = image_mset created_message (mset (todo_list (dr_todos s))))"
proof -
  note inv = system_steps_inv [OF assms, unfolded demo_system_inv_def]
  have queue: "queue_inv (dr_queue s)" using inv queue_steps_inv [OF _ queue_inv_new] by blast
  have todos: "image_mset as_created (mset (todo_list (dr_todos s))) = gather holds_todo (dr_posts s)"
    using inv by (simp add: todo_list_def)
  have sent: "mset (mq_received (dr_queue s) @ mq_buffer (dr_queue s)) = image_mset created_message (gather is_announced (dr_posts s))"
    using inv queue by (simp add: queue_inv_def)
  have "mq_closed (dr_queue s) \<and> t \<in> as_created ` set (todo_list (dr_todos s))" if "Crashed t \<in># dr_posts s" for t
  proof
    show "mq_closed (dr_queue s)" using that inv queue by (auto simp: queue_inv_def)
    have "t \<in># gather holds_todo (dr_posts s)" using that by (rule held_mem) simp
    then show "t \<in> as_created ` set (todo_list (dr_todos s))" by (simp add: todos [symmetric])
  qed
  moreover have "mset (mq_received (dr_queue s)) = image_mset created_message (mset (todo_list (dr_todos s)))"
    if "\<forall>p \<in># dr_posts s. \<exists>t. p = Answered t True" "mq_buffer (dr_queue s) = []"
  proof -
    have "mset (mq_received (dr_queue s)) = image_mset created_message (gather holds_todo (dr_posts s))"
      using sent that all_announced [OF that(1)] by simp
    also have "\<dots> = image_mset created_message (mset (todo_list (dr_todos s)))"
      by (simp add: todos [symmetric] image_mset.compositionality comp_def)
    finally show ?thesis .
  qed
  ultimately show ?thesis using todos sent by blast
qed

section \<open>Two requests\<close>

text \<open>
  The requests of \<open>a\<close> and \<open>b\<close> create their todos in this order and pass the queue in the other: the
  worker gets the message of the second todo first.
\<close>

definition todo_a :: todo where
  "todo_a = \<lparr>td_id = 1, td_title = ''a'', td_done = False, td_created_at = 7\<rparr>"

definition todo_b :: todo where
  "todo_b = \<lparr>td_id = 2, td_title = ''b'', td_done = False, td_created_at = 8\<rparr>"

definition queue_with :: "message list \<Rightarrow> message list \<Rightarrow> message list \<Rightarrow> mem_queue" where
  "queue_with sending sent received =
     \<lparr>mq_capacity = 64, mq_buffer = drop (length received) sent, mq_chan_closed = False, mq_closed = False,
      mq_sending = sending, mq_sent = sent, mq_received = received, mq_panicked = False\<rparr>"

definition two_stored :: todo_service where
  "two_stored = \<lparr>ts_next_id = 3, ts_items = [todo_a, todo_b]\<rparr>"

definition overtaken :: demo_system where
  "overtaken =
     \<lparr>dr_todos = two_stored,
      dr_queue = queue_with [] [created_message todo_b, created_message todo_a] [created_message todo_b, created_message todo_a],
      dr_posts = {#Answered todo_a True, Answered todo_b True#}\<rparr>"

lemma two_posts_stored:
  "system_step\<^sup>*\<^sup>* demo_system_start
     \<lparr>dr_todos = two_stored, dr_queue = queue_with [] [] [], dr_posts = {#Created todo_b, Created todo_a#}\<rparr>"
proof -
  let ?one = "\<lparr>ts_next_id = 2, ts_items = [todo_a]\<rparr>" and ?q = "queue_with [] [] []"
  have start: "demo_system_start = \<lparr>dr_todos = new_todo_service, dr_queue = ?q, dr_posts = {#}\<rparr>"
    by (simp add: demo_system_start_def queue_with_def new_in_memory_queue_def)
  have "system_step\<^sup>*\<^sup>* demo_system_start \<lparr>dr_todos = new_todo_service, dr_queue = ?q, dr_posts = {#Posted ''a''#}\<rparr>"
    using r_into_rtranclp [of system_step, OF arrives [of "''a''" demo_system_start]] by (simp add: start)
  also have "system_step\<^sup>*\<^sup>* \<dots> \<lparr>dr_todos = ?one, dr_queue = ?q, dr_posts = {#Created todo_a#}\<rparr>"
    using r_into_rtranclp [of system_step, OF creates [of "\<lparr>dr_todos = new_todo_service, dr_queue = ?q, dr_posts = {#Posted ''a''#}\<rparr>" "''a''" "{#}" 7 todo_a ?one]]
    by (simp add: todo_create_def new_todo_service_def todo_a_def Let_def)
  also have "system_step\<^sup>*\<^sup>* \<dots> \<lparr>dr_todos = ?one, dr_queue = ?q, dr_posts = {#Posted ''b'', Created todo_a#}\<rparr>"
    using r_into_rtranclp [of system_step, OF arrives [of "''b''" "\<lparr>dr_todos = ?one, dr_queue = ?q, dr_posts = {#Created todo_a#}\<rparr>"]] by simp
  also have "system_step\<^sup>*\<^sup>* \<dots> \<lparr>dr_todos = two_stored, dr_queue = ?q, dr_posts = {#Created todo_b, Created todo_a#}\<rparr>"
    using r_into_rtranclp [of system_step, OF creates [of "\<lparr>dr_todos = ?one, dr_queue = ?q, dr_posts = {#Posted ''b'', Created todo_a#}\<rparr>" "''b''" "{#Created todo_a#}" 8
        todo_b two_stored]]
    by (simp add: todo_create_def two_stored_def todo_a_def todo_b_def Let_def)
  finally show ?thesis by (simp add: start)
qed

lemma queue_with_calls:
  "enqueue_check m (queue_with sending sent received) = (None, queue_with (sending @ [m]) sent received)"
  "length (drop (length received) sent) < 64 \<Longrightarrow> length received \<le> length sent \<Longrightarrow>
   enqueue_send m (queue_with sending sent received) = Some (EnqueueOk, queue_with (remove1 m sending) (sent @ [m]) received)"
  "sent = received @ m # rest \<Longrightarrow>
   worker_receive (queue_with sending sent received) = Some (Handle m, queue_with sending sent (received @ [m]))"
  by (simp_all add: queue_with_def enqueue_check_def enqueue_send_def worker_receive_def Let_def)

lemma messages_overtake:
  "system_step\<^sup>*\<^sup>* demo_system_start overtaken"
proof -
  let ?a = "created_message todo_a" and ?b = "created_message todo_b"
  let ?s = "\<lambda>q posts. \<lparr>dr_todos = two_stored, dr_queue = q, dr_posts = posts\<rparr>"
  note two_posts_stored
  also have "system_step\<^sup>*\<^sup>* (?s (queue_with [] [] []) {#Created todo_b, Created todo_a#})
      (?s (queue_with [?b] [] []) {#Sending todo_b, Created todo_a#})"
    using r_into_rtranclp [of system_step, OF checks [of "?s (queue_with [] [] []) {#Created todo_b, Created todo_a#}" todo_b]]
    by (simp add: queue_with_calls after_check_def)
  also have "system_step\<^sup>*\<^sup>* \<dots> (?s (queue_with [] [?b] []) {#Answered todo_b True, Created todo_a#})"
    using r_into_rtranclp [of system_step, OF sends [of "?s (queue_with [?b] [] []) {#Sending todo_b, Created todo_a#}" todo_b]]
    by (simp add: queue_with_calls after_send_def)
  also have "system_step\<^sup>*\<^sup>* \<dots> (?s (queue_with [?a] [?b] []) {#Sending todo_a, Answered todo_b True#})"
    using r_into_rtranclp [of system_step, OF checks [of "?s (queue_with [] [?b] []) {#Created todo_a, Answered todo_b True#}" todo_a]]
    by (simp add: queue_with_calls after_check_def add_mset_commute)
  also have "system_step\<^sup>*\<^sup>* \<dots> (?s (queue_with [] [?b, ?a] []) {#Answered todo_a True, Answered todo_b True#})"
    using r_into_rtranclp [of system_step, OF sends [of "?s (queue_with [?a] [?b] []) {#Sending todo_a, Answered todo_b True#}" todo_a]]
    by (simp add: queue_with_calls after_send_def)
  also have "system_step\<^sup>*\<^sup>* \<dots> (?s (queue_with [] [?b, ?a] [?b]) {#Answered todo_a True, Answered todo_b True#})"
    using r_into_rtranclp [of system_step, OF works [of "?s (queue_with [] [?b, ?a] []) {#Answered todo_a True, Answered todo_b True#}"]]
    by (simp add: queue_with_calls(3) [of _ _ _ "[?a]"])
  also have "system_step\<^sup>*\<^sup>* \<dots> overtaken"
    using r_into_rtranclp [of system_step, OF works [of "?s (queue_with [] [?b, ?a] [?b]) {#Answered todo_a True, Answered todo_b True#}"]]
    by (simp add: queue_with_calls(3) [of _ _ _ "[]"] overtaken_def)
  finally show ?thesis .
qed

theorem todos_are_announced_once_example:
  "map td_id (todo_list (dr_todos overtaken)) = [1, 2] \<and>
   mset (mq_received (dr_queue overtaken)) = image_mset created_message (mset (todo_list (dr_todos overtaken))) \<and>
   map msg_payload (mq_received (dr_queue overtaken)) = [''b'', ''a'']"
proof -
  have "\<forall>p \<in># dr_posts overtaken. \<exists>t. p = Answered t True" "mq_buffer (dr_queue overtaken) = []"
    by (auto simp: overtaken_def queue_with_def)
  with todos_are_announced_once [OF messages_overtake]
  have "mset (mq_received (dr_queue overtaken)) = image_mset created_message (mset (todo_list (dr_todos overtaken)))" by blast
  then show ?thesis
    by (simp add: overtaken_def todo_list_def two_stored_def todo_a_def todo_b_def queue_with_def created_message_def)
qed

section \<open>The handler as a run\<close>

text \<open>The queue of \<open>main\<close> as the handler sees it: the result of a call is not looked at.\<close>

definition with_mem_queue :: "'q demo_api \<Rightarrow> mem_queue demo_api" where
  "with_mem_queue api =
     \<lparr>da_bodies = da_bodies api, da_enc = da_enc api, da_jwt = da_jwt api, da_seconds = da_seconds api,
      da_secret = da_secret api, da_queue = Some (\<lambda>m q. (None, snd (mem_enqueue m q)))\<rparr>"

lemma enqueue_run:
  "\<exists>p. system_step\<^sup>*\<^sup>* \<lparr>dr_todos = svc, dr_queue = q, dr_posts = add_mset (Created t) posts\<rparr>
     \<lparr>dr_todos = svc, dr_queue = snd (mem_enqueue (created_message t) q), dr_posts = add_mset p posts\<rparr> \<and> holds_todo p = Some t"
proof -
  let ?m = "created_message t"
  obtain r q1 where c: "enqueue_check ?m q = (r, q1)" by fastforce
  have check: "system_step\<^sup>*\<^sup>* \<lparr>dr_todos = svc, dr_queue = q, dr_posts = add_mset (Created t) posts\<rparr>
      \<lparr>dr_todos = svc, dr_queue = q1, dr_posts = add_mset (after_check t r) posts\<rparr>"
    using r_into_rtranclp [of system_step,
        OF checks [of "\<lparr>dr_todos = svc, dr_queue = q, dr_posts = add_mset (Created t) posts\<rparr>" t posts r q1]] c by simp
  show ?thesis
  proof (cases r)
    case (Some e)
    with c check show ?thesis by (auto simp: mem_enqueue_def after_check_def)
  next
    case None
    let ?s = "\<lparr>dr_todos = svc, dr_queue = q1, dr_posts = add_mset (Sending t) posts\<rparr>"
    have "\<exists>r' q2. snd (mem_enqueue ?m q) = q2 \<and>
        system_step ?s \<lparr>dr_todos = svc, dr_queue = q2, dr_posts = add_mset (after_send t r') posts\<rparr>"
    proof (cases "enqueue_send ?m q1")
      case None
      obtain r' q2 where "enqueue_cancel ?m q1 = (r', q2)" by fastforce
      with c None \<open>r = None\<close> cancels [of ?s t posts r' q2] show ?thesis by (auto simp: mem_enqueue_def)
    next
      case (Some rq)
      obtain r' q2 where "enqueue_send ?m q1 = Some (r', q2)" using Some by (cases rq) auto
      with c \<open>r = None\<close> sends [of ?s t posts r' q2] show ?thesis by (auto simp: mem_enqueue_def)
    qed
    then obtain r' q2 where q2: "snd (mem_enqueue ?m q) = q2"
      "system_step ?s \<lparr>dr_todos = svc, dr_queue = q2, dr_posts = add_mset (after_send t r') posts\<rparr>" by blast
    have "after_check t r = Sending t" using None by (simp add: after_check_def)
    with check have "system_step\<^sup>*\<^sup>* \<lparr>dr_todos = svc, dr_queue = q, dr_posts = add_mset (Created t) posts\<rparr> ?s" by simp
    from rtranclp.rtrancl_into_rtrancl [OF this q2(2)]
    have "system_step\<^sup>*\<^sup>* \<lparr>dr_todos = svc, dr_queue = q, dr_posts = add_mset (Created t) posts\<rparr>
        \<lparr>dr_todos = svc, dr_queue = q2, dr_posts = add_mset (after_send t r') posts\<rparr>" .
    moreover have "holds_todo (after_send t r') = Some t" by (cases r') (simp_all add: after_send_def)
    ultimately show ?thesis unfolding q2(1) by blast
  qed
qed

text \<open>A call of the handler with nothing in between is a run of the system, so what holds in its states holds there.\<close>

lemma handler_is_a_run:
  fixes s :: "(mem_queue, 'f) demo_world"
  assumes "bind_fields (da_bodies api) [''title''] c = Inr req" "trim_space (req ''title'') \<noteq> []"
    and "demo_create_todo (with_mem_queue api) c s = (r, c', s')"
  shows "\<exists>p. system_step\<^sup>*\<^sup>* \<lparr>dr_todos = dw_todos s, dr_queue = dw_queue s, dr_posts = posts\<rparr>
    \<lparr>dr_todos = dw_todos s', dr_queue = dw_queue s', dr_posts = add_mset p posts\<rparr> \<and> holds_todo p \<noteq> None"
proof -
  let ?title = "trim_space (req ''title'')"
  obtain t svc where t: "todo_create (ev_time (sv_env s)) ?title (dw_todos s) = (t, svc)" by fastforce
  then have title: "td_title t = ?title" by (auto simp: todo_create_def Let_def)
  have m: "created_message t = \<lparr>msg_name = ''todo.created'', msg_payload = ?title\<rparr>"
    by (simp add: created_message_def title)
  have world: "dw_todos s' = svc" "dw_queue s' = snd (mem_enqueue (created_message t) (dw_queue s))"
    using assms t answer_json_world [of "da_enc api" 201 "todo_json t" c
        "demo_enqueue (with_mem_queue api) (created_message t) (s\<lparr>dw_todos := svc\<rparr>)"]
    by (auto simp: demo_create_todo_def with_mem_queue_def m demo_enqueue_def)
  have "system_step \<lparr>dr_todos = dw_todos s, dr_queue = dw_queue s, dr_posts = posts\<rparr>
      \<lparr>dr_todos = dw_todos s, dr_queue = dw_queue s, dr_posts = add_mset (Posted ?title) posts\<rparr>"
    using arrives [OF assms(2), of "\<lparr>dr_todos = dw_todos s, dr_queue = dw_queue s, dr_posts = posts\<rparr>"] by simp
  moreover have "system_step \<lparr>dr_todos = dw_todos s, dr_queue = dw_queue s, dr_posts = add_mset (Posted ?title) posts\<rparr>
      \<lparr>dr_todos = svc, dr_queue = dw_queue s, dr_posts = add_mset (Created t) posts\<rparr>"
    using creates [of "\<lparr>dr_todos = dw_todos s, dr_queue = dw_queue s, dr_posts = add_mset (Posted ?title) posts\<rparr>" ?title posts
        "ev_time (sv_env s)" t svc] t by simp
  ultimately have "system_step\<^sup>*\<^sup>* \<lparr>dr_todos = dw_todos s, dr_queue = dw_queue s, dr_posts = posts\<rparr>
      \<lparr>dr_todos = svc, dr_queue = dw_queue s, dr_posts = add_mset (Created t) posts\<rparr>" by auto
  moreover obtain p where "system_step\<^sup>*\<^sup>* \<lparr>dr_todos = svc, dr_queue = dw_queue s, dr_posts = add_mset (Created t) posts\<rparr>
      \<lparr>dr_todos = svc, dr_queue = snd (mem_enqueue (created_message t) (dw_queue s)), dr_posts = add_mset p posts\<rparr>"
      "holds_todo p = Some t"
    using enqueue_run by blast
  ultimately show ?thesis unfolding world by (intro exI [of _ p]) (auto elim: rtranclp_trans)
qed

end
