(* ===== verification/Sql_Scan.thy ===== *)
theory Sql_Scan imports Db Go_Strconv begin

text \<open>
  What \<open>Scan\<close> of \<open>database/sql\<close> makes of the values of a row, for the destinations the example
  repositories use, and the times of package \<open>time\<close>. A driver's value is nil, a bool, an int64,
  text, bytes, or an opaque value: a time or a floating point number.
\<close>

text \<open>
  \<open>ti_is_time\<close> tells the opaque values that are times; \<open>ti_text\<close> is the text of one in RFC 3339
  with nanoseconds (of a floating point number its shortest text).
\<close>

record time_lib =
  ti_is_time :: "nat \<Rightarrow> bool"
  ti_utc :: "nat \<Rightarrow> nat"
  ti_text :: "nat \<Rightarrow> string"
  ti_parse :: "string \<Rightarrow> string + nat"

text \<open>Package \<open>time\<close>: times stay times in UTC, UTC is idempotent, and a text that \<open>Format\<close> made parses to the same moment.\<close>

definition time_laws :: "time_lib \<Rightarrow> bool" where
  "time_laws ti \<longleftrightarrow>
     (\<forall>t. ti_is_time ti t \<longrightarrow> ti_is_time ti (ti_utc ti t) \<and> ti_utc ti (ti_utc ti t) = ti_utc ti t \<and>
        (\<exists>t'. ti_parse ti (ti_text ti t) = Inr t' \<and> ti_is_time ti t' \<and> ti_utc ti t' = ti_utc ti t))"

text \<open>\<open>asString\<close>, and the conversions of \<open>convertAssign\<close>; a NULL converts to none of the types.\<close>

fun as_text :: "time_lib \<Rightarrow> val \<Rightarrow> string option" where
  "as_text ti (VStr s) = Some s"
| "as_text ti (VBytes b) = Some b"
| "as_text ti (VInt i) = Some (show_int i)"
| "as_text ti (VBool b) = Some (if b then ''true'' else ''false'')"
| "as_text ti (VOpaque n) = Some (ti_text ti n)"
| "as_text ti _ = None"

definition scan_error :: "nat \<Rightarrow> string" where
  "scan_error column = ''sql: Scan error on column index '' @ show_nat column"

definition scan_text :: "time_lib \<Rightarrow> nat \<Rightarrow> val \<Rightarrow> string + string" where
  "scan_text ti column v = (case as_text ti v of None \<Rightarrow> Inl (scan_error column) | Some s \<Rightarrow> Inr s)"

definition scan_int64 :: "time_lib \<Rightarrow> nat \<Rightarrow> val \<Rightarrow> string + int" where
  "scan_int64 ti column v =
     (case Option.bind (as_text ti v) parse_int64 of None \<Rightarrow> Inl (scan_error column) | Some i \<Rightarrow> Inr i)"

fun as_bool :: "val \<Rightarrow> bool option" where
  "as_bool (VBool b) = Some b"
| "as_bool (VInt i) = (if i = 0 then Some False else if i = 1 then Some True else None)"
| "as_bool (VStr s) = parse_bool s"
| "as_bool (VBytes b) = parse_bool b"
| "as_bool _ = None"

definition scan_bool :: "nat \<Rightarrow> val \<Rightarrow> string + bool" where
  "scan_bool column v = (case as_bool v of None \<Rightarrow> Inl (scan_error column) | Some b \<Rightarrow> Inr b)"

definition scan_time :: "time_lib \<Rightarrow> nat \<Rightarrow> val \<Rightarrow> string + nat" where
  "scan_time ti column v =
     (case v of VOpaque t \<Rightarrow> if ti_is_time ti t then Inr t else Inl (scan_error column) | _ \<Rightarrow> Inl (scan_error column))"

definition wrong_count :: string where "wrong_count = ''sql: wrong number of destination arguments in Scan''"

text \<open>The results of a row's conversions: the first error, or all is well.\<close>

fun bind_scan :: "string + 'a \<Rightarrow> ('a \<Rightarrow> string + 'b) \<Rightarrow> string + 'b" where
  "bind_scan (Inl e) f = Inl e"
| "bind_scan (Inr x) f = f x"

lemma bind_scan_ok: "bind_scan r f = Inr y \<longleftrightarrow> (\<exists>x. r = Inr x \<and> f x = Inr y)"
  by (cases r) auto

definition int64_ok :: "int \<Rightarrow> bool" where
  "int64_ok i \<longleftrightarrow> - (2 ^ 63) \<le> i \<and> i < 2 ^ 63"

lemma parse_int64_show_int:
  assumes "int64_ok i"
  shows "parse_int64 (show_int i) = Some i"
proof (cases "i < 0")
  case True
  with assms show ?thesis by (simp add: parse_int64_def show_int_def int64_ok_def)
next
  case False
  have "nat i < 2 ^ 63" using assms False by (simp add: int64_ok_def nat_less_iff)
  from parse_int64_show_nat [OF this] False show ?thesis by (simp add: show_int_def)
qed

lemma scan_int64_int [simp]: "int64_ok i \<Longrightarrow> scan_int64 ti column (VInt i) = Inr i"
  by (simp add: scan_int64_def parse_int64_show_int)

end
