(* ===== verification/Prod_Repo.thy ===== *)
theory Prod_Repo imports Sql_Scan begin

text \<open>
  The repository of the production example (examples/prod-api/internal/app/repo.go and
  internal/domain/todo.go): todos and users in a SQL database, with \<open>RETURNING\<close> on PostgreSQL and
  the id of the last insert elsewhere. Where the code returns a value together with an error, its
  callers look at the error first; the model keeps the error.
\<close>

record prod_todo =
  pt_id :: int
  pt_title :: string
  pt_done :: bool
  pt_created_at :: nat

record prod_user =
  pu_id :: int
  pu_email :: string
  pu_name :: string
  pu_created_at :: nat

definition repo_is_postgres :: "string \<Rightarrow> bool" where
  "repo_is_postgres dialect \<longleftrightarrow> equal_fold dialect ''postgres'' \<or> equal_fold dialect ''pg''"

definition repo_ph :: "string \<Rightarrow> nat \<Rightarrow> string" where
  "repo_ph dialect n = (if repo_is_postgres dialect then ''$'' @ show_nat n else ''?'')"

section \<open>Values of the database\<close>

text \<open>\<open>toBool\<close> and \<open>toTime\<close>; the integer types are one here.\<close>

definition text_bool :: "string \<Rightarrow> bool" where
  "text_bool t = (let s = to_lower (trim_space t) in s = ''1'' \<or> s = ''t'' \<or> s = ''true'')"

fun to_bool :: "val \<Rightarrow> string + bool" where
  "to_bool (VBool b) = Inr b"
| "to_bool (VInt i) = Inr (i \<noteq> 0)"
| "to_bool (VBytes b) = Inr (text_bool b)"
| "to_bool (VStr s) = Inr (text_bool s)"
| "to_bool _ = Inl ''unsupported bool value type''"

definition parsed_time :: "time_lib \<Rightarrow> string \<Rightarrow> string + nat" where
  "parsed_time ti s =
     (case ti_parse ti s of Inl e \<Rightarrow> Inl (''parse created_at: '' @ e) | Inr t \<Rightarrow> Inr (ti_utc ti t))"

fun to_time :: "time_lib \<Rightarrow> val \<Rightarrow> string + nat" where
  "to_time ti (VOpaque t) = (if ti_is_time ti t then Inr (ti_utc ti t) else Inl ''unsupported time value type'')"
| "to_time ti (VStr s) = parsed_time ti s"
| "to_time ti (VBytes b) = parsed_time ti b"
| "to_time ti _ = Inl ''unsupported time value type''"

text \<open>The row of a todo, as the loop of \<open>List\<close> and \<open>MarkDone\<close> read it.\<close>

definition todo_of_row :: "time_lib \<Rightarrow> val list \<Rightarrow> string + prod_todo" where
  "todo_of_row ti row =
     (case row of
        [i, title, done, created] \<Rightarrow>
          bind_scan (scan_int64 ti 0 i) (\<lambda>i. bind_scan (scan_text ti 1 title) (\<lambda>title.
            bind_scan (to_bool done) (\<lambda>done. bind_scan (to_time ti created) (\<lambda>created.
              Inr \<lparr>pt_id = i, pt_title = title, pt_done = done, pt_created_at = created\<rparr>))))
      | _ \<Rightarrow> Inl wrong_count)"

fun todos_of_rows :: "time_lib \<Rightarrow> (string + val list) list \<Rightarrow> string + prod_todo list" where
  "todos_of_rows ti [] = Inr []"
| "todos_of_rows ti (r # rs) =
     bind_scan r (\<lambda>row. bind_scan (todo_of_row ti row) (\<lambda>t. bind_scan (todos_of_rows ti rs) (\<lambda>ts. Inr (t # ts))))"

section \<open>Operations\<close>

definition rows_result :: "db_rows \<Rightarrow> 'a \<Rightarrow> string + 'a" where
  "rows_result rows x = (case rows_err rows of Some e \<Rightarrow> Inl e | None \<Rightarrow> Inr x)"

definition insert_todo_returning :: "string \<Rightarrow> string" where
  "insert_todo_returning dialect =
     ''INSERT INTO todos (title, done, created_at) VALUES ('' @ repo_ph dialect 1 @ '', false, '' @ repo_ph dialect 2 @
     '') RETURNING id, done, created_at''"

definition repo_create :: "time_lib \<Rightarrow> string \<Rightarrow> 'd adapter \<Rightarrow> nat \<Rightarrow> string \<Rightarrow> 'd \<Rightarrow> (string + prod_todo) \<times> 'd" where
  "repo_create ti dialect a clock title d =
     (let now = ti_utc ti clock in
      if repo_is_postgres dialect then
        (case eq_query (ad_db a) (insert_todo_returning dialect) [VStr title, VOpaque now] d of
           (Inl e, d') \<Rightarrow> (Inl e, d')
         | (Inr rows, d') \<Rightarrow>
             (case rows_data rows of
                [] \<Rightarrow> (Inl ''insert todo: no row returned'', d')
              | row # rest \<Rightarrow>
                  (bind_scan row (\<lambda>row. case row of
                       [i, done, created] \<Rightarrow>
                         bind_scan (scan_int64 ti 0 i) (\<lambda>i. bind_scan (scan_bool 1 done) (\<lambda>done.
                           bind_scan (scan_time ti 2 created) (\<lambda>created.
                             rows_result rows \<lparr>pt_id = i, pt_title = title, pt_done = done, pt_created_at = ti_utc ti created\<rparr>)))
                     | _ \<Rightarrow> Inl wrong_count), d')))
      else
        (case eq_exec (ad_db a) ''INSERT INTO todos (title, done, created_at) VALUES (?, 0, ?)''
                [VStr title, VStr (ti_text ti now)] d of
           (Inl e, d') \<Rightarrow> (Inl e, d')
         | (Inr res, d') \<Rightarrow>
             (bind_scan (last_insert_id res)
                (\<lambda>i. Inr \<lparr>pt_id = i, pt_title = title, pt_done = False, pt_created_at = now\<rparr>), d')))"

definition repo_list :: "time_lib \<Rightarrow> 'd adapter \<Rightarrow> 'd \<Rightarrow> (string + prod_todo list) \<times> 'd" where
  "repo_list ti a d =
     (case eq_query (ad_db a) ''SELECT id, title, done, created_at FROM todos ORDER BY id DESC'' [] d of
        (Inl e, d') \<Rightarrow> (Inl e, d')
      | (Inr rows, d') \<Rightarrow> (bind_scan (todos_of_rows ti (rows_data rows)) (rows_result rows), d'))"

text \<open>\<open>MarkDone\<close>; \<open>None\<close> is a todo that was not found.\<close>

definition repo_mark_done ::
  "time_lib \<Rightarrow> string \<Rightarrow> 'd adapter \<Rightarrow> int \<Rightarrow> 'd \<Rightarrow> (string + prod_todo option) \<times> 'd" where
  "repo_mark_done ti dialect a i d =
     (case eq_exec (ad_db a) (''UPDATE todos SET done=1 WHERE id='' @ repo_ph dialect 1) [VInt i] d of
        (Inl e, d1) \<Rightarrow> (Inl e, d1)
      | (Inr res, d1) \<Rightarrow>
          (if (case rows_affected res of Inl e \<Rightarrow> 0 | Inr n \<Rightarrow> n) = 0 then (Inr None, d1)
           else
             (case eq_query (ad_db a) (''SELECT id, title, done, created_at FROM todos WHERE id='' @ repo_ph dialect 1) [VInt i] d1 of
                (Inl e, d2) \<Rightarrow> (Inl e, d2)
              | (Inr rows, d2) \<Rightarrow>
                  (case rows_data rows of
                     [] \<Rightarrow> (Inr None, d2)
                   | row # rest \<Rightarrow> (bind_scan row (\<lambda>row. bind_scan (todo_of_row ti row) (\<lambda>t. Inr (Some t))), d2)))))"

definition repo_create_user ::
  "time_lib \<Rightarrow> string \<Rightarrow> 'd adapter \<Rightarrow> nat \<Rightarrow> string \<Rightarrow> string \<Rightarrow> 'd \<Rightarrow> (string + prod_user) \<times> 'd" where
  "repo_create_user ti dialect a clock email name d =
     (let now = ti_utc ti clock;
          insert = ''INSERT INTO users (email, name, created_at) VALUES ('' @ repo_ph dialect 1 @ '', '' @
            repo_ph dialect 2 @ '', '' @ repo_ph dialect 3 @ '')'' in
      if repo_is_postgres dialect then
        (case eq_query (ad_db a) (insert @ '' RETURNING id, created_at'') [VStr email, VStr name, VOpaque now] d of
           (Inl e, d') \<Rightarrow> (Inl e, d')
         | (Inr rows, d') \<Rightarrow>
             (case rows_data rows of
                [] \<Rightarrow> (Inl ''insert user: no row returned'', d')
              | row # rest \<Rightarrow>
                  (bind_scan row (\<lambda>row. case row of
                       [i, created] \<Rightarrow>
                         bind_scan (scan_int64 ti 0 i) (\<lambda>i. bind_scan (scan_time ti 1 created) (\<lambda>created.
                           rows_result rows \<lparr>pu_id = i, pu_email = email, pu_name = name, pu_created_at = ti_utc ti created\<rparr>))
                     | _ \<Rightarrow> Inl wrong_count), d')))
      else
        (case eq_exec (ad_db a) insert [VStr email, VStr name, VStr (ti_text ti now)] d of
           (Inl e, d') \<Rightarrow> (Inl e, d')
         | (Inr res, d') \<Rightarrow>
             (bind_scan (last_insert_id res)
                (\<lambda>i. Inr \<lparr>pu_id = i, pu_email = email, pu_name = name, pu_created_at = now\<rparr>), d')))"

section \<open>A table of todos\<close>

text \<open>
  What the statements of the repository do in a database whose table holds rows of an id, a title, a
  flag and a time, the newest first. \<open>stored\<close> is how a column comes back that was given as an
  argument: text as text or as bytes, a time as a time of the same moment.
\<close>

type_synonym todo_row = "int \<times> val \<times> val \<times> val"

fun row_values :: "todo_row \<Rightarrow> val list" where
  "row_values (i, title, done, created) = [VInt i, title, done, created]"

definition new_row :: "todo_row list \<Rightarrow> todo_row \<Rightarrow> bool" where
  "new_row rows r \<longleftrightarrow> fst r \<notin> fst ` set rows \<and> int64_ok (fst r)"

definition stored_ok :: "time_lib \<Rightarrow> (val \<Rightarrow> val) \<Rightarrow> bool" where
  "stored_ok ti stored \<longleftrightarrow>
     (\<forall>s. stored (VStr s) = VStr s \<or> stored (VStr s) = VBytes s) \<and>
     (\<forall>t. ti_is_time ti t \<longrightarrow> (\<exists>t'. stored (VOpaque t) = VOpaque t' \<and> ti_is_time ti t' \<and> ti_utc ti t' = ti_utc ti t))"

definition answers_rows :: "db_rows \<Rightarrow> todo_row list \<Rightarrow> bool" where
  "answers_rows rows rs \<longleftrightarrow> rows_data rows = map (Inr \<circ> row_values) rs \<and> rows_err rows = None"

fun set_done :: "val \<Rightarrow> int \<Rightarrow> todo_row \<Rightarrow> todo_row" where
  "set_done b i (j, title, done, created) = (j, title, if j = i then b else done, created)"

definition todo_table_laws :: "'d adapter \<Rightarrow> string \<Rightarrow> (val \<Rightarrow> val) \<Rightarrow> ('d \<Rightarrow> todo_row list) \<Rightarrow> bool" where
  "todo_table_laws a dialect stored view \<longleftrightarrow>
     (\<forall>title c d res d'. eq_exec (ad_db a) ''INSERT INTO todos (title, done, created_at) VALUES (?, 0, ?)''
          [VStr title, VStr c] d = (Inr res, d') \<longrightarrow>
        (\<exists>i b. last_insert_id res = Inr i \<and> to_bool b = Inr False \<and>
           new_row (view d) (i, stored (VStr title), b, stored (VStr c)) \<and>
           view d' = (i, stored (VStr title), b, stored (VStr c)) # view d)) \<and>
     (\<forall>title t d rows d'. eq_query (ad_db a) (insert_todo_returning dialect) [VStr title, VOpaque t] d = (Inr rows, d') \<longrightarrow>
        (\<exists>i. rows_data rows = [Inr [VInt i, VBool False, stored (VOpaque t)]] \<and> rows_err rows = None \<and>
           new_row (view d) (i, stored (VStr title), VBool False, stored (VOpaque t)) \<and>
           view d' = (i, stored (VStr title), VBool False, stored (VOpaque t)) # view d)) \<and>
     (\<forall>d rows d'. eq_query (ad_db a) ''SELECT id, title, done, created_at FROM todos ORDER BY id DESC'' [] d = (Inr rows, d') \<longrightarrow>
        answers_rows rows (view d) \<and> view d' = view d) \<and>
     (\<forall>i d res d'. eq_exec (ad_db a) (''UPDATE todos SET done=1 WHERE id='' @ repo_ph dialect 1) [VInt i] d = (Inr res, d') \<longrightarrow>
        (\<exists>b. to_bool b = Inr True \<and> rows_affected res = Inr (if i \<in> fst ` set (view d) then 1 else 0) \<and>
           view d' = map (set_done b i) (view d))) \<and>
     (\<forall>i d rows d'. eq_query (ad_db a) (''SELECT id, title, done, created_at FROM todos WHERE id='' @ repo_ph dialect 1) [VInt i] d
          = (Inr rows, d') \<longrightarrow> answers_rows rows (filter (\<lambda>r. fst r = i) (view d)) \<and> view d' = view d)"

lemmas todo_table_cases = todo_table_laws_def [THEN iffD1]
lemmas insert_law = todo_table_cases [THEN conjunct1, rule_format]
lemmas returning_law = todo_table_cases [THEN conjunct2, THEN conjunct1, rule_format]
lemmas list_law = todo_table_cases [THEN conjunct2, THEN conjunct2, THEN conjunct1, rule_format]
lemmas update_law = todo_table_cases [THEN conjunct2, THEN conjunct2, THEN conjunct2, THEN conjunct1, rule_format]
lemmas by_id_law = todo_table_cases [THEN conjunct2, THEN conjunct2, THEN conjunct2, THEN conjunct2, rule_format]

section \<open>The repository as a store\<close>

text \<open>The todos a table shows.\<close>

definition shown :: "time_lib \<Rightarrow> todo_row list \<Rightarrow> string + prod_todo list" where
  "shown ti rs = todos_of_rows ti (map (Inr \<circ> row_values) rs)"

definition show_row :: "time_lib \<Rightarrow> todo_row \<Rightarrow> string + prod_todo" where
  "show_row ti r = todo_of_row ti (row_values r)"

lemma shown_simps [simp]:
  "shown ti [] = Inr []"
  "shown ti (r # rs) = bind_scan (show_row ti r) (\<lambda>t. bind_scan (shown ti rs) (\<lambda>ts. Inr (t # ts)))"
  by (simp_all add: shown_def show_row_def)

lemma show_row_id:
  assumes "show_row ti r = Inr t" "int64_ok (fst r)"
  shows "pt_id t = fst r"
  using assms by (cases r) (auto simp: show_row_def todo_of_row_def bind_scan_ok)

lemma repo_list_shown:
  assumes "todo_table_laws a dialect stored view" "repo_list ti a d = (Inr ts, d')"
  shows "shown ti (view d) = Inr ts \<and> view d' = view d"
proof (cases "eq_query (ad_db a) ''SELECT id, title, done, created_at FROM todos ORDER BY id DESC'' [] d")
  case (Pair r d1)
  with assms(2) obtain rows where r: "r = Inr rows" by (cases r) (auto simp: repo_list_def)
  with Pair list_law [OF assms(1), of d rows d1] have "answers_rows rows (view d)" "view d1 = view d" by auto
  with assms(2) Pair r show ?thesis
    by (auto simp: repo_list_def answers_rows_def rows_result_def bind_scan_ok shown_def)
qed

lemma shown_ids:
  assumes "shown ti rs = Inr ts" "\<forall>r\<in>set rs. int64_ok (fst r)"
  shows "map pt_id ts = map fst rs"
  using assms by (induction rs arbitrary: ts) (auto simp: bind_scan_ok show_row_id)

lemma scan_stored [simp]: "stored_ok ti stored \<Longrightarrow> scan_text ti column (stored (VStr s)) = Inr s"
  unfolding stored_ok_def scan_text_def by (metis as_text.simps(1,2) option.simps(5))

lemma to_time_stored_text:
  assumes "stored_ok ti stored" "time_laws ti" "ti_is_time ti t" "ti_utc ti t = t"
  shows "to_time ti (stored (VStr (ti_text ti t))) = Inr t"
proof -
  from assms(2,3) obtain t' where "ti_parse ti (ti_text ti t) = Inr t'" "ti_utc ti t' = ti_utc ti t"
    by (auto simp: time_laws_def)
  then have "parsed_time ti (ti_text ti t) = Inr t" by (simp add: parsed_time_def assms(4))
  then show ?thesis using assms(1) unfolding stored_ok_def by (metis to_time.simps(2,3))
qed

lemma to_time_stored_time:
  assumes "stored_ok ti stored" "ti_is_time ti t"
  shows "to_time ti (stored (VOpaque t)) = Inr (ti_utc ti t)" "\<exists>t'. stored (VOpaque t) = VOpaque t' \<and> ti_is_time ti t' \<and> ti_utc ti t' = ti_utc ti t"
  using assms unfolding stored_ok_def by (metis to_time.simps(1))+

text \<open>A todo that is created is a new row that shows it.\<close>

lemma repo_create_row:
  assumes laws: "todo_table_laws a dialect stored view" and ok: "stored_ok ti stored" "time_laws ti" "ti_is_time ti clock"
    and r: "repo_create ti dialect a clock title d = (Inr t, d')"
  shows "\<exists>row. new_row (view d) row \<and> view d' = row # view d \<and> show_row ti row = Inr t \<and>
    pt_title t = title \<and> \<not> pt_done t \<and> pt_created_at t = ti_utc ti clock"
proof -
  let ?now = "ti_utc ti clock"
  have now: "ti_is_time ti ?now" "ti_utc ti ?now = ?now" using ok(2,3) by (simp_all add: time_laws_def)
  show ?thesis
  proof (cases "repo_is_postgres dialect")
    case True
    obtain q d1 where q: "eq_query (ad_db a) (insert_todo_returning dialect) [VStr title, VOpaque ?now] d = (q, d1)"
      by (metis prod.exhaust)
    with True r obtain rows where rows: "q = Inr rows" by (cases q) (auto simp: repo_create_def Let_def)
    from returning_law [OF laws q [unfolded rows]] obtain i where i: "rows_data rows = [Inr [VInt i, VBool False, stored (VOpaque ?now)]]"
        "rows_err rows = None" "new_row (view d) (i, stored (VStr title), VBool False, stored (VOpaque ?now))"
        "view d1 = (i, stored (VStr title), VBool False, stored (VOpaque ?now)) # view d" by blast
    obtain t' where t': "stored (VOpaque ?now) = VOpaque t'" "ti_is_time ti t'" "ti_utc ti t' = ?now"
      using to_time_stored_time(2) [OF ok(1) now(1)] now(2) by auto
    have "int64_ok i" using i(3) by (simp add: new_row_def)
    with True r q rows i(1,2) t' have t: "t = \<lparr>pt_id = i, pt_title = title, pt_done = False, pt_created_at = ?now\<rparr>" "d' = d1"
      by (auto simp: repo_create_def Let_def rows_result_def scan_bool_def scan_time_def)
    have "show_row ti (i, stored (VStr title), VBool False, stored (VOpaque ?now)) = Inr t"
      using t(1) \<open>int64_ok i\<close> t' ok(1) by (simp add: show_row_def todo_of_row_def)
    with i(3,4) t show ?thesis by auto
  next
    case False
    obtain q d1 where q: "eq_exec (ad_db a) ''INSERT INTO todos (title, done, created_at) VALUES (?, 0, ?)''
        [VStr title, VStr (ti_text ti ?now)] d = (q, d1)" by (metis prod.exhaust)
    with False r obtain res where res: "q = Inr res" by (cases q) (auto simp: repo_create_def Let_def)
    from insert_law [OF laws q [unfolded res]] obtain i b where i: "last_insert_id res = Inr i" "to_bool b = Inr False"
        "new_row (view d) (i, stored (VStr title), b, stored (VStr (ti_text ti ?now)))"
        "view d1 = (i, stored (VStr title), b, stored (VStr (ti_text ti ?now))) # view d" by blast
    have "int64_ok i" using i(3) by (simp add: new_row_def)
    from False r q res i(1) have t: "t = \<lparr>pt_id = i, pt_title = title, pt_done = False, pt_created_at = ?now\<rparr>" "d' = d1"
      by (auto simp: repo_create_def Let_def)
    have "show_row ti (i, stored (VStr title), b, stored (VStr (ti_text ti ?now))) = Inr t"
      using t(1) \<open>int64_ok i\<close> i(2) ok(1) to_time_stored_text [OF ok(1,2) now] by (simp add: show_row_def todo_of_row_def)
    with i(3,4) t show ?thesis by auto
  qed
qed

text \<open>Marking a row done shows in that row only.\<close>

lemma show_row_done:
  assumes "show_row ti r = Inr t" "to_bool b = Inr True"
  shows "show_row ti (set_done b i r) = Inr (if fst r = i then t\<lparr>pt_done := True\<rparr> else t)"
  using assms by (cases r) (auto simp: show_row_def todo_of_row_def bind_scan_ok)

lemma shown_done:
  assumes "shown ti rs = Inr ts" "to_bool b = Inr True" "\<forall>r\<in>set rs. int64_ok (fst r)"
  shows "shown ti (map (set_done b i) rs) = Inr (map (\<lambda>t. if pt_id t = i then t\<lparr>pt_done := True\<rparr> else t) ts)"
  using assms(1,3)
proof (induction rs arbitrary: ts)
  case Nil
  then show ?case by simp
next
  case (Cons r rs)
  then obtain t ts' where t: "show_row ti r = Inr t" "shown ti rs = Inr ts'" "ts = t # ts'" by (auto simp: bind_scan_ok)
  with Cons.IH [OF t(2)] Cons.prems(2) show_row_done [OF t(1) assms(2), of i] show_row_id [OF t(1)]
  show ?case by simp
qed

lemma shown_member:
  "shown ti rs = Inr ts \<Longrightarrow> r \<in> set rs \<Longrightarrow> \<exists>t\<in>set ts. show_row ti r = Inr t"
  by (induction rs arbitrary: ts) (auto simp: bind_scan_ok)

lemma repo_mark_done_rows:
  assumes laws: "todo_table_laws a dialect stored view" and ids: "\<forall>r\<in>set (view d). int64_ok (fst r)"
    and shown: "shown ti (view d) = Inr ts" and r: "repo_mark_done ti dialect a i d = (Inr m, d')"
  shows "shown ti (view d') = Inr (map (\<lambda>t. if pt_id t = i then t\<lparr>pt_done := True\<rparr> else t) ts) \<and>
    (if i \<in> pt_id ` set ts then \<exists>t\<in>set ts. pt_id t = i \<and> m = Some (t\<lparr>pt_done := True\<rparr>) else m = None)"
proof -
  let ?upd = "''UPDATE todos SET done=1 WHERE id='' @ repo_ph dialect 1"
  let ?ts = "map (\<lambda>t. if pt_id t = i then t\<lparr>pt_done := True\<rparr> else t) ts"
  obtain q d1 where q: "eq_exec (ad_db a) ?upd [VInt i] d = (q, d1)" by (metis prod.exhaust)
  with r obtain res where res: "q = Inr res" by (cases q) (auto simp: repo_mark_done_def)
  from update_law [OF laws q [unfolded res]] obtain b where b: "to_bool b = Inr True"
      "rows_affected res = Inr (if i \<in> fst ` set (view d) then 1 else 0)" "view d1 = map (set_done b i) (view d)" by blast
  have d1: "shown ti (view d1) = Inr ?ts" unfolding b(3) by (rule shown_done [OF shown b(1) ids])
  have ids_ts: "fst ` set (view d) = pt_id ` set ts" using shown_ids [OF shown ids] by (metis set_map)
  show ?thesis
  proof (cases "i \<in> pt_id ` set ts")
    case False
    with r q res b(2) ids_ts have "m = None" "d' = d1" by (simp_all add: repo_mark_done_def)
    with d1 False show ?thesis by simp
  next
    case True
    obtain q2 d2 where q2: "eq_query (ad_db a) (''SELECT id, title, done, created_at FROM todos WHERE id='' @ repo_ph dialect 1) [VInt i] d1
        = (q2, d2)" by (metis prod.exhaust)
    with True r q res b(2) ids_ts obtain rows where rows: "q2 = Inr rows"
      by (cases q2) (auto simp: repo_mark_done_def)
    from by_id_law [OF laws q2 [unfolded rows]]
    have ans: "answers_rows rows (filter (\<lambda>r. fst r = i) (view d1))" "view d2 = view d1" by auto
    have fst_done: "fst (set_done b i r) = fst r" for r by (cases r) simp
    from True ids_ts obtain r0 where r0: "r0 \<in> set (view d)" "fst r0 = i" by (metis imageE)
    then have "set_done b i r0 \<in> set (filter (\<lambda>r. fst r = i) (view d1))" using b(3) fst_done by auto
    then obtain r1 rest where f: "filter (\<lambda>r. fst r = i) (view d1) = r1 # rest"
      by (cases "filter (\<lambda>r. fst r = i) (view d1)") auto
    then have "r1 \<in> set (filter (\<lambda>r. fst r = i) (view d1))" by simp
    then have r1: "r1 \<in> set (view d1)" "fst r1 = i" by auto
    then obtain r2 where r2: "r2 \<in> set (view d)" "r1 = set_done b i r2" using b(3) by auto
    obtain t where t: "t \<in> set ts" "show_row ti r2 = Inr t" using shown_member [OF shown r2(1)] by blast
    have fr2: "fst r2 = i" using r1(2) r2(2) fst_done by simp
    have "int64_ok (fst r2)" using ids r2(1) by blast
    then have "pt_id t = i" using show_row_id [OF t(2)] fr2 by simp
    moreover have "show_row ti r1 = Inr (t\<lparr>pt_done := True\<rparr>)" using show_row_done [OF t(2) b(1), of i] r2(2) fr2 by simp
    then have "m = Some (t\<lparr>pt_done := True\<rparr>)" "d' = d2"
      using True r q res b(2) ids_ts q2 rows ans(1) f
      by (auto simp: repo_mark_done_def answers_rows_def show_row_def bind_scan_ok)
    ultimately show ?thesis using d1 ans(2) True t(1) by auto
  qed
qed


text \<open>A database of one table, with flags as numbers and texts as bytes, as SQLite and MySQL give them.\<close>

definition clock_lib :: time_lib where
  "clock_lib = \<lparr>ti_is_time = (\<lambda>n. True), ti_utc = (\<lambda>n. n), ti_text = show_nat,
     ti_parse = (\<lambda>s. case parse_nat s of Some n \<Rightarrow> Inr n | None \<Rightarrow> Inl ''bad time'')\<rparr>"

fun as_bytes :: "val \<Rightarrow> val" where
  "as_bytes (VStr s) = VBytes s"
| "as_bytes v = v"

definition next_id :: "todo_row list \<Rightarrow> int" where
  "next_id rows = (case rows of [] \<Rightarrow> 1 | r # rs \<Rightarrow> fst r + 1)"

definition all_rows :: "todo_row list \<Rightarrow> db_rows" where
  "all_rows rs = \<lparr>rows_columns = Some (Inr [''id'', ''title'', ''done'', ''created_at'']),
     rows_data = map (Inr \<circ> row_values) rs, rows_err = None\<rparr>"

definition listed_once :: "todo_row list \<Rightarrow> bool" where
  "listed_once rows \<longleftrightarrow> sorted_wrt (\<lambda>r r'. fst r' < fst r) rows \<and> (rows \<noteq> [] \<longrightarrow> fst (hd rows) < 2 ^ 62) \<and>
     (\<forall>r\<in>set rows. 0 \<le> fst r)"

text \<open>A table that is full, or whose rows are out of order, refuses to insert.\<close>

definition table_exec :: "string \<Rightarrow> val list \<Rightarrow> todo_row list \<Rightarrow> (string + db_result) \<times> todo_row list" where
  "table_exec q args rows =
     (if q = ''INSERT INTO todos (title, done, created_at) VALUES (?, 0, ?)'' then
        (case args of
           [title, created] \<Rightarrow>
             if listed_once rows then
               (Inr \<lparr>rows_affected = Inr 1, last_insert_id = Inr (next_id rows)\<rparr>,
                (next_id rows, as_bytes title, VInt 0, as_bytes created) # rows)
             else (Inl ''table is broken'', rows)
         | _ \<Rightarrow> (Inl ''wrong arguments'', rows))
      else if q = ''UPDATE todos SET done=1 WHERE id=?'' then
        (case args of
           [VInt i] \<Rightarrow> (Inr \<lparr>rows_affected = Inr (if i \<in> fst ` set rows then 1 else 0), last_insert_id = Inr 0\<rparr>,
                       map (set_done (VInt 1) i) rows)
         | _ \<Rightarrow> (Inl ''wrong arguments'', rows))
      else (Inl ''syntax error'', rows))"

definition table_query :: "string \<Rightarrow> val list \<Rightarrow> todo_row list \<Rightarrow> (string + db_rows) \<times> todo_row list" where
  "table_query q args rows =
     (if q = ''SELECT id, title, done, created_at FROM todos ORDER BY id DESC'' then (Inr (all_rows rows), rows)
      else if q = ''SELECT id, title, done, created_at FROM todos WHERE id=?'' then
        (case args of
           [VInt i] \<Rightarrow> (Inr (all_rows (filter (\<lambda>r. fst r = i) rows)), rows)
         | _ \<Rightarrow> (Inl ''wrong arguments'', rows))
      else (Inl ''syntax error'', rows))"

definition table_adapter :: "todo_row list adapter" where
  "table_adapter =
     \<lparr>ad_db = \<lparr>eq_exec = table_exec, eq_query = table_query\<rparr>, ad_tx = \<lparr>eq_exec = table_exec, eq_query = table_query\<rparr>,
      ad_begin = (\<lambda>d. (Inr True, d)), ad_commit = (\<lambda>d. (None, d)), ad_rollback = (\<lambda>d. (None, d))\<rparr>"

lemma clock_lib_laws: "time_laws clock_lib"
  by (simp add: time_laws_def clock_lib_def)

lemma as_bytes_stored: "stored_ok clock_lib as_bytes"
  by (simp add: stored_ok_def clock_lib_def)

lemma next_id_new:
  assumes "listed_once rows"
  shows "new_row rows (next_id rows, title, done, created)"
proof (cases rows)
  case Nil
  then show ?thesis by (simp add: new_row_def next_id_def int64_ok_def)
next
  case (Cons r rs)
  with assms have "\<forall>r'\<in>set rows. fst r' \<le> fst r" "0 \<le> fst r" "fst r < 2 ^ 62" by (auto simp: listed_once_def)
  with Cons show ?thesis by (fastforce simp: new_row_def next_id_def int64_ok_def)
qed

lemma sqlite_ph: "repo_ph ''sqlite'' n = ''?''" "\<not> repo_is_postgres ''sqlite''"
proof -
  show "\<not> repo_is_postgres ''sqlite''" by code_simp
  then show "repo_ph ''sqlite'' n = ''?''" by (simp add: repo_ph_def)
qed

lemma table_adapter_laws: "todo_table_laws table_adapter ''sqlite'' as_bytes (\<lambda>rows. rows)"
  unfolding todo_table_laws_def
proof (intro conjI allI impI)
  fix title c d res d'
  assume "eq_exec (ad_db table_adapter) ''INSERT INTO todos (title, done, created_at) VALUES (?, 0, ?)'' [VStr title, VStr c] d
      = (Inr res, d')"
  then have "listed_once d" "res = \<lparr>rows_affected = Inr 1, last_insert_id = Inr (next_id d)\<rparr>"
      "d' = (next_id d, VBytes title, VInt 0, VBytes c) # d"
    by (auto simp: table_adapter_def table_exec_def split: if_splits)
  then show "\<exists>i b. last_insert_id res = Inr i \<and> to_bool b = Inr False \<and>
      new_row d (i, as_bytes (VStr title), b, as_bytes (VStr c)) \<and> d' = (i, as_bytes (VStr title), b, as_bytes (VStr c)) # d"
    using next_id_new by (intro exI [of _ "next_id d"] exI [of _ "VInt 0"]) simp
next
  fix title t d rows d'
  assume "eq_query (ad_db table_adapter) (insert_todo_returning ''sqlite'') [VStr title, VOpaque t] d = (Inr rows, d')"
  then show "\<exists>i. rows_data rows = [Inr [VInt i, VBool False, as_bytes (VOpaque t)]] \<and> rows_err rows = None \<and>
      new_row d (i, as_bytes (VStr title), VBool False, as_bytes (VOpaque t)) \<and>
      d' = (i, as_bytes (VStr title), VBool False, as_bytes (VOpaque t)) # d"
    by (simp add: table_adapter_def table_query_def insert_todo_returning_def)
next
  fix i d res d'
  assume "eq_exec (ad_db table_adapter) (''UPDATE todos SET done=1 WHERE id='' @ repo_ph ''sqlite'' 1) [VInt i] d = (Inr res, d')"
  then show "\<exists>b. to_bool b = Inr True \<and> rows_affected res = Inr (if i \<in> fst ` set d then 1 else 0) \<and> d' = map (set_done b i) d"
    by (intro exI [of _ "VInt 1"]) (simp add: table_adapter_def table_exec_def sqlite_ph, elim conjE, hypsubst, simp)
qed (auto simp: table_adapter_def table_query_def sqlite_ph all_rows_def answers_rows_def)

definition two_rows :: "todo_row list" where
  "two_rows = [(2, VBytes ''b'', VInt 0, VBytes ''7''), (1, VBytes ''a'', VInt 1, VBytes ''5'')]"


end
