(* ===== verification/Config_Env.thy ===== *)
theory Config_Env imports Go_Strconv begin

text \<open>
  Package \<open>config\<close>, config.go: \<open>LoadEnv\<close>. The configuration struct that \<open>reflect\<close> walks is a
  list of its fields, each with what reflection tells of it (exported or not, the tag) and its
  cell. An integer cell has its width and holds what fits in it: \<open>SetInt\<close> and \<open>SetUint\<close> store
  the low bits of a 64-bit number. Floating-point numbers are the type \<open>'f\<close>; how one is read
  and how it is rounded to 32 bits are parameters (\<open>num_reader\<close>), like the fraction of a
  duration. \<open>LoadJSONFile\<close> is here over any decoder; \<open>encoding/json\<close> is a parameter of it.
\<close>

record field_info =
  fi_exported :: bool
  fi_tag :: "string \<Rightarrow> string"

datatype 'f cell =
    StringCell string
  | BoolCell bool
  | DurationCell int
  | IntCell nat int
  | UintCell nat nat
  | FloatCell nat 'f
  | StructCell "(field_info \<times> 'f cell) list"
  | OtherCell

record 'f num_reader =
  nr_frac :: "nat \<Rightarrow> nat \<Rightarrow> nat \<Rightarrow> nat"
  nr_float :: "string \<Rightarrow> 'f option"
  nr_round32 :: "'f \<Rightarrow> 'f"

datatype set_error = SyntaxError | UnsupportedKind
datatype env_error = MissingEnv string | BadEnv string set_error

text \<open>\<open>SetInt\<close> and \<open>SetUint\<close> on a field of \<open>w\<close> bits.\<close>

definition wrap_int :: "nat \<Rightarrow> int \<Rightarrow> int" where
  "wrap_int w v = (v + 2 ^ (w - 1)) mod 2 ^ w - 2 ^ (w - 1)"

definition wrap_uint :: "nat \<Rightarrow> nat \<Rightarrow> nat" where
  "wrap_uint w n = n mod 2 ^ w"

text \<open>\<open>setValue\<close>.\<close>

definition set_value :: "'f num_reader \<Rightarrow> 'f cell \<Rightarrow> string \<Rightarrow> set_error + 'f cell" where
  "set_value rd cell raw =
     (case cell of
        StringCell s \<Rightarrow> Inr (StringCell raw)
      | BoolCell b \<Rightarrow> (case parse_bool raw of None \<Rightarrow> Inl SyntaxError | Some v \<Rightarrow> Inr (BoolCell v))
      | DurationCell d \<Rightarrow>
          (case parse_duration (nr_frac rd) raw of None \<Rightarrow> Inl SyntaxError | Some v \<Rightarrow> Inr (DurationCell v))
      | IntCell w i \<Rightarrow>
          (case parse_int64 raw of None \<Rightarrow> Inl SyntaxError | Some v \<Rightarrow> Inr (IntCell w (wrap_int w v)))
      | UintCell w n \<Rightarrow>
          (case parse_uint64 raw of None \<Rightarrow> Inl SyntaxError | Some v \<Rightarrow> Inr (UintCell w (wrap_uint w v)))
      | FloatCell w x \<Rightarrow>
          (case nr_float rd raw of
             None \<Rightarrow> Inl SyntaxError
           | Some v \<Rightarrow> Inr (FloatCell w (if w = 32 then nr_round32 rd v else v)))
      | StructCell fs \<Rightarrow> Inl UnsupportedKind
      | OtherCell \<Rightarrow> Inl UnsupportedKind)"

text \<open>The text a field is set from: the environment, else the default, both trimmed.\<close>

definition raw_value :: "(string \<Rightarrow> string) \<Rightarrow> string \<Rightarrow> field_info \<Rightarrow> string" where
  "raw_value env key fi =
     (let raw = trim_space (env key) in if raw = [] then trim_space (fi_tag fi ''default'') else raw)"

text \<open>The body of the loop of \<open>loadFromEnv\<close> for a field that is not a struct.\<close>

definition load_field ::
  "'f num_reader \<Rightarrow> (string \<Rightarrow> string) \<Rightarrow> field_info \<Rightarrow> 'f cell \<Rightarrow> env_error + 'f cell" where
  "load_field rd env fi cell =
     (let key = trim_space (fi_tag fi ''env'') in
      if key = [] then Inr cell
      else
        (let raw = raw_value env key fi; req = (fi_tag fi ''required'' = ''true'') in
         if raw = [] \<and> req then Inl (MissingEnv key)
         else if raw = [] then Inr cell
         else (case set_value rd cell raw of Inl e \<Rightarrow> Inl (BadEnv key e) | Inr c \<Rightarrow> Inr c)))"

text \<open>
  \<open>loadFromEnv\<close>. It changes the struct in place: what it set before an error stays set, and
  \<open>LoadEnv\<close> returns it beside the error.
\<close>

fun load_from_env ::
  "'f num_reader \<Rightarrow> (string \<Rightarrow> string) \<Rightarrow> (field_info \<times> 'f cell) list \<Rightarrow>
   (field_info \<times> 'f cell) list \<times> env_error option"
  and load_cell ::
  "'f num_reader \<Rightarrow> (string \<Rightarrow> string) \<Rightarrow> field_info \<Rightarrow> 'f cell \<Rightarrow> 'f cell \<times> env_error option" where
  "load_from_env rd env [] = ([], None)"
| "load_from_env rd env ((fi, c) # fs) =
     (if \<not> fi_exported fi then
        (case load_from_env rd env fs of (fs', err) \<Rightarrow> ((fi, c) # fs', err))
      else
        (case load_cell rd env fi c of
           (c', Some e) \<Rightarrow> ((fi, c') # fs, Some e)
         | (c', None) \<Rightarrow> (case load_from_env rd env fs of (fs', err) \<Rightarrow> ((fi, c') # fs', err))))"
| "load_cell rd env fi (StructCell gs) =
     (case load_from_env rd env gs of (gs', err) \<Rightarrow> (StructCell gs', err))"
| "load_cell rd env fi c =
     (case load_field rd env fi c of Inl e \<Rightarrow> (c, Some e) | Inr c' \<Rightarrow> (c', None))"

definition load_env ::
  "'f num_reader \<Rightarrow> (string \<Rightarrow> string) \<Rightarrow> (field_info \<times> 'f cell) list \<Rightarrow>
   (field_info \<times> 'f cell) list \<times> env_error option" where
  "load_env rd env zero = load_from_env rd env zero"

text \<open>
  \<open>LoadJSONFile\<close> with a decoder that answers an error or nil, the struct as far as it was filled,
  and the rest of the file; the rest is not looked at.
\<close>

definition load_json_file ::
  "(string \<Rightarrow> string + 'b) \<Rightarrow> ('b \<Rightarrow> (string option \<times> 'v) \<times> 'b) \<Rightarrow> 'v \<Rightarrow> string \<Rightarrow> 'v \<times> string option" where
  "load_json_file open_file decode zero path =
     (case open_file path of
        Inl e \<Rightarrow> (zero, Some e)
      | Inr f \<Rightarrow>
          (case decode f of
             ((Some e, cfg), rest) \<Rightarrow> (cfg, Some e)
           | ((None, cfg), rest) \<Rightarrow> (cfg, None)))"

text \<open>Whatever follows the first value of the file makes no difference, unlike in \<open>BindJSON\<close>.\<close>

lemma trailing_data_ignored:
  assumes "open_file path = Inr f" "decode f = ((None, cfg), rest)"
  shows "load_json_file open_file decode zero path = (cfg, None)"
  using assms by (simp add: load_json_file_def)

section \<open>Widths\<close>

lemma wrap_int_bounds: "0 < w \<Longrightarrow> - (2 ^ (w - 1)) \<le> wrap_int w v \<and> wrap_int w v < 2 ^ (w - 1)"
proof -
  assume "0 < w"
  then have p: "(2::int) ^ w = 2 * 2 ^ (w - 1)" by (cases w) simp_all
  have "0 \<le> (v + 2 ^ (w - 1)) mod 2 ^ w \<and> (v + 2 ^ (w - 1)) mod 2 ^ w < 2 ^ w" by simp
  with p show ?thesis unfolding wrap_int_def by linarith
qed

lemma wrap_int_id_iff:
  assumes "0 < w"
  shows "wrap_int w v = v \<longleftrightarrow> - (2 ^ (w - 1)) \<le> v \<and> v < 2 ^ (w - 1)"
proof
  assume "wrap_int w v = v"
  then show "- (2 ^ (w - 1)) \<le> v \<and> v < 2 ^ (w - 1)" using wrap_int_bounds [OF assms, of v] by simp
next
  have p: "(2::int) ^ w = 2 * 2 ^ (w - 1)" using assms by (cases w) simp_all
  assume "- (2 ^ (w - 1)) \<le> v \<and> v < 2 ^ (w - 1)"
  then have "(v + 2 ^ (w - 1)) mod 2 ^ w = v + 2 ^ (w - 1)" using p by (intro mod_pos_pos_trivial) linarith+
  then show "wrap_int w v = v" by (simp add: wrap_int_def)
qed

lemma wrap_uint_id_iff: "wrap_uint w n = n \<longleftrightarrow> n < 2 ^ w"
  using mod_less_divisor [of "2 ^ w" n] by (auto simp: wrap_uint_def simp del: mod_less_divisor)

text \<open>A cell that holds a value of its width; structs hold such cells.\<close>

fun cell_ok :: "'f cell \<Rightarrow> bool" where
  "cell_ok (DurationCell d) \<longleftrightarrow> - (2 ^ 63) \<le> d \<and> d < 2 ^ 63"
| "cell_ok (IntCell w i) \<longleftrightarrow> 0 < w \<and> - (2 ^ (w - 1)) \<le> i \<and> i < 2 ^ (w - 1)"
| "cell_ok (UintCell w n) \<longleftrightarrow> 0 < w \<and> n < 2 ^ w"
| "cell_ok (StructCell fs) \<longleftrightarrow> list_all (\<lambda>(fi, c). cell_ok c) fs"
| "cell_ok c \<longleftrightarrow> True"

text \<open>What stays of a cell: its kind and width, the fields of a struct.\<close>

fun cell_shape :: "'f cell \<Rightarrow> unit cell" where
  "cell_shape (StringCell s) = StringCell []"
| "cell_shape (BoolCell b) = BoolCell False"
| "cell_shape (DurationCell d) = DurationCell 0"
| "cell_shape (IntCell w i) = IntCell w 0"
| "cell_shape (UintCell w n) = UintCell w 0"
| "cell_shape (FloatCell w x) = FloatCell w ()"
| "cell_shape (StructCell fs) = StructCell (map (\<lambda>(fi, c). (fi, cell_shape c)) fs)"
| "cell_shape OtherCell = OtherCell"

lemma set_value_ok: "set_value rd c raw = Inr c' \<Longrightarrow> cell_ok c \<Longrightarrow> cell_ok c' \<and> cell_shape c' = cell_shape c"
  by (cases c) (auto simp: set_value_def wrap_uint_def wrap_int_bounds [simplified] split: option.splits
      dest!: parse_duration_bounds)

lemma load_field_ok: "load_field rd env fi c = Inr c' \<Longrightarrow> cell_ok c \<Longrightarrow> cell_ok c' \<and> cell_shape c' = cell_shape c"
  by (auto simp: load_field_def Let_def set_value_ok split: if_splits sum.splits)

section \<open>What loading guarantees\<close>

lemma load_ok:
  "load_from_env rd env fs = (fs', err) \<Longrightarrow> cell_ok (StructCell fs) \<Longrightarrow>
     cell_ok (StructCell fs') \<and> cell_shape (StructCell fs') = cell_shape (StructCell fs)"
  "load_cell rd env fi c = (c', err) \<Longrightarrow> cell_ok c \<Longrightarrow> cell_ok c' \<and> cell_shape c' = cell_shape c"
proof (induction rd env fs and rd env fi c arbitrary: fs' err and c' err rule: load_from_env_load_cell.induct)
  case (2 rd env fi c fs)
  obtain d e where d: "load_cell rd env fi c = (d, e)" by (rule prod.exhaust)
  obtain gs e' where gs: "load_from_env rd env fs = (gs, e')" by (rule prod.exhaust)
  have c: "cell_ok c" "cell_ok (StructCell fs)" using 2(5) by simp_all
  show ?case
  proof (cases "fi_exported fi")
    case False
    then show ?thesis using 2(1) [of gs e'] 2(4) c gs by auto
  next
    case True
    then show ?thesis
      using 2(2) [of d e] 2(3) [of d e gs e'] 2(4) c d gs by (cases e) auto
  qed
next
  case (3 rd env fi gs)
  then show ?case by (auto split: prod.splits)
qed (auto split: sum.splits dest: load_field_ok)

text \<open>
  The fields \<open>loadFromEnv\<close> reaches, in the order it sets them: those of nested structs in
  their place, nothing below a field that is not exported.
\<close>

fun leaves :: "(field_info \<times> 'f cell) list \<Rightarrow> (field_info \<times> 'f cell) list"
  and cell_leaves :: "field_info \<Rightarrow> 'f cell \<Rightarrow> (field_info \<times> 'f cell) list" where
  "leaves [] = []"
| "leaves ((fi, c) # fs) = (if fi_exported fi then cell_leaves fi c else []) @ leaves fs"
| "cell_leaves fi (StructCell gs) = leaves gs"
| "cell_leaves fi c = [(fi, c)]"

text \<open>Leaf by leaf: everything is set, or everything before the first error.\<close>

definition set_from :: "'f num_reader \<Rightarrow> (string \<Rightarrow> string) \<Rightarrow> field_info \<times> 'f cell \<Rightarrow> field_info \<times> 'f cell \<Rightarrow> bool" where
  "set_from rd env = (\<lambda>(fi, c) (fi', c'). fi' = fi \<and> load_field rd env fi c = Inr c')"

definition loaded ::
  "'f num_reader \<Rightarrow> (string \<Rightarrow> string) \<Rightarrow> (field_info \<times> 'f cell) list \<Rightarrow> (field_info \<times> 'f cell) list \<Rightarrow>
   env_error option \<Rightarrow> bool" where
  "loaded rd env xs ys err \<longleftrightarrow>
     (case err of
        None \<Rightarrow> list_all2 (set_from rd env) xs ys
      | Some e \<Rightarrow> \<exists>pre pre' fi c post. xs = pre @ (fi, c) # post \<and> ys = pre' @ (fi, c) # post \<and>
          list_all2 (set_from rd env) pre pre' \<and> load_field rd env fi c = Inl e)"

lemma loaded_stop: "loaded rd env xs ys (Some e) \<Longrightarrow> loaded rd env (xs @ zs) (ys @ zs) (Some e)"
  by (fastforce simp: loaded_def)

lemma loaded_go:
  assumes "loaded rd env xs ys None" "loaded rd env xs' ys' err"
  shows "loaded rd env (xs @ xs') (ys @ ys') err"
proof (cases err)
  case None
  with assms show ?thesis by (simp add: loaded_def list_all2_appendI)
next
  case (Some e)
  with assms obtain pre pre' fi c post where "xs' = pre @ (fi, c) # post" "ys' = pre' @ (fi, c) # post"
    "list_all2 (set_from rd env) pre pre'" "load_field rd env fi c = Inl e"
    by (auto simp: loaded_def)
  moreover have "list_all2 (set_from rd env) (xs @ pre) (ys @ pre')"
    using assms(1) calculation(3) by (simp add: loaded_def list_all2_appendI)
  ultimately show ?thesis unfolding loaded_def Some by (simp, metis append.assoc)
qed

lemma set_value_kind: "set_value rd c raw = Inr c' \<Longrightarrow> cell_shape c' = cell_shape c"
  by (cases c) (auto simp: set_value_def split: option.splits)

lemma load_field_kind: "load_field rd env fi c = Inr c' \<Longrightarrow> cell_shape c' = cell_shape c"
  by (auto simp: load_field_def Let_def set_value_kind split: if_splits sum.splits)

lemma leaf_cell: "\<forall>gs. c \<noteq> StructCell gs \<Longrightarrow> cell_leaves fi c = [(fi, c)]"
  by (cases c) auto

lemma leaf_loaded:
  assumes "(case load_field rd env fi c of Inl e \<Rightarrow> (c, Some e) | Inr c' \<Rightarrow> (c', None)) = (c', err)"
    and "\<forall>gs. c \<noteq> StructCell gs"
  shows "loaded rd env (cell_leaves fi c) (cell_leaves fi c') err"
proof (cases "load_field rd env fi c")
  case (Inl e)
  then have "c' = c" "err = Some e" using assms(1) by auto
  then show ?thesis using Inl assms(2) by (force simp: leaf_cell loaded_def)
next
  case (Inr d)
  then have "cell_shape d = cell_shape c" by (rule load_field_kind)
  then have "\<forall>gs. d \<noteq> StructCell gs" using assms(2) by (cases c) auto
  moreover have "c' = d" "err = None" using assms(1) Inr by auto
  ultimately show ?thesis using assms(2) Inr by (simp add: leaf_cell loaded_def set_from_def)
qed

lemma load_leaves:
  "load_from_env rd env fs = (fs', err) \<Longrightarrow> loaded rd env (leaves fs) (leaves fs') err"
  "load_cell rd env fi c = (c', err) \<Longrightarrow> loaded rd env (cell_leaves fi c) (cell_leaves fi c') err"
proof (induction rd env fs and rd env fi c arbitrary: fs' err and c' err rule: load_from_env_load_cell.induct)
  case (1 rd env)
  then show ?case by (simp add: loaded_def)
next
  case (2 rd env fi c fs)
  show ?case
  proof (cases "fi_exported fi")
    case False
    then show ?thesis using 2(1,4) by (auto split: prod.splits)
  next
    case True
    obtain d e where c: "load_cell rd env fi c = (d, e)" by (rule prod.exhaust)
    then have l: "loaded rd env (cell_leaves fi c) (cell_leaves fi d) e" using 2(2) True by blast
    show ?thesis
    proof (cases e)
      case (Some x)
      then have "fs' = (fi, d) # fs" "err = Some x" using 2(4) True c by auto
      then show ?thesis using loaded_stop [OF l [unfolded Some]] True by simp
    next
      case None
      obtain gs where g: "load_from_env rd env fs = (gs, err)" "fs' = (fi, d) # gs"
        using 2(4) True c None by (auto split: prod.splits)
      then have "loaded rd env (leaves fs) (leaves gs) err" using 2(3) True c None by force
      then show ?thesis using loaded_go [OF l [unfolded None]] g(2) True by simp
    qed
  qed
next
  case (3 rd env fi gs)
  then show ?case by (auto split: prod.splits)
qed (auto intro: leaf_loaded simp del: cell_leaves.simps)

text \<open>
  Loading walks nested structs as one list of fields: without an error every exported
  field is set from its environment variable or default (or kept when both are empty and it is
  not required); with an error exactly the fields before the first bad one are set, and
  everything behind it is as it was.
\<close>

theorem env_loads_field_by_field:
  "case load_from_env rd env fs of (fs', err) \<Rightarrow> loaded rd env (leaves fs) (leaves fs') err"
  by (auto intro: load_leaves split: prod.split)


definition demo_tag :: "string \<Rightarrow> string \<Rightarrow> field_info" where
  "demo_tag key fallback =
     \<lparr>fi_exported = True, fi_tag = (\<lambda>_. [])(''env'' := key, ''default'' := fallback, ''required'' := ''true'')\<rparr>"

definition demo_config :: "(field_info \<times> unit cell) list" where
  "demo_config =
     [(demo_tag ''PORT'' ''8080'', IntCell 8 0),
      (demo_tag [] [], StructCell [(demo_tag ''DEBUG'' [], BoolCell False)]),
      (demo_tag ''NAME'' ''elgon'', StringCell [])]"

definition demo_reader :: "unit num_reader" where
  "demo_reader = \<lparr>nr_frac = (\<lambda>f k unit. f * unit div 10 ^ k), nr_float = (\<lambda>s. None), nr_round32 = id\<rparr>"


text \<open>
  A number too large for its field is no error: the field gets the low bits, which is the
  number that was written exactly when it fits. The package comment promises strict typed
  loading.
\<close>

theorem narrow_fields_wrap:
  assumes "0 < w" "parse_int64 raw = Some v"
  shows "\<exists>i'. set_value rd (IntCell w i) raw = Inr (IntCell w i') \<and>
    - (2 ^ (w - 1)) \<le> i' \<and> i' < 2 ^ (w - 1) \<and> i' mod 2 ^ w = v mod 2 ^ w \<and>
    (i' = v \<longleftrightarrow> - (2 ^ (w - 1)) \<le> v \<and> v < 2 ^ (w - 1))"
proof -
  have "wrap_int w v mod 2 ^ w = v mod 2 ^ w"
    by (simp add: wrap_int_def mod_diff_left_eq)
  then show ?thesis
    using assms wrap_int_bounds [OF assms(1), of v] wrap_int_id_iff [OF assms(1), of v]
    by (simp add: set_value_def)
qed

theorem narrow_fields_wrap_example: "set_value demo_reader (IntCell 8 0) ''300'' = Inr (IntCell 8 44)"
proof -
  have "parse_int64 ''300'' = Some 300" by code_simp
  from narrow_fields_wrap [OF _ this, of 8 demo_reader 0] obtain i' where
    i: "set_value demo_reader (IntCell 8 0) ''300'' = Inr (IntCell 8 i')"
    and "- 128 \<le> i'" "i' < 128" "i' mod 256 = (44 :: int)" by auto
  then have "i' div 256 * 256 + 44 = i'" using div_mult_mod_eq [of i' 256] by simp
  with \<open>- 128 \<le> i'\<close> \<open>i' < 128\<close> have "i' div 256 = 0" by linarith
  with \<open>i' div 256 * 256 + 44 = i'\<close> have "i' = 44" by simp
  with i show ?thesis by simp
qed

section \<open>Structs of strings\<close>

text \<open>The tags of a field and the settings of the programs, which are strings with defaults.\<close>

definition env_tag :: "string \<Rightarrow> string \<Rightarrow> field_info" where
  "env_tag key fallback =
     \<lparr>fi_exported = True, fi_tag = (\<lambda>_. [])(''env'' := key, ''default'' := fallback)\<rparr>"

definition text_cell :: "(field_info \<times> 'n cell) list \<Rightarrow> nat \<Rightarrow> string" where
  "text_cell cells i = (case snd (cells ! i) of StringCell v \<Rightarrow> v | _ \<Rightarrow> [])"

definition text_setting :: "(string \<Rightarrow> string) \<Rightarrow> string \<Rightarrow> string \<Rightarrow> string" where
  "text_setting env key fallback = raw_value env key (env_tag key fallback)"

lemma text_setting_default: "env key = [] \<Longrightarrow> text_setting env key fallback = trim_space fallback"
  by (simp add: text_setting_def raw_value_def env_tag_def)

lemma text_cell_simps [simp]:
  "text_cell ((fi, StringCell v) # cells) 0 = v" "text_cell (f # cells) (Suc n) = text_cell cells n"
  by (simp_all add: text_cell_def)

lemma load_text_field:
  assumes "trim_space key = key" "key \<noteq> []"
  shows "load_from_env rd env ((env_tag key fallback, StringCell []) # cells) =
    (case load_from_env rd env cells of (cells', err) \<Rightarrow>
       ((env_tag key fallback, StringCell (text_setting env key fallback)) # cells', err))"
  using assms by (simp add: text_setting_def env_tag_def load_field_def set_value_def Let_def)

end
