(* ===== verification/Prod_Api.thy ===== *)
theory Prod_Api imports Web_Serving Prod_Repo Jobs_Sql Db_Sql Migrate Config_Env begin

text \<open>
  The production example (examples/prod-api): its handlers (internal/http/handlers.go) and the
  application that cmd/api/main.go builds over a SQL database, which the repository and the queue
  of jobs share. Opening the database and running the migrations come before (theories
  \<open>Db_Sql\<close> and \<open>Migrate\<close>), and the worker that only logs runs beside the requests.
\<close>

record ('d, 'f) prod_world = "'f server" +
  pw_once :: bool
  pw_db :: 'd

text \<open>
  The fields of \<open>Handlers\<close>. The queue runs on the database and the \<open>sync.Once\<close> of its backend; its
  ids and times come from the surroundings of the request.
\<close>

record 'd prod_api =
  pa_bodies :: body_codec
  pa_enc :: "json_body \<Rightarrow> string + string"
  pa_jwt :: jwt_codec
  pa_seconds :: "int \<Rightarrow> int"
  pa_secret :: string
  pa_times :: time_lib
  pa_dialect :: string
  pa_adapter :: "'d adapter"
  pa_queue :: "(server_env \<Rightarrow> message \<Rightarrow> bool \<times> 'd \<Rightarrow> job_error option \<times> bool \<times> 'd) option"

definition prod_todo_json :: "prod_todo \<Rightarrow> val" where
  "prod_todo_json t = VMap
     [(''id'', VInt (pt_id t)), (''title'', VStr (pt_title t)), (''done'', VBool (pt_done t)),
      (''created_at'', VOpaque (pt_created_at t))]"

definition prod_user_json :: "prod_user \<Rightarrow> val" where
  "prod_user_json u = VMap
     [(''id'', VInt (pu_id u)), (''email'', VStr (pu_email u)), (''name'', VStr (pu_name u)),
      (''created_at'', VOpaque (pu_created_at u))]"

section \<open>Handlers\<close>

definition prod_health :: "'d prod_api \<Rightarrow> ('d, 'f) prod_world handler" where
  "prod_health api c s = answer_json (pa_enc api) 200 (VMap [(''status'', VStr ''ok'')]) c s"

definition prod_claims_of :: "string \<Rightarrow> claims" where
  "prod_claims_of email =
     \<lparr>cl_sub = email, cl_email = email, cl_roles = [''user''], cl_perms = [''todos:read'', ''todos:write'', ''users:write''],
      cl_exp = 0, cl_iat = 0\<rparr>"

definition prod_login :: "'d prod_api \<Rightarrow> ('d, 'f) prod_world handler" where
  "prod_login api c s =
     (case bind_fields (pa_bodies api) [''email''] c of
        Inl e \<Rightarrow> fail_with e c s
      | Inr req \<Rightarrow>
          (let email = trim_space (to_lower (req ''email'')) in
           if email = [] then fail_with (err_bad_request ''email is required'' VNil) c s
           else
             (case jwt_sign (pa_jwt api) (pa_seconds api) (pa_secret api) (ev_now (sv_env s)) (prod_claims_of email)
                     (24 * 60 * 60 * 1000000000) of
                Inl e \<Rightarrow> fail_with (err_internal ''token generation failed'') c s
              | Inr token \<Rightarrow>
                  answer_json (pa_enc api) 200
                    (VMap [(''access_token'', VStr token), (''token_type'', VStr ''Bearer'')]) c s)))"

definition prod_create_user :: "'d prod_api \<Rightarrow> ('d, 'f) prod_world handler" where
  "prod_create_user api c s =
     (case bind_fields (pa_bodies api) [''email'', ''name''] c of
        Inl e \<Rightarrow> fail_with e c s
      | Inr req \<Rightarrow>
          (let email = trim_space (to_lower (req ''email'')); name = trim_space (req ''name'') in
           if email = [] then fail_with (err_bad_request ''email is required'' VNil) c s
           else if name = [] then fail_with (err_bad_request ''name is required'' VNil) c s
           else
             (case repo_create_user (pa_times api) (pa_dialect api) (pa_adapter api) (ev_time (sv_env s)) email name (pw_db s) of
                (Inl e, d) \<Rightarrow>
                  fail_with (if sublist ''unique'' (to_lower e) then err_conflict ''user already exists''
                             else err_internal ''failed to create user'') c (s\<lparr>pw_db := d\<rparr>)
              | (Inr u, d) \<Rightarrow> answer_json (pa_enc api) 201 (prod_user_json u) c (s\<lparr>pw_db := d\<rparr>))))"

definition prod_list_todos :: "'d prod_api \<Rightarrow> ('d, 'f) prod_world handler" where
  "prod_list_todos api c s =
     (case repo_list (pa_times api) (pa_adapter api) (pw_db s) of
        (Inl e, d) \<Rightarrow> fail_with (err_internal ''failed to list todos'') c (s\<lparr>pw_db := d\<rparr>)
      | (Inr items, d) \<Rightarrow> answer_json (pa_enc api) 200 (VList (map prod_todo_json items)) c (s\<lparr>pw_db := d\<rparr>))"

definition prod_enqueue :: "'d prod_api \<Rightarrow> message \<Rightarrow> ('d, 'f) prod_world \<Rightarrow> ('d, 'f) prod_world" where
  "prod_enqueue api m s =
     (case pa_queue api of
        None \<Rightarrow> s
      | Some enqueue \<Rightarrow> (case enqueue (sv_env s) m (pw_once s, pw_db s) of (e, once, d) \<Rightarrow> s\<lparr>pw_once := once, pw_db := d\<rparr>))"

definition prod_create_todo :: "'d prod_api \<Rightarrow> ('d, 'f) prod_world handler" where
  "prod_create_todo api c s =
     (case bind_fields (pa_bodies api) [''title''] c of
        Inl e \<Rightarrow> fail_with e c s
      | Inr req \<Rightarrow>
          (let title = trim_space (req ''title'') in
           if title = [] then fail_with (err_bad_request ''title is required'' VNil) c s
           else
             (case repo_create (pa_times api) (pa_dialect api) (pa_adapter api) (ev_time (sv_env s)) title (pw_db s) of
                (Inl e, d) \<Rightarrow> fail_with (err_internal ''failed to create todo'') c (s\<lparr>pw_db := d\<rparr>)
              | (Inr t, d) \<Rightarrow>
                  answer_json (pa_enc api) 201 (prod_todo_json t) c
                    (prod_enqueue api \<lparr>msg_name = ''todo.created'', msg_payload = show_int (pt_id t)\<rparr> (s\<lparr>pw_db := d\<rparr>)))))"

definition prod_mark_done :: "'d prod_api \<Rightarrow> ('d, 'f) prod_world handler" where
  "prod_mark_done api c s =
     (case parse_int64 (ctx_param c ''id'') of
        None \<Rightarrow> fail_with (err_bad_request ''invalid id'' VNil) c s
      | Some i \<Rightarrow>
          (case repo_mark_done (pa_times api) (pa_dialect api) (pa_adapter api) i (pw_db s) of
             (Inl e, d) \<Rightarrow> fail_with (err_internal ''failed to update todo'') c (s\<lparr>pw_db := d\<rparr>)
           | (Inr None, d) \<Rightarrow> fail_with (err_not_found ''todo not found'') c (s\<lparr>pw_db := d\<rparr>)
           | (Inr (Some t), d) \<Rightarrow> answer_json (pa_enc api) 200 (prod_todo_json t) c (s\<lparr>pw_db := d\<rparr>)))"

section \<open>The application\<close>

text \<open>\<open>appConfig\<close>, with the path that stands in for the DSN of SQLite, and the configuration of the jobs.\<close>

record prod_config =
  pc_addr :: string
  pc_driver :: string
  pc_dsn :: string
  pc_dialect :: string
  pc_path :: string
  pc_secret :: string

text \<open>The tags of \<open>appConfig\<close>, the struct before it is loaded, and the loaded struct.\<close>

definition prod_fields :: "(field_info \<times> 'n cell) list" where
  "prod_fields =
     [(env_tag ''APP_ADDR'' '':8090'', StringCell []),
      (env_tag ''APP_NAME'' ''elgon-prod-api'', StringCell []),
      (env_tag ''APP_DB_DRIVER'' ''sqlite'', StringCell []),
      (env_tag ''APP_DB_DSN'' ''./prod.db'', StringCell []),
      (env_tag ''APP_DB_DIALECT'' ''sqlite'', StringCell []),
      (env_tag ''APP_DB_PATH'' [], StringCell []),
      (env_tag ''APP_JWT_SECRET'' ''change-me'', StringCell [])]"

definition prod_config_of :: "(field_info \<times> 'n cell) list \<Rightarrow> prod_config" where
  "prod_config_of cells =
     \<lparr>pc_addr = text_cell cells 0, pc_driver = text_cell cells 2, pc_dsn = text_cell cells 3,
      pc_dialect = text_cell cells 4, pc_path = text_cell cells 5, pc_secret = text_cell cells 6\<rparr>"

lemma trim_space_defaults:
  "trim_space ''APP_ADDR'' = ''APP_ADDR''" "trim_space ''APP_NAME'' = ''APP_NAME''"
  "trim_space ''APP_DB_DRIVER'' = ''APP_DB_DRIVER''" "trim_space ''APP_DB_DSN'' = ''APP_DB_DSN''"
  "trim_space ''APP_DB_DIALECT'' = ''APP_DB_DIALECT''" "trim_space ''APP_DB_PATH'' = ''APP_DB_PATH''"
  "trim_space ''APP_JWT_SECRET'' = ''APP_JWT_SECRET''" "trim_space '':8090'' = '':8090''"
  "trim_space ''elgon-prod-api'' = ''elgon-prod-api''" "trim_space ''sqlite'' = ''sqlite''"
  "trim_space ''./prod.db'' = ''./prod.db''" "trim_space ''change-me'' = ''change-me''"
  by code_simp+

text \<open>Loading never fails, and without settings the program signs its tokens with the known default secret.\<close>

definition prod_settings :: "(string \<Rightarrow> string) \<Rightarrow> prod_config" where
  "prod_settings env =
     \<lparr>pc_addr = text_setting env ''APP_ADDR'' '':8090'', pc_driver = text_setting env ''APP_DB_DRIVER'' ''sqlite'',
      pc_dsn = text_setting env ''APP_DB_DSN'' ''./prod.db'', pc_dialect = text_setting env ''APP_DB_DIALECT'' ''sqlite'',
      pc_path = text_setting env ''APP_DB_PATH'' [], pc_secret = text_setting env ''APP_JWT_SECRET'' ''change-me''\<rparr>"

lemma prod_env_loads:
  "\<exists>cells. load_env rd env prod_fields = (cells, None) \<and> prod_config_of cells = prod_settings env"
  by (simp add: load_env_def prod_fields_def load_text_field trim_space_defaults del: load_from_env.simps(2))
    (simp add: prod_config_of_def text_cell_def prod_settings_def)

lemma prod_settings_default:
  "\<forall>key. env key = [] \<Longrightarrow> prod_settings env =
     \<lparr>pc_addr = '':8090'', pc_driver = ''sqlite'', pc_dsn = ''./prod.db'', pc_dialect = ''sqlite'', pc_path = [],
      pc_secret = ''change-me''\<rparr>"
  by (simp add: prod_settings_def text_setting_default trim_space_defaults)

definition prod_dsn :: "prod_config \<Rightarrow> string" where
  "prod_dsn cfg =
     (if pc_path cfg \<noteq> [] \<and> pc_dsn cfg = ''./prod.db'' \<and> equal_fold (pc_driver cfg) ''sqlite'' then pc_path cfg
      else pc_dsn cfg)"

definition prod_jobs :: "string \<Rightarrow> prod_config \<Rightarrow> sql_config" where
  "prod_jobs rand cfg =
     new_sql_backend rand
       \<lparr>sc_table = ''elgon_jobs'', sc_dialect = pc_dialect cfg, sc_node_id = [], sc_poll_interval = 0, sc_retry_delay = 0\<rparr>"

text \<open>The handlers of \<open>main\<close>: \<open>ids\<close> are the random id of a job and its time.\<close>

definition prod_handlers ::
  "body_codec \<Rightarrow> (json_body \<Rightarrow> string + string) \<Rightarrow> jwt_codec \<Rightarrow> (int \<Rightarrow> int) \<Rightarrow> time_lib \<Rightarrow> (server_env \<Rightarrow> string \<times> int) \<Rightarrow>
   string \<Rightarrow> prod_config \<Rightarrow> 'd adapter \<Rightarrow> 'd prod_api" where
  "prod_handlers bodies enc jc seconds clock ids rand cfg a =
     \<lparr>pa_bodies = bodies, pa_enc = enc, pa_jwt = jc, pa_seconds = seconds, pa_secret = pc_secret cfg, pa_times = clock,
      pa_dialect = pc_dialect cfg, pa_adapter = a,
      pa_queue = Some (\<lambda>env m st. sql_enqueue (prod_jobs rand cfg) a (fst (ids env)) (snd (ids env)) m st)\<rparr>"

text \<open>What \<open>main\<close> does before it builds the application: open, load, migrate. An error ends the program.\<close>

datatype start_error = CannotOpen string | CannotLoad load_error | CannotMigrate mig_error

definition prod_start ::
  "(string \<Rightarrow> string \<Rightarrow> string + 'd sql_handle) \<Rightarrow> string + dir_entry list \<Rightarrow> ('d adapter \<Rightarrow> 'd prod_api) \<Rightarrow> prod_config \<Rightarrow> 'd \<Rightarrow>
   (start_error + 'd prod_api) \<times> 'd" where
  "prod_start sql_open entries handlers cfg d =
     (case open_sql sql_open (pc_driver cfg) (prod_dsn cfg) of
        Inl e \<Rightarrow> (Inl (CannotOpen e), d)
      | Inr a \<Rightarrow>
          (case load (pc_dialect cfg) entries of
             Inl e \<Rightarrow> (Inl (CannotLoad e), d)
           | Inr migs \<Rightarrow>
               (case mig_up (new_engine (pc_dialect cfg)) a migs 0 d of
                  ((n, Some e), d') \<Rightarrow> (Inl (CannotMigrate e), d')
                | ((n, None), d') \<Rightarrow> (Inr (handlers a), d'))))"

definition prod_guards :: "'d prod_api \<Rightarrow> string \<Rightarrow> ('d, 'f) prod_world middleware list" where
  "prod_guards api perm = [server_auth (pa_jwt api) (pa_secret api), require_perm perm]"

definition prod_routes ::
  "'d prod_api \<Rightarrow> (64 word \<Rightarrow> string) \<Rightarrow> ('d, 'f) prod_world handler \<Rightarrow>
   (('d, 'f) prod_world app \<Rightarrow> ('d, 'f) prod_world app \<times> bool) list" where
  "prod_routes api seconds json =
     (let todo_api = app_group ''/api/v1'' (prod_guards api ''todos:write'');
          user_api = app_group ''/api/v1'' (prod_guards api ''users:write'') in
      [register_metrics_route sv_metrics seconds ''/metrics'',
       app_route ''GET'' ''/healthz'' (prod_health api) [],
       app_route ''POST'' ''/auth/login'' (prod_login api) [],
       group_route todo_api ''GET'' ''/todos'' (prod_list_todos api) [],
       group_route todo_api ''POST'' ''/todos'' (prod_create_todo api) [],
       group_route todo_api ''PATCH'' ''/todos/:id/done'' (prod_mark_done api) [],
       group_route user_api ''POST'' ''/users'' (prod_create_user api) [],
       register_docs docs_html_handler json ''/openapi.json'' ''/docs''])"

definition prod_type :: "string \<Rightarrow> gtype" where
  "prod_type name = Declared ''github.com/dmesha3/elgon/examples/prod-api/internal/domain'' name"

definition prod_docs :: "'f generator" where
  "prod_docs =
     add_operation ''POST'' ''/api/v1/users''
       (no_operation\<lparr>op_summary := ''Create user'', op_operation_id := ''createUser'', op_tags := [''users''],
         op_requires_auth := True, op_request_model := Some (prod_type ''CreateUserRequest''),
         op_response_model := Some (prod_type ''User''), op_response_code := 201\<rparr>)
       (enable_bearer_auth
         ((new_generator ''elgon prod API'' elgon_version)
           \<lparr>ge_description := ''Production-style sample using DB, migrations, auth, observability, and distributed jobs.''\<rparr>))"

definition prod_main ::
  "'d prod_api \<Rightarrow> (64 word \<Rightarrow> string) \<Rightarrow> ('d, 'f) prod_world handler \<Rightarrow> string \<Rightarrow> ('d, 'f) prod_world app option" where
  "prod_main api seconds json addr =
     register_all (prod_routes api seconds json)
       (app_use standard_middleware (new_app (pa_enc api) (addr_config addr)))"

section \<open>Access\<close>

text \<open>
  The contract of every route: the database stands still for a request without a verified token
  that has one of the two permissions. The todo routes need \<open>todos:write\<close> and the user route
  \<open>users:write\<close>, so the one of the route is the one that counts.
\<close>

definition prod_contract :: "'d prod_api \<Rightarrow> string \<Rightarrow> request \<Rightarrow> ('d, 'f) prod_world \<Rightarrow> ('d, 'f) prod_world \<Rightarrow> bool" where
  "prod_contract api perm r s s' \<longleftrightarrow>
     (pw_db s' \<noteq> pw_db s \<or> pw_once s' \<noteq> pw_once s \<longrightarrow> may (pa_jwt api) (pa_secret api) perm (ev_now (sv_env s)) r)"

interpretation prod: server_contract "prod_contract api perm" for api perm
  by unfold_locales (simp_all add: prod_contract_def)

lemma prod_guarded: "handler_keeps (prod_contract api perm) (chain h (prod_guards api perm))"
  unfolding prod_guards_def by (rule prod.guarded_route) (simp add: prod_contract_def)

lemma prod_health_keeps: "handler_keeps (prod_contract api perm) (prod_health api)"
  by (rule prod.answering) (simp add: prod_health_def)

lemma prod_login_keeps: "handler_keeps (prod_contract api perm) (prod_login api)"
  by (rule prod.answering) (simp add: prod_login_def Let_def split: sum.split)

text \<open>Which permission a route of the application needs.\<close>

definition prod_perm :: "string \<Rightarrow> string" where
  "prod_perm p = (if p = ''/api/v1/users'' then ''users:write'' else ''todos:write'')"

definition prod_route_ok :: "'d prod_api \<Rightarrow> string \<Rightarrow> string \<Rightarrow> ('d, 'f) prod_world handler \<Rightarrow> bool" where
  "prod_route_ok api m p h \<longleftrightarrow> handler_keeps (prod_contract api (prod_perm p)) h \<and>
     (prefix ''/api/v1'' p \<longrightarrow>
       refuses (\<lambda>r s. bearer_claims (pa_jwt api) (pa_secret api) (ev_now (sv_env s)) r = None) 401 h)"

lemma prod_open_route:
  "(\<And>perm. handler_keeps (prod_contract api perm) h) \<Longrightarrow> \<not> prefix ''/api/v1'' p \<Longrightarrow>
   prod_route_ok api m p (chain h (standard_middleware @ []))"
  by (simp add: prod_route_ok_def prod.standard_server)

lemma prod_secured_route:
  assumes "perm = prod_perm p"
  shows "prod_route_ok api m p (chain h (standard_middleware @ prod_guards api perm @ []))"
proof -
  have "refuses (\<lambda>r s. bearer_claims (pa_jwt api) (pa_secret api) (ev_now (sv_env s)) r = None) 401
      (chain (chain h (prod_guards api perm)) standard_middleware)"
    by (rule refuses_standard) (unfold prod_guards_def, rule guards_refuse)
  with prod.standard_server [OF prod_guarded] assms show ?thesis
    by (simp add: prod_route_ok_def chain_append)
qed

lemma prod_main_wired:
  fixes json :: "('d, 'f) prod_world handler"
  assumes json: "\<And>perm. handler_keeps (prod_contract api perm) json"
  shows "\<exists>a. prod_main api seconds json addr = Some a \<and> wired (prod_route_ok api) standard_middleware a"
  unfolding prod_main_def
proof (rule register_all_wired)
  show "wired (prod_route_ok api) standard_middleware (app_use standard_middleware (new_app (pa_enc api) (addr_config addr)))"
    by (rule new_app_wired) (simp_all add: addr_config_def prod_route_ok_def prod.health_route)
  fix r and a :: "('d, 'f) prod_world app"
  assume r: "r \<in> set (prod_routes api seconds json)" and a: "wired (prod_route_ok api) standard_middleware a"
  let ?g = "\<lambda>perm. app_group ''/api/v1'' (prod_guards api perm) :: ('d, 'f) prod_world group"
  have g: "grp_mw (?g perm) = prod_guards api perm" "grp_prefix (?g perm) = ''/api/v1''" for perm
    by (simp_all add: app_group_def) code_simp
  have paths: "normalize_path ''/metrics'' = ''/metrics''" "normalize_path ''/healthz'' = ''/healthz''"
      "normalize_path ''/auth/login'' = ''/auth/login''" "normalize_path ''/openapi.json'' = ''/openapi.json''"
      "normalize_path ''/docs'' = ''/docs''"
      "normalize_path (normalize_path (''/api/v1'' @ normalize_path ''/todos'')) = ''/api/v1/todos''"
      "normalize_path (normalize_path (''/api/v1'' @ normalize_path ''/todos/:id/done'')) = ''/api/v1/todos/:id/done''"
      "normalize_path (normalize_path (''/api/v1'' @ normalize_path ''/users'')) = ''/api/v1/users''"
    by code_simp+
  have segments: "wildcard_last (parse_segments ''/metrics'')" "wildcard_last (parse_segments ''/healthz'')"
      "wildcard_last (parse_segments ''/auth/login'')" "wildcard_last (parse_segments ''/openapi.json'')"
      "wildcard_last (parse_segments ''/docs'')" "wildcard_last (parse_segments ''/api/v1/todos'')"
      "wildcard_last (parse_segments ''/api/v1/todos/:id/done'')" "wildcard_last (parse_segments ''/api/v1/users'')"
    by code_simp+
  have perms: "''todos:write'' = prod_perm ''/api/v1/todos''" "''todos:write'' = prod_perm ''/api/v1/todos/:id/done''"
      "''users:write'' = prod_perm ''/api/v1/users''"
    by (simp_all add: prod_perm_def)
  consider "r = register_metrics_route sv_metrics seconds ''/metrics''"
    | "r = app_route ''GET'' ''/healthz'' (prod_health api) []"
    | "r = app_route ''POST'' ''/auth/login'' (prod_login api) []"
    | "r = group_route (?g ''todos:write'') ''GET'' ''/todos'' (prod_list_todos api) []"
    | "r = group_route (?g ''todos:write'') ''POST'' ''/todos'' (prod_create_todo api) []"
    | "r = group_route (?g ''todos:write'') ''PATCH'' ''/todos/:id/done'' (prod_mark_done api) []"
    | "r = group_route (?g ''users:write'') ''POST'' ''/users'' (prod_create_user api) []"
    | "r = register_docs docs_html_handler json ''/openapi.json'' ''/docs''"
    using r unfolding prod_routes_def Let_def by auto
  then show "\<exists>a'. r a = (a', False) \<and> wired (prod_route_ok api) standard_middleware a'"
  proof cases
    case 1
    then show ?thesis
      using register_metrics_wired [OF a, unfolded paths, OF segments(1) prod_open_route [OF prod.metrics_route]] by simp
  next
    case 2
    then show ?thesis
      using wired_route [OF a, of "''/healthz''", unfolded paths, OF segments(2) prod_open_route [OF prod_health_keeps]] by simp
  next
    case 3
    then show ?thesis
      using wired_route [OF a, of "''/auth/login''", unfolded paths, OF segments(3) prod_open_route [OF prod_login_keeps]] by simp
  next
    case 4
    show ?thesis unfolding 4
      by (rule wired_group_route [OF a], unfold g paths) (rule segments(6), rule prod_secured_route [OF perms(1)])
  next
    case 5
    show ?thesis unfolding 5
      by (rule wired_group_route [OF a], unfold g paths) (rule segments(6), rule prod_secured_route [OF perms(1)])
  next
    case 6
    show ?thesis unfolding 6
      by (rule wired_group_route [OF a], unfold g paths) (rule segments(7), rule prod_secured_route [OF perms(2)])
  next
    case 7
    show ?thesis unfolding 7
      by (rule wired_group_route [OF a], unfold g paths) (rule segments(8), rule prod_secured_route [OF perms(3)])
  next
    case 8
    have "prod_route_ok api ''GET'' ''/openapi.json'' (chain json standard_middleware)"
      using prod_open_route [OF json, of "''/openapi.json''" "''GET''"] by simp
    moreover have "prod_route_ok api ''GET'' ''/docs'' (chain (docs_html_handler ''/openapi.json'') standard_middleware)"
      using prod_open_route [OF prod.docs_page, of "''/docs''" api "''GET''" "''/openapi.json''"] by simp
    ultimately show ?thesis
      using register_docs_wired [OF a, of "''/openapi.json''" "''/docs''"] segments(4,5) 8 by (simp add: paths)
  qed
qed

text \<open>
  C12. The production example starts, and no request reaches its database unless its bearer token
  verifies and lists the permission of the route it is served by: \<open>users:write\<close> for the users,
  \<open>todos:write\<close> for the todos; a request without a verified token to a route below \<open>/api/v1\<close> is
  answered 401.
\<close>

theorem prod_api_guards_database:
  "\<exists>a. prod_main api seconds (docs_json_handler env rd st n encd server_docs) addr = Some a \<and>
     (\<forall>c0 w r s s' entry params. s' = snd (snd (serve_http (pa_enc api) a c0 w r s)) \<and>
        router_find (app_router a) (rq_method r) (rq_path r) = (entry, params) \<and> pw_db s' \<noteq> pw_db s \<longrightarrow>
        (\<exists>e. entry = Some e \<and> may (pa_jwt api) (pa_secret api) (prod_perm (re_path e)) (ev_now (sv_env s)) r)) \<and>
     (\<forall>c0 w r s e params. router_find (app_router a) (rq_method r) (rq_path r) = (Some e, params) \<and>
        prefix ''/api/v1'' (re_path e) \<and> bearer_claims (pa_jwt api) (pa_secret api) (ev_now (sv_env s)) r = None \<and>
        ws_sent w = None \<longrightarrow>
        (\<exists>c s' header. serve_http (pa_enc api) a c0 w r s = (None, c, s') \<and> ws_sent (ctx_writer c) = Some (401, header)))"
proof -
  obtain a where a: "prod_main api seconds (docs_json_handler env rd st n encd server_docs) addr = Some a"
      "wired (prod_route_ok api) standard_middleware a"
    using prod_main_wired [OF prod.docs_document] by blast
  then have ok: "serves (prod_route_ok api) a" by (simp add: wired_def)
  have changes: "\<exists>e. entry = Some e \<and> may (pa_jwt api) (pa_secret api) (prod_perm (re_path e)) (ev_now (sv_env s)) r"
    if "s' = snd (snd (serve_http (pa_enc api) a c0 w r s))"
      "router_find (app_router a) (rq_method r) (rq_path r) = (entry, params)" "pw_db s' \<noteq> pw_db s"
    for c0 w r s s' entry params
  proof (cases entry)
    case None
    with that(2) serve_nothing [of a r params "pa_enc api" c0 w s] that(1,3) show ?thesis by simp
  next
    case (Some e)
    with that(2) have f: "router_find (app_router a) (rq_method r) (rq_path r) = (Some e, params)" by simp
    have "handler_keeps (prod_contract api (prod_perm (re_path e))) (re_handler e)"
      using serves_found [OF ok f] by (simp add: prod_route_ok_def)
    from serve_entry_keeps [OF f this, of s "pa_enc api" c0 w] that(1,3) Some show ?thesis
      by (auto simp: prod_contract_def)
  qed
  have refused: "\<exists>c s' header. serve_http (pa_enc api) a c0 w r s = (None, c, s') \<and> ws_sent (ctx_writer c) = Some (401, header)"
    if "router_find (app_router a) (rq_method r) (rq_path r) = (Some e, params)" "prefix ''/api/v1'' (re_path e)"
      "bearer_claims (pa_jwt api) (pa_secret api) (ev_now (sv_env s)) r = None" "ws_sent w = None"
    for c0 w r s e params
  proof (rule refused_response [OF that(1)])
    show "refuses (\<lambda>r s. bearer_claims (pa_jwt api) (pa_secret api) (ev_now (sv_env s)) r = None) 401 (re_handler e)"
      using serves_found [OF ok that(1)] that(2) by (simp add: prod_route_ok_def)
  qed (use that in simp_all)
  show ?thesis
    by (intro exI [of _ a] conjI allI impI)
      (simp_all only: a(1), use changes in blast, use refused in blast)
qed

definition table_api :: "todo_row list prod_api" where
  "table_api = \<lparr>pa_bodies = \<lparr>bc_fields = (\<lambda>names (body, limit). (Inr (\<lambda>name. body), ([], limit))),
       bc_empty = (\<lambda>(body, limit). (Inl DecodeEOF, ([], limit)))\<rparr>,
     pa_enc = plain_enc, pa_jwt = demo_codec, pa_seconds = (\<lambda>ns. ns div 1000000000), pa_secret = ''k'',
     pa_times = clock_lib, pa_dialect = ''sqlite'', pa_adapter = table_adapter, pa_queue = None\<rparr>"

definition table_world :: "(todo_row list, unit) prod_world" where
  "table_world = \<lparr>sv_env = \<lparr>ev_now = 100, ev_time = 9, ev_rand = None, ev_latency = 1, ev_duration = 1\<rparr>,
     sv_metrics = new_metrics, sv_log = [], sv_docs = prod_docs, sv_routes = [], pw_once = False, pw_db = two_rows\<rparr>"

theorem prod_api_guards_database_example:
  "\<exists>a :: (todo_row list, unit) prod_world app. prod_main table_api (\<lambda>d. []) (docs_json_handler (\<lambda>p m. None)
        \<lparr>rd_float = \<lambda>s. None, rd_json = \<lambda>s. None\<rparr> (\<lambda>code. []) 9 (\<lambda>d. Inr ''{}'') server_docs) '':8090'' = Some a \<and>
     pw_db (snd (snd (serve_http plain_enc a pooled_ctx fresh_writer ((get_request ''/api/v1/todos'')\<lparr>rq_method := ''POST''\<rparr>)
       table_world))) = two_rows"
proof -
  let ?r = "(get_request ''/api/v1/todos'')\<lparr>rq_method := ''POST''\<rparr>"
  have no: "\<not> may (pa_jwt table_api) (pa_secret table_api) perm (ev_now (sv_env table_world)) ?r" for perm
    by (simp add: may_def bearer_claims_def get_request_def bearer_def)
  have enc: "pa_enc table_api = plain_enc" by (simp add: table_api_def)
  from prod_api_guards_database [of table_api "\<lambda>d. []" "\<lambda>p m. None" "\<lparr>rd_float = \<lambda>s. None, rd_json = \<lambda>s. None\<rparr>"
      "\<lambda>code. []" 9 "\<lambda>d. Inr ''{}''" "'':8090''"]
  obtain a :: "(todo_row list, unit) prod_world app" where a: "prod_main table_api (\<lambda>d. []) (docs_json_handler (\<lambda>p m. None)
        \<lparr>rd_float = \<lambda>s. None, rd_json = \<lambda>s. None\<rparr> (\<lambda>code. []) 9 (\<lambda>d. Inr ''{}'') server_docs) '':8090'' = Some a"
      "\<forall>c0 w r s s' entry params. s' = snd (snd (serve_http plain_enc a c0 w r s)) \<and>
        router_find (app_router a) (rq_method r) (rq_path r) = (entry, params) \<and> pw_db s' \<noteq> pw_db s \<longrightarrow>
        (\<exists>e. entry = Some e \<and> may (pa_jwt table_api) (pa_secret table_api) (prod_perm (re_path e)) (ev_now (sv_env s)) r)"
    unfolding enc by (elim exE conjE) (rule that)
  obtain entry params where f: "router_find (app_router a) (rq_method ?r) (rq_path ?r) = (entry, params)" by (metis prod.exhaust)
  have "pw_db (snd (snd (serve_http plain_enc a pooled_ctx fresh_writer ?r table_world))) = pw_db table_world"
  proof (rule ccontr)
    assume "pw_db (snd (snd (serve_http plain_enc a pooled_ctx fresh_writer ?r table_world))) \<noteq> pw_db table_world"
    from a(2) [rule_format, OF conjI [OF refl conjI [OF f this]]] show False using no by blast
  qed
  with a(1) show ?thesis by (simp add: table_world_def)
qed

end
