(* ===== verification/Example_Docs.thy ===== *)
theory Example_Docs imports Demo_Api Prod_Api Openapi_Theorems begin

text \<open>
  The documents of the examples: the types of their packages \<open>domain\<close> as \<open>reflect\<close> shows them, the
  document that \<open>Build\<close> makes of the routes of each program, and whether it says which routes need
  a token. The demo's document does; the one of the production example leaves the todos open.
\<close>

section \<open>The types of the packages domain\<close>

definition tagged_field :: "string \<Rightarrow> (string \<times> string) list \<Rightarrow> field_decl" where
  "tagged_field name tags = \<lparr>fd_name = name, fd_pkg_path = [], fd_anonymous = False, fd_tag = tags\<rparr>"

definition demo_title :: field_decl where
  "demo_title =
     tagged_field ''Title''
       [(''json'', ''title''), (''description'', ''Short todo title''),
        (''openapi'', ''minLength=1,maxLength=120,example=Ship demo app'')]"

definition demo_todo_type :: gtype where
  "demo_todo_type =
     StructOf
       [(tagged_field ''ID'' [(''json'', ''id''), (''openapi'', ''example=1'')], Basic KInt64),
        (demo_title, Basic KString),
        (tagged_field ''Done'' [(''json'', ''done''), (''openapi'', ''example=false'')], Basic KBool),
        (tagged_field ''CreatedAt'' [(''json'', ''created_at''), (''description'', ''Creation timestamp'')], time_type)]"

definition demo_create_type :: gtype where
  "demo_create_type = StructOf [(demo_title, Basic KString)]"

definition demo_login_type :: gtype where
  "demo_login_type =
     StructOf
       [(tagged_field ''Email'' [(''json'', ''email''), (''openapi'', ''format=email,example=admin@example.com'')], Basic KString)]"

definition demo_token_type :: gtype where
  "demo_token_type =
     StructOf
       [(tagged_field ''AccessToken'' [(''json'', ''access_token'')], Basic KString),
        (tagged_field ''TokenType'' [(''json'', ''token_type''), (''openapi'', ''example=Bearer'')], Basic KString)]"

definition demo_domain :: type_env where
  "demo_domain pkg name =
     (if Declared pkg name = domain_type ''Todo'' then Some demo_todo_type
      else if Declared pkg name = domain_type ''CreateTodoRequest'' then Some demo_create_type
      else if Declared pkg name = domain_type ''LoginRequest'' then Some demo_login_type
      else if Declared pkg name = domain_type ''LoginResponse'' then Some demo_token_type
      else None)"

definition prod_create_user_type :: gtype where
  "prod_create_user_type =
     StructOf
       [(tagged_field ''Email'' [(''json'', ''email'')], Basic KString),
        (tagged_field ''Name'' [(''json'', ''name'')], Basic KString)]"

definition prod_user_type :: gtype where
  "prod_user_type =
     StructOf
       [(tagged_field ''ID'' [(''json'', ''id'')], Basic KInt64), (tagged_field ''Email'' [(''json'', ''email'')], Basic KString),
        (tagged_field ''Name'' [(''json'', ''name'')], Basic KString),
        (tagged_field ''CreatedAt'' [(''json'', ''created_at'')], time_type)]"

definition prod_domain :: type_env where
  "prod_domain pkg name =
     (if Declared pkg name = prod_type ''CreateUserRequest'' then Some prod_create_user_type
      else if Declared pkg name = prod_type ''User'' then Some prod_user_type
      else None)"

section \<open>Documents that are built\<close>

text \<open>A struct of basic fields and times: two levels of recursion are enough.\<close>

definition time_apart :: "type_env \<Rightarrow> bool" where
  "time_apart env \<longleftrightarrow> env ''time'' ''Time'' = None"

definition flat_field :: "field_decl \<times> gtype \<Rightarrow> bool" where
  "flat_field f \<longleftrightarrow> snd f = time_type \<or> (case snd f of Basic k \<Rightarrow> True | _ \<Rightarrow> False)"

definition flat_struct :: "type_env \<Rightarrow> gtype \<Rightarrow> bool" where
  "flat_struct env t \<longleftrightarrow>
     (case underlying env (fst (unwrap_type t)) of StructOf fds \<Rightarrow> list_all flat_field fds | _ \<Rightarrow> False)"

lemma flat_field_schema:
  assumes "flat_field (fd, t)" "time_apart env"
  shows "field_schema env rd (Suc n) tname t comps \<noteq> None"
  using assms
  by (auto simp: time_apart_def flat_field_def field_schema_def shared_field_def is_struct_def build_schema.simps(2) time_type_def
      underlying_def Let_def split: basic_kind.split gtype.splits)

lemma flat_properties:
  assumes "time_apart env"
  shows "list_all flat_field fds \<Longrightarrow> build_properties env rd (Suc n) tname fds props req comps \<noteq> None"
proof (induction fds arbitrary: props req comps)
  case (Cons f fds)
  obtain fd t where f: "f = (fd, t)" by (cases f)
  with Cons.prems flat_field_schema [OF _ assms] obtain s c where
    "field_schema env rd (Suc n) tname t comps = Some (s, c)" by fastforce
  with Cons f show ?case by (auto simp: build_properties_Cons)
qed simp

lemma flat_struct_schema:
  assumes "flat_struct env t" "time_apart env"
  shows "build_schema env rd 2 t comps \<noteq> None"
proof (cases "fst (unwrap_type t) = time_type")
  case True
  then show ?thesis by (simp add: build_schema.simps(2) numeral_2_eq_2)
next
  case False
  then show ?thesis using assms flat_properties [OF assms(2), of _ rd 0]
    by (auto simp: flat_struct_def numeral_2_eq_2 build_schema_struct split: gtype.splits)
qed

definition flat_model :: "type_env \<Rightarrow> gtype option \<Rightarrow> bool" where
  "flat_model env m \<longleftrightarrow>
     (case m of None \<Rightarrow> True | Some t \<Rightarrow> flat_struct env t \<or> type_name (fst (unwrap_type t)) = [])"

lemma flat_model_body:
  assumes "flat_model env m" "time_apart env"
  shows "model_body env rd 2 m ex comps \<noteq> None"
proof (cases m)
  case (Some t)
  have "build_schema env rd 2 (fst (unwrap_type t)) comps \<noteq> None" if "flat_struct env t"
    using flat_struct_schema [OF _ assms(2), of "fst (unwrap_type t)"] that by (simp add: flat_struct_def)
  with assms(1) Some show ?thesis
    by (auto simp: flat_model_def model_body_def ensure_schema_def Let_def)
qed (simp add: model_body_def)

definition flat_operation :: "type_env \<Rightarrow> 'f operation \<Rightarrow> bool" where
  "flat_operation env op \<longleftrightarrow> flat_model env (op_request_model op) \<and> flat_model env (op_response_model op)"

lemma flat_paths:
  assumes "time_apart env"
  shows "\<forall>(m, p) \<in> set rs. flat_operation env (operation_of g m p) \<Longrightarrow>
    build_paths env rd st 2 g rs paths secured comps \<noteq> None"
proof (induction rs arbitrary: paths secured comps)
  case (Cons r rs)
  obtain m p where r: "r = (m, p)" by (cases r)
  let ?op = "operation_of g m p"
  have flat: "flat_model env (op_request_model ?op)" "flat_model env (op_response_model ?op)"
    using Cons.prems r by (auto simp: flat_operation_def)
  obtain b1 c1 where b1: "model_body env rd 2 (op_request_model ?op) (op_request_example ?op) comps = Some (b1, c1)"
    using flat_model_body [OF flat(1) assms] by fastforce
  obtain b2 c2 where "model_body env rd 2 (op_response_model ?op) (op_response_example ?op) c1 = Some (b2, c2)"
    using flat_model_body [OF flat(2) assms] by fastforce
  with b1 have "route_entry_of env rd st 2 g (m, p) comps \<noteq> None" by (simp add: route_entry_of_op)
  with Cons r show ?case by (auto simp: Let_def split: option.split)
qed simp

lemma flat_document:
  assumes "time_apart env" "\<forall>(m, p) \<in> set (app_routes a). flat_operation env (operation_of g m p)"
  obtains d g' where "build_document env rd st 2 a g = Some (d, g')"
    and "\<And>m p. (m, p) \<in> set (app_routes a) \<Longrightarrow> inj_on (\<lambda>(m, p). (to_openapi_path p, to_lower m)) (set (app_routes a)) \<Longrightarrow>
      do_paths d (to_openapi_path p) (to_lower m) = Some (described st g (m, p))"
    and "do_security_scheme d \<longleftrightarrow> ge_bearer_auth g \<or> (\<exists>(m, p) \<in> set (app_routes a). op_requires_auth (operation_of g m p))"
proof -
  obtain paths secured c where b: "build_paths env rd st 2 g (app_routes a) (\<lambda>tpl method. None)
      (ge_bearer_auth g) (ge_schemas g) = Some (paths, secured, c)"
    using flat_paths [OF assms] by fastforce
  then obtain d g' where d: "build_document env rd st 2 a g = Some (d, g')" "do_security_scheme d = secured"
    by (auto simp: build_document_def build_routes_document_def Let_def)
  have "do_paths d (to_openapi_path p) (to_lower m) = Some (described st g (m, p))"
    if mp: "(m, p) \<in> set (app_routes a)" and inj: "inj_on (\<lambda>(m, p). (to_openapi_path p, to_lower m)) (set (app_routes a))"
    for m p
  proof -
    obtain e where e: "do_paths d (to_openapi_path p) (to_lower m) = Some e"
      using fold_add_entry_there [of "\<lambda>tpl verb. None" "to_openapi_path p" "to_lower m" "app_routes a" st g] mp
        build_document_facts(1) [OF d(1)] by force
    then obtain r where r: "r \<in> set (app_routes a)" "to_openapi_path p = to_openapi_path (snd r)"
        "to_lower m = to_lower (fst r)" "e = described st g r"
      using fold_add_entry [of st g "app_routes a" "\<lambda>tpl verb. None"] build_document_facts(1) [OF d(1)] by force
    with inj mp have "r = (m, p)" by (auto simp: inj_on_def split: prod.splits)
    with e r(4) show ?thesis by simp
  qed
  moreover have "do_security_scheme d \<longleftrightarrow> ge_bearer_auth g \<or> (\<exists>(m, p) \<in> set (app_routes a). op_requires_auth (operation_of g m p))"
    using build_paths_fold(2) [OF b] d(2) by (simp add: case_prod_beta)
  ultimately show thesis by (rule that [OF d(1)])
qed

section \<open>The routes of the programs\<close>

text \<open>What a registration adds to the list of routes.\<close>

definition adds :: "('w app \<Rightarrow> 'w app \<times> bool) \<Rightarrow> (string \<times> string) list \<Rightarrow> bool" where
  "adds reg rs \<longleftrightarrow> (\<forall>a. \<exists>a'. reg a = (a', False) \<and> app_routes a' = app_routes a @ rs)"

lemma adds_route: "wildcard_last (parse_segments (normalize_path p)) \<Longrightarrow> adds (app_route m p h mw) [(m, normalize_path p)]"
  unfolding adds_def
proof
  fix a :: "'a app"
  assume "wildcard_last (parse_segments (normalize_path p))"
  moreover obtain a' b where a': "app_route m p h mw a = (a', b)" by (cases "app_route m p h mw a")
  ultimately have "b = False" using app_route_panics [of m p h mw a] by simp
  with a' have "app_route m p h mw a = (a', False)" by simp
  with app_route_ok(2) [OF this] show "\<exists>a'. app_route m p h mw a = (a', False) \<and> app_routes a' = app_routes a @ [(m, normalize_path p)]"
    by blast
qed

lemma adds_group_route:
  "wildcard_last (parse_segments (normalize_path (normalize_path (grp_prefix g @ normalize_path p)))) \<Longrightarrow>
   adds (group_route g m p h mw) [(m, normalize_path (normalize_path (grp_prefix g @ normalize_path p)))]"
  unfolding group_route_is_route by (rule adds_route)

lemma adds_metrics_route:
  "wildcard_last (parse_segments (normalize_path p)) \<Longrightarrow> p \<noteq> [] \<Longrightarrow>
   adds (register_metrics_route get seconds p) [(''GET'', normalize_path p)]"
  using adds_route [of p "''GET''" "metrics_handler get seconds" "[]"] by (simp add: adds_def register_metrics_route_def)

lemma adds_docs:
  assumes "wildcard_last (parse_segments (normalize_path jp))" "wildcard_last (parse_segments (normalize_path dp))"
    and "jp \<noteq> []" "dp \<noteq> []"
  shows "adds (register_docs html json jp dp) [(''GET'', normalize_path jp), (''GET'', normalize_path dp)]"
  unfolding adds_def
proof
  fix a
  obtain a1 where a1: "app_route ''GET'' jp json [] a = (a1, False)" "app_routes a1 = app_routes a @ [(''GET'', normalize_path jp)]"
    using adds_route [OF assms(1), of "''GET''" json "[]"] by (auto simp: adds_def)
  obtain a2 where "app_route ''GET'' dp (html jp) [] a1 = (a2, False)" "app_routes a2 = app_routes a1 @ [(''GET'', normalize_path dp)]"
    using adds_route [OF assms(2), of "''GET''" "html jp" "[]"] by (auto simp: adds_def)
  with a1 assms(3,4) show "\<exists>a'. register_docs html json jp dp a = (a', False) \<and>
      app_routes a' = app_routes a @ [(''GET'', normalize_path jp), (''GET'', normalize_path dp)]"
    by (simp add: register_docs_def Let_def)
qed

lemma register_all_adds:
  "list_all2 adds regs rss \<Longrightarrow> \<exists>a'. register_all regs a = Some a' \<and> app_routes a' = app_routes a @ concat rss"
proof (induction arbitrary: a rule: list_all2_induct)
  case (Cons reg regs rs rss)
  then obtain a1 where a1: "reg a = (a1, False)" "app_routes a1 = app_routes a @ rs" by (auto simp: adds_def)
  with Cons.IH [of a1] show ?case by auto
qed simp

lemma new_app_routes:
  fixes mws :: "'w middleware list"
  shows "app_routes (app_use mws (new_app enc (addr_config addr))) = [(''GET'', ''/health'')]"
proof -
  have p: "normalize_path ''/health'' = ''/health''" "wildcard_last (parse_segments ''/health'')" by code_simp+
  obtain a :: "'w app" where a: "app_route ''GET'' ''/health'' (health_handler enc) [] (empty_app (addr_config addr)) = (a, False)"
      "app_routes a = [(''GET'', ''/health'')]"
    using adds_route [of "''/health''" "''GET''" "health_handler enc" "[]", unfolded p(1), OF p(2),
        unfolded adds_def, rule_format, of "empty_app (addr_config addr)"]
    by (auto simp: empty_app_def)
  have "\<not> cfg_disable_healthz (with_defaults (addr_config addr))" "\<not> cfg_enable_metrics_stub (with_defaults (addr_config addr))"
    by (simp_all add: addr_config_def with_defaults_def Let_def)
  with a app_route_cfg [OF a(1)] show ?thesis by (simp add: new_app_def Let_def empty_app_cfg app_use_def)
qed

definition demo_listed :: "(string \<times> string) list" where
  "demo_listed =
     [(''GET'', ''/health''), (''GET'', ''/metrics''), (''GET'', ''/healthz''), (''POST'', ''/auth/login''),
      (''GET'', ''/api/v1/todos''), (''POST'', ''/api/v1/todos''), (''PATCH'', ''/api/v1/todos/:id/done''),
      (''GET'', ''/openapi.json''), (''GET'', ''/docs'')]"

lemma example_paths:
  "normalize_path ''/metrics'' = ''/metrics''" "normalize_path ''/healthz'' = ''/healthz''"
  "normalize_path ''/auth/login'' = ''/auth/login''" "normalize_path ''/openapi.json'' = ''/openapi.json''"
  "normalize_path ''/docs'' = ''/docs''"
  "normalize_path (normalize_path (''/api/v1'' @ normalize_path ''/todos'')) = ''/api/v1/todos''"
  "normalize_path (normalize_path (''/api/v1'' @ normalize_path ''/users'')) = ''/api/v1/users''"
  "normalize_path (normalize_path (''/api/v1'' @ normalize_path ''/todos/:id/done'')) = ''/api/v1/todos/:id/done''"
  by code_simp+

lemma example_wildcards:
  "wildcard_last (parse_segments ''/metrics'')" "wildcard_last (parse_segments ''/healthz'')"
  "wildcard_last (parse_segments ''/auth/login'')" "wildcard_last (parse_segments ''/openapi.json'')"
  "wildcard_last (parse_segments ''/docs'')" "wildcard_last (parse_segments ''/api/v1/todos'')"
  "wildcard_last (parse_segments ''/api/v1/users'')" "wildcard_last (parse_segments ''/api/v1/todos/:id/done'')"
  by code_simp+

lemma api_prefix: "grp_prefix (app_group ''/api/v1'' mws) = ''/api/v1''"
  by (simp add: app_group_def) code_simp

lemma example_regs:
  "adds (register_metrics_route get seconds ''/metrics'') [(''GET'', ''/metrics'')]"
  "adds (register_docs html json ''/openapi.json'' ''/docs'') [(''GET'', ''/openapi.json''), (''GET'', ''/docs'')]"
  "adds (app_route m ''/healthz'' h mw) [(m, ''/healthz'')]" "adds (app_route m ''/auth/login'' h mw) [(m, ''/auth/login'')]"
  "adds (group_route (app_group ''/api/v1'' mws) m ''/todos'' h mw) [(m, ''/api/v1/todos'')]"
  "adds (group_route (app_group ''/api/v1'' mws) m ''/users'' h mw) [(m, ''/api/v1/users'')]"
  "adds (group_route (app_group ''/api/v1'' mws) m ''/todos/:id/done'' h mw) [(m, ''/api/v1/todos/:id/done'')]"
  by (rule adds_metrics_route [of "''/metrics''", unfolded example_paths, OF example_wildcards(1)], simp,
    rule adds_docs [of "''/openapi.json''" "''/docs''", unfolded example_paths, OF example_wildcards(4,5)], simp, simp,
    rule adds_route [of "''/healthz''", unfolded example_paths, OF example_wildcards(2)],
    rule adds_route [of "''/auth/login''", unfolded example_paths, OF example_wildcards(3)],
    rule adds_group_route [of "app_group ''/api/v1'' mws" "''/todos''", unfolded api_prefix example_paths, OF example_wildcards(6)],
    rule adds_group_route [of "app_group ''/api/v1'' mws" "''/users''", unfolded api_prefix example_paths, OF example_wildcards(7)],
    rule adds_group_route [of "app_group ''/api/v1'' mws" "''/todos/:id/done''", unfolded api_prefix example_paths, OF example_wildcards(8)])

lemma demo_routes_listed: "\<exists>a. demo_main api seconds json addr = Some a \<and> app_routes a = demo_listed"
proof -
  have "list_all2 adds (register_metrics_route sv_metrics seconds ''/metrics'' # demo_api_routes api json)
      [[(''GET'', ''/metrics'')], [(''GET'', ''/healthz'')], [(''POST'', ''/auth/login'')], [(''GET'', ''/api/v1/todos'')],
       [(''POST'', ''/api/v1/todos'')], [(''PATCH'', ''/api/v1/todos/:id/done'')], [(''GET'', ''/openapi.json''), (''GET'', ''/docs'')]]"
    by (simp add: demo_api_routes_def Let_def example_regs)
  from register_all_adds [OF this] show ?thesis
    unfolding demo_main_def by (force simp: new_app_routes demo_listed_def)
qed

definition prod_listed :: "(string \<times> string) list" where
  "prod_listed =
     [(''GET'', ''/health''), (''GET'', ''/metrics''), (''GET'', ''/healthz''), (''POST'', ''/auth/login''),
      (''GET'', ''/api/v1/todos''), (''POST'', ''/api/v1/todos''), (''PATCH'', ''/api/v1/todos/:id/done''),
      (''POST'', ''/api/v1/users''), (''GET'', ''/openapi.json''), (''GET'', ''/docs'')]"

lemma prod_routes_listed: "\<exists>a. prod_main api seconds json addr = Some a \<and> app_routes a = prod_listed"
proof -
  have "list_all2 adds (prod_routes api seconds json)
      [[(''GET'', ''/metrics'')], [(''GET'', ''/healthz'')], [(''POST'', ''/auth/login'')], [(''GET'', ''/api/v1/todos'')],
       [(''POST'', ''/api/v1/todos'')], [(''PATCH'', ''/api/v1/todos/:id/done'')], [(''POST'', ''/api/v1/users'')],
       [(''GET'', ''/openapi.json''), (''GET'', ''/docs'')]]"
    by (simp add: prod_routes_def Let_def example_regs)
  from register_all_adds [OF this] show ?thesis
    unfolding prod_main_def by (force simp: new_app_routes prod_listed_def)
qed

section \<open>What the documents say\<close>

lemma demo_flat: "list_all (\<lambda>(m, p). flat_operation demo_domain (operation_of demo_docs m p)) demo_listed"
  by code_simp

lemma prod_flat: "list_all (\<lambda>(m, p). flat_operation prod_domain (operation_of prod_docs m p)) prod_listed"
  by code_simp

lemma demo_listed_apart: "inj_on (\<lambda>(m, p). (to_openapi_path p, to_lower m)) (set demo_listed)"
proof -
  have "distinct (map (\<lambda>(m, p). (to_openapi_path p, to_lower m)) demo_listed)" by code_simp
  then show ?thesis by (simp add: distinct_map)
qed

lemma prod_listed_apart: "inj_on (\<lambda>(m, p). (to_openapi_path p, to_lower m)) (set prod_listed)"
proof -
  have "distinct (map (\<lambda>(m, p). (to_openapi_path p, to_lower m)) prod_listed)" by code_simp
  then show ?thesis by (simp add: distinct_map)
qed

lemma demo_marks_guards:
  "list_all (\<lambda>(m, p). op_requires_auth (operation_of demo_docs m p) \<longleftrightarrow> prefix ''/api/v1'' p) demo_listed"
  by code_simp

lemma prod_marks_guards:
  "list_all (\<lambda>(m, p). op_requires_auth (operation_of prod_docs m p) \<longleftrightarrow> p = ''/api/v1/users'') prod_listed"
  by code_simp

lemma example_time_apart: "time_apart demo_domain" "time_apart prod_domain"
  by code_simp+

lemma example_document:
  assumes "app_routes a = listed" "time_apart env" "inj_on (\<lambda>(m, p). (to_openapi_path p, to_lower m)) (set listed)"
    and "list_all (\<lambda>(m, p). flat_operation env (operation_of g m p)) listed" "ge_bearer_auth g"
  shows "\<exists>d g'. build_document env rd st 2 a g = Some (d, g') \<and> do_security_scheme d \<and>
    (\<forall>m p. (m, p) \<in> set (app_routes a) \<longrightarrow>
       do_paths d (to_openapi_path p) (to_lower m) = Some (described st g (m, p)))"
proof -
  have "\<forall>(m, p) \<in> set (app_routes a). flat_operation env (operation_of g m p)"
    using assms(1,4) by (simp add: list_all_iff)
  from flat_document [OF assms(2) this, of rd st] assms(1,3,5) show ?thesis by metis
qed

lemma demo_todo_operations:
  "operation_of demo_docs ''GET'' ''/api/v1/todos'' = snd (snd (demo_operations ! 1))"
  "operation_of demo_docs ''POST'' ''/api/v1/todos'' = snd (snd (demo_operations ! 2))"
proof -
  have keys: "operation_key ''POST'' ''/auth/login'' = ''POST /auth/login''"
    "operation_key ''GET'' ''/api/v1/todos'' = ''GET /api/v1/todos''"
    "operation_key ''POST'' ''/api/v1/todos'' = ''POST /api/v1/todos''"
    "operation_key ''PATCH'' ''/api/v1/todos/:id/done'' = ''PATCH /api/v1/todos/:id/done''"
    by code_simp+
  show "operation_of demo_docs ''GET'' ''/api/v1/todos'' = snd (snd (demo_operations ! 1))"
    "operation_of demo_docs ''POST'' ''/api/v1/todos'' = snd (snd (demo_operations ! 2))"
    by (simp_all add: operation_of_def demo_docs_def demo_operations_def add_operation_def keys enable_bearer_auth_def
        new_generator_def)
qed



text \<open>
  The document of the production example, against its guards: of the routes that need a token only
  the one for users is marked, and the todos are described as open.
\<close>

lemma prod_document_omits_guards:
  "\<exists>a d g'. prod_main api seconds json addr = Some a \<and>
     build_document prod_domain rd st 2 a prod_docs = Some (d, g') \<and>
     (\<forall>m p. (m, p) \<in> set (app_routes a) \<longrightarrow>
        (\<exists>e. do_paths d (to_openapi_path p) (to_lower m) = Some e \<and>
           (op_requires_auth (en_operation e) \<longleftrightarrow> p = ''/api/v1/users'')))"
proof -
  obtain a where a: "prod_main api seconds json addr = Some a" "app_routes a = prod_listed"
    using prod_routes_listed by blast
  have bearer_auth: "ge_bearer_auth prod_docs" by code_simp
  obtain d g' where d: "build_document prod_domain rd st 2 a prod_docs = Some (d, g')"
    "\<And>m p. (m, p) \<in> set (app_routes a) \<Longrightarrow> do_paths d (to_openapi_path p) (to_lower m) = Some (described st prod_docs (m, p))"
    using example_document [OF a(2) example_time_apart(2) prod_listed_apart prod_flat bearer_auth, of rd st] by blast
  have marks: "op_requires_auth (operation_of prod_docs m p) \<longleftrightarrow> p = ''/api/v1/users''" if "(m, p) \<in> set (app_routes a)" for m p
    using prod_marks_guards that a(2) by (fastforce simp: list_all_iff)
  have op: "en_operation (described st prod_docs (m, p)) = operation_of prod_docs m p" for m p
    by (simp add: described_def Let_def)
  show ?thesis
  proof (intro exI conjI allI impI)
    show "prod_main api seconds json addr = Some a" by (rule a(1))
    show "build_document prod_domain rd st 2 a prod_docs = Some (d, g')" by (rule d(1))
    fix m p assume mp: "(m, p) \<in> set (app_routes a)"
    show "do_paths d (to_openapi_path p) (to_lower m) = Some (described st prod_docs (m, p))" by (rule d(2) [OF mp])
    show "op_requires_auth (en_operation (described st prod_docs (m, p))) \<longleftrightarrow> p = ''/api/v1/users''"
      unfolding op by (rule marks [OF mp])
  qed
qed

end
