(* ===== verification/Example_Programs.thy ===== *)
theory Example_Programs imports Cmd_Api Demo_Concurrent Example_Docs Migrate_Theorems begin

text \<open>
  The functions \<open>main\<close> of the example server, the demo application and the production example from
  their settings to the application they serve: \<open>LoadEnv\<close> into \<open>appConfig\<close>, what is opened and
  migrated, the handlers with their secret, and the routes. An error before \<open>Run\<close> ends the program
  (\<open>log.Fatal\<close>).
\<close>

section \<open>Settings\<close>

definition hello_fields :: "(field_info \<times> 'n cell) list" where
  "hello_fields = [(env_tag ''APP_ADDR'' '':8080'', StringCell [])]"

definition demo_fields :: "(field_info \<times> 'n cell) list" where
  "demo_fields =
     [(env_tag ''APP_ADDR'' '':8080'', StringCell []), (env_tag ''APP_NAME'' ''elgon-demo'', StringCell []),
      (env_tag ''JWT_SECRET'' ''change-me'', StringCell [])]"

definition demo_secret :: "(string \<Rightarrow> string) \<Rightarrow> string" where
  "demo_secret env = text_setting env ''JWT_SECRET'' ''change-me''"

lemma setting_names:
  "trim_space ''APP_ADDR'' = ''APP_ADDR''" "trim_space ''APP_NAME'' = ''APP_NAME''" "trim_space ''JWT_SECRET'' = ''JWT_SECRET''"
  "trim_space '':8080'' = '':8080''" "trim_space ''change-me'' = ''change-me''"
  by code_simp+

lemma hello_env_loads:
  "\<exists>cells. load_env rd env hello_fields = (cells, None) \<and> text_cell cells 0 = text_setting env ''APP_ADDR'' '':8080''"
  by (simp add: load_env_def hello_fields_def load_text_field setting_names del: load_from_env.simps(2))

lemma demo_env_loads:
  "\<exists>cells. load_env rd env demo_fields = (cells, None) \<and> text_cell cells 0 = text_setting env ''APP_ADDR'' '':8080'' \<and>
     text_cell cells 2 = demo_secret env"
  by (simp add: load_env_def demo_fields_def load_text_field setting_names del: load_from_env.simps(2))
    (simp add: demo_secret_def text_cell_def)

section \<open>Programs\<close>

datatype program_error = BadSettings env_error | CannotStart start_error

definition hello_program ::
  "'n num_reader \<Rightarrow> (string \<Rightarrow> string) \<Rightarrow> (json_body \<Rightarrow> string + string) \<Rightarrow> (64 word \<Rightarrow> string) \<Rightarrow> 'f server handler \<Rightarrow>
   program_error + 'f server app option" where
  "hello_program rd env enc seconds json =
     (case load_env rd env hello_fields of
        (cells, Some e) \<Rightarrow> Inl (BadSettings e)
      | (cells, None) \<Rightarrow> Inr (hello_main enc seconds json (text_cell cells 0)))"

text \<open>The handlers of the demo with its queue in memory, whose errors they do not look at.\<close>

definition demo_handlers ::
  "body_codec \<Rightarrow> (json_body \<Rightarrow> string + string) \<Rightarrow> jwt_codec \<Rightarrow> (int \<Rightarrow> int) \<Rightarrow> string \<Rightarrow> mem_queue demo_api" where
  "demo_handlers bodies enc jc seconds secret =
     \<lparr>da_bodies = bodies, da_enc = enc, da_jwt = jc, da_seconds = seconds, da_secret = secret,
      da_queue = Some (\<lambda>m q. (None, snd (mem_enqueue m q)))\<rparr>"

definition demo_program ::
  "'n num_reader \<Rightarrow> (string \<Rightarrow> string) \<Rightarrow> (string \<Rightarrow> mem_queue demo_api) \<Rightarrow> (64 word \<Rightarrow> string) \<Rightarrow>
   (mem_queue, 'f) demo_world handler \<Rightarrow> program_error + mem_queue demo_api \<times> (mem_queue, 'f) demo_world app option" where
  "demo_program rd env handlers seconds json =
     (case load_env rd env demo_fields of
        (cells, Some e) \<Rightarrow> Inl (BadSettings e)
      | (cells, None) \<Rightarrow>
          (let api = handlers (text_cell cells 2) in Inr (api, demo_main api seconds json (text_cell cells 0))))"

definition prod_program ::
  "'n num_reader \<Rightarrow> (string \<Rightarrow> string) \<Rightarrow> (string \<Rightarrow> string \<Rightarrow> string + 'd sql_handle) \<Rightarrow> string + dir_entry list \<Rightarrow>
   (prod_config \<Rightarrow> 'd adapter \<Rightarrow> 'd prod_api) \<Rightarrow> (64 word \<Rightarrow> string) \<Rightarrow> ('d, 'f) prod_world handler \<Rightarrow> 'd \<Rightarrow>
   (program_error + 'd prod_api \<times> ('d, 'f) prod_world app option) \<times> 'd" where
  "prod_program rd env sql_open entries handlers seconds json d =
     (case load_env rd env prod_fields of
        (cells, Some e) \<Rightarrow> (Inl (BadSettings e), d)
      | (cells, None) \<Rightarrow>
          (let cfg = prod_config_of cells in
           case prod_start sql_open entries (handlers cfg) cfg d of
             (Inl e, d') \<Rightarrow> (Inl (CannotStart e), d')
           | (Inr api, d') \<Rightarrow> (Inr (api, prod_main api seconds json (pc_addr cfg)), d')))"

lemma prod_program_settings:
  "prod_program rd env sql_open entries handlers seconds json d =
     (let cfg = prod_settings env in
      case prod_start sql_open entries (handlers cfg) cfg d of
        (Inl e, d') \<Rightarrow> (Inl (CannotStart e), d')
      | (Inr api, d') \<Rightarrow> (Inr (api, prod_main api seconds json (pc_addr cfg)), d'))"
proof -
  obtain cells where "load_env rd env prod_fields = (cells, None)" "prod_config_of cells = prod_settings env"
    using prod_env_loads [of rd env] by blast
  then show ?thesis by (simp add: prod_program_def)
qed

section \<open>What a program that serves has done\<close>


definition first_start :: "(program_error + log_db prod_api \<times> (log_db, unit) prod_world app option) \<times> log_db" where
  "first_start =
     prod_program demo_reader (\<lambda>key. []) (\<lambda>driver dsn. Inr (log_handle (\<lambda>q args. False) no_versions)) (Inr one_migration)
       (prod_handlers plain_bodies plain_enc demo_codec (\<lambda>ns. ns div 1000000000) clock_lib (\<lambda>ev. (''id'', 0)) ''00'')
       (\<lambda>d. []) (docs_html_handler []) ([], [])"


end
