(* ===== verification/Spec2Isabelle.thy ===== *)
theory Spec2Isabelle
  imports Orm_Theorems Orm_Schema_Theorems Web_Theorems Observers App_Data Migrate_Generate_Theorems Auth Auth_Oidc
    Jobs_Workers Jobs_Cron Jobs_Adapters Cmd_Main Openapi_Theorems App_Run Example_Programs Todos_App
begin

text \<open>
  A verification library for elgon, a Go toolkit for HTTP services. The repository is a set of
  packages around one application type: the web core in the root package (router, contexts,
  application, groups), the packages \<open>middleware\<close>, \<open>observability\<close> and \<open>auth\<close> whose exports
  are wrapped around its handlers, the package \<open>openapi\<close> that describes its routes, the package
  \<open>orm\<close> that turns maps and structs into SQL and runs it on an adapter of package \<open>db\<close>, the
  package \<open>migrate\<close> that generates and keeps the schema of such a database, the package \<open>jobs\<close>
  with its queues and schedules, and the package \<open>config\<close> that loads settings. On top of them are
  the command \<open>elgon\<close> (cmd/elgon), an example server (cmd/api) and three example applications
  (examples).

  \<^bold>\<open>How the parts interact.\<close> A request reaches \<open>ServeHTTP\<close> (router.go), which takes a pooled
  context, resets it, looks the route up in the tree, and runs the chain that \<open>App.route\<close> built
  when the route was registered: global middleware outside, then the group's, then the route's,
  then the handler. Whatever error comes back becomes one JSON body. The list of routes that
  registration keeps is what \<open>openapi\<close> documents. Handlers reach the database through
  \<open>App.SetSQL\<close> and the client of package \<open>orm\<close>; the client's tables build one statement per
  operation, placeholders and arguments together, and hand it to the adapter. The schema
  compiler of \<open>orm\<close> makes \<open>CREATE TABLE\<close> statements of struct types, for \<open>AutoMigrate\<close> and for
  the migration generator, whose files the loader reads and the engine runs. The engine and the
  SQL queue talk to the same adapter directly. The examples put these parts together, and the
  theorems about them are about the composition: one request through router, middleware, guards,
  handler, repository and queue.

  \<^bold>\<open>The theories.\<close>
  \<^item> \<open>Go_Prelude\<close>: maps of Go as duplicate-free association lists in the order of one iteration,
    the sum type of results, the parts of \<open>strings\<close>, \<open>sort\<close> and \<open>strconv\<close> the source calls,
    the fact collections. \<open>Go_Encoding\<close>: base64 without padding, with its round trip, and
    hexadecimal text. \<open>Go_Strconv\<close>: booleans, unsigned numbers and \<open>time.ParseDuration\<close>.
    \<open>Go_Flags\<close>: the flags of package \<open>flag\<close> and integers with a base prefix.
    \<open>Go_Url\<close>: the escapes of \<open>net/url\<close> with their inverses. \<open>Go_Json\<close>: JSON values.
    \<open>Go_Types\<close>: what \<open>reflect\<close> tells of a type, and the snake case of names.
  \<^item> \<open>Sql_Text\<close>: the three placeholder functions (orm/table.go, migrate/migrate.go,
    jobs/distributed.go) as interpretations of the locale \<open>placeholder_style\<close>, and the reading of
    a statement's placeholders out of its text.
  \<^item> \<open>Orm_Values\<close>, \<open>Orm_Where\<close>, \<open>Orm_Mask\<close>, \<open>Orm_Query\<close>, \<open>Orm_Guard\<close>,
    \<open>Orm_Safe\<close>, \<open>Orm_Table\<close>: values, where maps, statements and table operations of
    orm/table.go, with the lemmas on their placeholders, on what the values can reach, on their
    alphabet and on conditions that restrict nothing. \<open>Orm_Theorems\<close>: C1 to C4, C11, C17, C18,
    and the exceptions to them. \<open>Orm_Schema\<close>, \<open>Orm_Schema_Theorems\<close>: orm/schema.go (C32, C33).
  \<^item> \<open>Db\<close>: the interfaces of db/db.go, and an adapter that records what is committed.
    \<open>Db_Sql\<close>: db/sql.go, with the pool. \<open>Db_Dsn\<close>: the connection strings of db/drivers.go.
    \<open>Sql_Scan\<close>: the conversions of \<open>Rows.Scan\<close> that the repositories of the examples use.
  \<^item> \<open>Router\<close>: route.go and router.go, the tree against the list of registrations (C5).
  \<^item> \<open>Web_Ctx\<close>: ctx.go, errors.go, types.go and the response writer; the locale
    \<open>preparing_middleware\<close>. \<open>App\<close>: app.go, group.go, named_route.go, config.go and
    \<open>ServeHTTP\<close>. \<open>App_Theorems\<close>: C19 to C21. \<open>App_Data\<close>: app_db.go and orm/client.go (C29).
    \<open>App_Run\<close>: \<open>Run\<close>, its goroutine, channel and signals as a transition relation (C26).
  \<^item> \<open>Middleware\<close>: middleware/*.go. \<open>Observers\<close>: the logger and observability/trace.go, with the
    locale \<open>observing_middleware\<close>. \<open>Metrics\<close>: observability/metrics.go.
    \<open>Web_Theorems\<close>: middleware in the application.
  \<^item> \<open>Openapi\<close>: openapi/openapi.go and openapi/schema.go. \<open>Openapi_Schemas\<close>: on \<open>buildSchema\<close>
    (C10). \<open>Openapi_Theorems\<close>: on documents (C30, C31).
  \<^item> \<open>Migrate\<close>, \<open>Migrate_Theorems\<close>: migrate/migrate.go and migrate/loader.go (C6).
    \<open>Migrate_Generate\<close>, \<open>Migrate_Generate_Theorems\<close>: migrate/generate.go (C35).
  \<^item> \<open>Auth\<close>: auth/auth.go (C8, C15). \<open>Auth_Oidc\<close>: auth/oauth_oidc.go (C38).
  \<^item> \<open>Jobs_Queue\<close>: jobs/queue.go as a step relation (C24, C25). \<open>Jobs_Sql\<close>,
    \<open>Jobs_Workers\<close>: jobs/distributed.go, each operation, then several workers interleaved
    statement by statement (C7). \<open>Jobs_Brokers\<close>: jobs/redis.go and jobs/kafka.go, and the
    interface \<open>Queue\<close> as the locale \<open>message_queue\<close>, which they and the in-memory queue
    interpret. \<open>Jobs_Adapters\<close>: jobs/redisadapter and jobs/kafkaadapter, the clients of these
    queues (C39). \<open>Jobs_Cron\<close>: jobs/cron.go (C40).
  \<^item> \<open>Config_Env\<close>: the loaders of config/config.go (C14), and structs of strings.
  \<^item> \<open>Cmd_Elgon\<close>: the commands of cmd/elgon/main.go with their flags (C36). \<open>Cmd_Main\<close>: its
    \<open>main\<close>, from the arguments to the exit status (C23, C37).
  \<^item> \<open>Web_Serving\<close>: what the programs share: a server's state, its middleware, registration in a
    row, a session of requests, and the locale \<open>server_contract\<close>, under which a contract of the
    handlers is one of the application; the examples interpret it. \<open>Cmd_Api\<close>: cmd/api/main.go.
    \<open>Demo_Todos\<close> (C27), \<open>Demo_Api\<close> (C9, C16): examples/demo-app. \<open>Demo_Concurrent\<close>:
    its requests that run at the same time, with its worker and its signal (C28).
    \<open>Prod_Repo\<close> (C13), \<open>Prod_Api\<close> (C12): examples/prod-api. \<open>Todos_App\<close>: examples/todos.
    \<open>Example_Docs\<close>: the documents of the first two against their guards (C34).
    \<open>Example_Programs\<close>: the functions \<open>main\<close> of the first three programs, from the settings to the
    application they serve (C22).

  \<^bold>\<open>Correspondence of state.\<close> A struct is a \<open>record\<close> with the source's fields; a pointer
  receiver's operation takes the state and returns the changed one, before the result. An error
  is the left side of a sum. A Go map is an association list without duplicate keys: its order
  is the order of one iteration, so a theorem that holds for every list holds for every order the
  runtime may choose. A handler is a function from the request and the context to the changed
  context, the answer written so far and an optional error; a panic is an outcome of its own.
  A database is a record of functions over a state that stays a parameter: an operation can be
  instantiated with any adapter, and the theorems say which statements reach it and which of them
  are committed. A directory of migrations is a map from file names to contents. A type that
  \<open>reflect\<close> walks is a datatype in which a declared type is a name, resolved by an environment,
  so that types may refer to themselves and each other.

  \<^bold>\<open>The groups of lemmas.\<close> Of package \<open>orm\<close>: the placeholders of every statement are exactly
  the positions of its arguments, in order, and the arguments are the values given (C1, C2);
  the text depends on keys and shapes only (C17) and stays in a safe alphabet (C3); a where map
  that restricts nothing is characterised (C4); the order of map iteration is irrelevant (C18);
  several records are written together or not at all (C11). A table statement has one valid
  column per field and no text but that of two tag options is free (C32, C33).
  Of the web core: the tree finds a route just when the matching of the registrations says so
  (C5), what chains do to handlers (C20), that every response is that of a registered route or an
  error (C19, C21), that nothing of a request survives in the pool, and that the
  document has these routes, with components for all it refers to.
  Of \<open>migrate\<close>: after a run, with success or failure, the migrations committed are a
  prefix of the pending ones, each with its row (C6), and what is generated can be loaded (C35) and
  is what the command applies (C36). A run of the command commits such a prefix too, as many as its
  arguments ask for, and a command line that is refused changes nothing (C23, C37).
  Of \<open>jobs\<close>: order and loss of messages in every queue, and that the claim by compare-and-set
  gives a job to one worker (C7). Of the examples: a request changes todos, users or jobs only with
  a token that allows it (C9, C12), the token of a login allows it for a day (C16), a SQL repository
  behaves as a list of todos (C13) and the one in memory numbers them without gaps
  (C27); todos that are created at the same time are stored and announced once each, or the queue
  was closed (C28); and a program that serves has migrated its database (C22).

  \<^bold>\<open>Bounds and fuel.\<close> Where maps nest as deep as their datatype, so the mutual recursion over
  them is structural; decimal numerals, base64 and directory entries recurse on lists or
  decreasing numbers. Only \<open>buildSchema\<close> has fuel, since it does not return for every type: C10
  says for which types some fuel is enough, more never changes a result, and the theorems on
  documents hold for every amount. Counters of metrics are 64-bit words and wrap; the fields of
  \<open>config\<close> have the width of their type; durations and parsed integers have 64 bits. Lengths,
  attempts and versions are \<open>nat\<close> or \<open>int\<close> where the source cannot reach the width with anything
  it stores in memory. The ids of the demo's todos have 64 bits, and C27 holds below their wrap.

  \<^bold>\<open>Parameters.\<close> The clock, random bytes, the keyed hash of \<open>crypto/hmac\<close>, database drivers,
  HTTP, Redis and Kafka clients, floating point, the Go parser, JSON decoding into user types and
  the handlers themselves are arguments of the definitions that use them. Hypotheses about them
  are named (\<open>tx_isolated\<close>: the adapter keeps transactions apart; \<open>redis_laws\<close>, \<open>kafka_laws\<close>:
  lists and keys keep their order; \<open>codec_laws\<close>: messages are read back;
  \<open>go_redis_laws\<close>: the lists of Redis; \<open>todo_table_laws\<close>: what the statements of the repository do in
  a database; \<open>time_laws\<close>: times printed are read back), every one instantiated in the example after
  the theorem.

  \<^bold>\<open>Not modelled.\<close> What is behind the interfaces above is not code of the repository: \<open>net/http\<close>,
  \<open>database/sql\<close> and its drivers, go-redis and kafka-go, the programs that \<open>elgon dev\<close>,
  \<open>test\<close> and \<open>bench\<close> start. A \<open>context.Context\<close> has no state here: where the code waits for it to be
  done, a step or an argument says that it is, and the context a tracer puts into the request, which
  only reaches what the handler calls, is left out. Printed texts are left out where only a person
  reads them (usage, the lines of the logs, the texts of the examples at their start). Some functions
  that only hand over a field have no definition of their own, such as \<open>Routes\<close>, \<open>Plugins\<close> and
  \<open>RoutePattern\<close>. The remaining files, doc.go, tools.go and postgres_driver.go of prod-api, hold
  documentation and imports.
\<close>

end
